(* ===== verification/Prelude.thy ===== *)
theory Prelude
  imports Main "HOL-Library.Word"
begin

unbundle bit_operations_syntax

text \<open>
  Shared vocabulary of the development: byte strings, slices, the byte orders of
  \<open>encoding/binary\<close>, 64-bit integer wrap-around and saturation, decimal and hexadecimal
  printing as \<open>strconv.Itoa\<close> and \<open>fmt.Sprintf\<close> do it, and the lemma collection the
  component theories use.

  \<^item> A Go \<open>[]byte\<close> is a list of 8-bit words; \<open>p[a:b]\<close> is \<open>gslice a b p\<close>. Every slice
    expression of the program is guarded by a length check, so a slice is never taken out of range.
  \<^item> A Go \<open>string\<close> is a \<open>string\<close> whose characters are its bytes.
  \<^item> \<open>int\<close>, \<open>int64\<close> and \<open>time.Duration\<close> are \<open>int\<close>; where an operation can leave the
    64-bit range, \<open>wrap64\<close> (two's complement wrap-around) is written out.
  \<^item> \<open>uint64\<close>, \<open>uint32\<close> are words of that width.
\<close>

type_synonym byte = "8 word"
type_synonym bytes = "byte list"
type_synonym u32 = "32 word"
type_synonym u64 = "64 word"

named_theorems codec_simps \<open>lengths and slices of encoded messages\<close>

subsection \<open>Slices\<close>

definition gslice :: "nat \<Rightarrow> nat \<Rightarrow> 'a list \<Rightarrow> 'a list" where
  "gslice a b p = take (b - a) (drop a p)"

lemma length_gslice [simp, codec_simps]: "length (gslice a b p) = min (b - a) (length p - a)"
  by (simp add: gslice_def min.commute)

lemma gslice_0 [simp, codec_simps]: "gslice 0 b p = take b p"
  by (simp add: gslice_def)

lemma gslice_append_left [codec_simps]: "b \<le> length p \<Longrightarrow> gslice a b (p @ q) = gslice a b p"
  by (simp add: gslice_def)

lemma gslice_append_right [codec_simps]:
  "length p \<le> a \<Longrightarrow> gslice a b (p @ q) = gslice (a - length p) (b - length p) q"
  by (simp add: gslice_def)

lemma gslice_full [codec_simps]: "length p \<le> b \<Longrightarrow> gslice 0 b p = p"
  by (simp add: gslice_def)

lemma take_gslice_split: "a \<le> b \<Longrightarrow> take a p @ gslice a b p = take b p"
  by (metis add_diff_inverse_nat not_less gslice_def take_add)

subsection \<open>Byte strings of string literals\<close>

definition bytes_of :: "string \<Rightarrow> bytes" where
  "bytes_of s = map of_char s"

lemma length_bytes_of [simp, codec_simps]: "length (bytes_of s) = length s"
  by (simp add: bytes_of_def)

subsection \<open>encoding/binary: big and little endian\<close>

text \<open>
  \<open>be_put n w\<close> is the \<open>n\<close>-byte big-endian form of \<open>w\<close> (\<open>BigEndian.PutUint64\<close> for
  \<open>n = 8\<close>, \<open>PutUint32\<close> for \<open>n = 4\<close>); \<open>be_get\<close> is \<open>BigEndian.Uint64\<close>/\<open>Uint32\<close>.
\<close>

primrec be_put :: "nat \<Rightarrow> 'a::len word \<Rightarrow> bytes" where
  "be_put 0 w = []"
| "be_put (Suc n) w = ucast (drop_bit (8 * n) w) # be_put n w"

definition be_get :: "bytes \<Rightarrow> 'a::len word" where
  "be_get bs = foldl (\<lambda>acc b. push_bit 8 acc OR ucast b) 0 bs"

definition le_get :: "bytes \<Rightarrow> 'a::len word" where
  "le_get bs = be_get (rev bs)"

abbreviation put64 :: "u64 \<Rightarrow> bytes" where "put64 w \<equiv> be_put 8 w"
abbreviation get64 :: "bytes \<Rightarrow> u64" where "get64 \<equiv> be_get"
abbreviation put32 :: "u32 \<Rightarrow> bytes" where "put32 w \<equiv> be_put 4 w"
abbreviation get32 :: "bytes \<Rightarrow> u32" where "get32 \<equiv> be_get"

lemma length_be_put [simp, codec_simps]: "length (be_put n w) = n"
  by (induction n) simp_all

lemma be_fold_put:
  fixes acc w :: "'a::len word"
  shows "foldl (\<lambda>acc b. push_bit 8 acc OR ucast b) acc (be_put n w)
    = push_bit (8 * n) acc OR take_bit (8 * n) w"
proof (induction n arbitrary: acc)
  case 0
  show ?case by simp
next
  case (Suc n)
  show ?case
    unfolding be_put.simps foldl_Cons Suc
    by (rule bit_word_eqI)
      (auto simp: bit_simps add.commute)
qed

lemma be_get_put: "be_get (be_put n (w::'a::len word)) = take_bit (8 * n) w"
  by (simp add: be_get_def be_fold_put)

lemma get64_put64 [simp, codec_simps]: "get64 (put64 w) = w"
  unfolding be_get_put by (simp add: take_bit_word_eq_self)

lemma get32_put32 [simp, codec_simps]: "get32 (put32 w) = w"
  unfolding be_get_put by (simp add: take_bit_word_eq_self)

lemma be_get_Nil [simp]: "be_get [] = 0"
  by (simp add: be_get_def)

lemma be_get_snoc: "be_get (bs @ [b]) = push_bit 8 (be_get bs) OR ucast b"
  by (simp add: be_get_def)

lemma not_bit_byte: "8 \<le> n \<Longrightarrow> \<not> bit (b :: byte) n"
  using bit_imp_le_length [of b n] by auto

lemma bit_be_get_bound: "bit (be_get bs :: 'a::len word) n \<Longrightarrow> n < 8 * length bs"
proof (induction bs arbitrary: n rule: rev_induct)
  case Nil
  then show ?case by simp
next
  case (snoc b bs)
  then consider "8 \<le> n" "bit (be_get bs :: 'a word) (n - 8)" | "bit b n"
    by (auto simp: be_get_snoc bit_simps)
  then show ?case
  proof cases
    case 1
    with snoc.IH [of "n - 8"] show ?thesis by simp
  next
    case 2
    then have "n < 8" using not_bit_byte [of n b] by force
    then show ?thesis by simp
  qed
qed

lemma drop_bit_8_be_get_snoc:
  assumes "8 * Suc (length bs) \<le> LENGTH('a::len)"
  shows "drop_bit 8 (be_get (bs @ [b]) :: 'a word) = be_get bs"
proof (rule bit_word_eqI)
  fix n
  assume "n < LENGTH('a)"
  show "bit (drop_bit 8 (be_get (bs @ [b]) :: 'a word)) n \<longleftrightarrow> bit (be_get bs :: 'a word) n"
    using assms bit_be_get_bound [where 'a = 'a, of bs n] not_bit_byte [of "8 + n" b]
    by (auto simp: be_get_snoc bit_simps)
qed

lemma drop_bit_be_get:
  assumes "8 * (length bs + length cs) \<le> LENGTH('a::len)"
  shows "drop_bit (8 * length cs) (be_get (bs @ cs) :: 'a word) = be_get bs"
  using assms
proof (induction cs rule: rev_induct)
  case Nil
  show ?case by simp
next
  case (snoc c cs)
  have "drop_bit (8 * length (cs @ [c])) (be_get (bs @ cs @ [c]) :: 'a word)
    = drop_bit (8 * length cs) (drop_bit 8 (be_get ((bs @ cs) @ [c])))"
    by (simp add: add.commute)
  also have "\<dots> = drop_bit (8 * length cs) (be_get (bs @ cs))"
    using snoc.prems by (subst drop_bit_8_be_get_snoc) auto
  finally show ?case
    using snoc by simp
qed

lemma ucast_be_get_snoc: "ucast (be_get (bs @ [b]) :: 'a::len word) = (b :: byte)"
  if "8 \<le> LENGTH('a)"
  using that by (auto intro!: bit_word_eqI simp: be_get_snoc bit_simps)

lemma be_put_get:
  assumes "8 * length bs \<le> LENGTH('a::len)"
  shows "be_put (length bs) (be_get bs :: 'a word) = bs"
proof -
  have "be_put (length cs) (be_get (bs @ cs) :: 'a word) = cs"
    if "8 * (length bs + length cs) \<le> LENGTH('a)" for bs cs :: bytes
    using that
  proof (induction cs arbitrary: bs)
    case Nil
    show ?case by simp
  next
    case (Cons c cs)
    then have "drop_bit (8 * length cs) (be_get ((bs @ [c]) @ cs) :: 'a word) = be_get (bs @ [c])"
      by (intro drop_bit_be_get) simp
    with Cons.prems Cons.IH [of "bs @ [c]"] show ?case
      by (simp add: ucast_be_get_snoc)
  qed
  from this [of "[]" bs] assms show ?thesis by simp
qed

lemma put64_get64: "length bs = 8 \<Longrightarrow> put64 (get64 bs) = bs"
  using be_put_get [of bs, where 'a = 64] by simp

lemma put32_get32: "length bs = 4 \<Longrightarrow> put32 (get32 bs) = bs"
  using be_put_get [of bs, where 'a = 32] by simp

lemma put64_inject [simp]: "put64 v = put64 w \<longleftrightarrow> v = w"
  by (metis get64_put64)

subsection \<open>64-bit signed arithmetic\<close>

definition wrap64 :: "int \<Rightarrow> int" where
  "wrap64 i = (i + 2 ^ 63) mod 2 ^ 64 - 2 ^ 63"

definition sat64 :: "int \<Rightarrow> int" where
  "sat64 i = max (- (2 ^ 63)) (min (2 ^ 63 - 1) i)"

definition fits64 :: "int \<Rightarrow> bool" where
  "fits64 i \<longleftrightarrow> - (2 ^ 63) \<le> i \<and> i < 2 ^ 63"

lemma wrap64_fits [simp]: "fits64 i \<Longrightarrow> wrap64 i = i"
  by (simp add: wrap64_def fits64_def)

lemma fits64_wrap64 [simp]: "fits64 (wrap64 i)"
  unfolding wrap64_def fits64_def
  using pos_mod_bound [of "2 ^ 64" "i + 2 ^ 63"] pos_mod_sign [of "2 ^ 64" "i + 2 ^ 63"] by simp

lemma fits64_sat64 [simp]: "fits64 (sat64 i)"
  by (simp add: sat64_def fits64_def)

lemma sat64_fits [simp]: "fits64 i \<Longrightarrow> sat64 i = i"
  by (simp add: sat64_def fits64_def)

lemma sat64_le_iff: "fits64 k \<Longrightarrow> sat64 i \<le> k \<longleftrightarrow> i \<le> k \<or> k = 2 ^ 63 - 1"
  by (auto simp: sat64_def fits64_def)

lemma sat64_between: "fits64 k \<Longrightarrow> k < 2 ^ 63 - 1 \<Longrightarrow> - k \<le> sat64 i \<and> sat64 i \<le> k \<longleftrightarrow> - k \<le> i \<and> i \<le> k"
  by (auto simp: sat64_def fits64_def)

subsection \<open>Printing numbers\<close>

definition digit :: "nat \<Rightarrow> char" where
  "digit d = (if d < 10 then char_of (48 + d) else char_of (87 + d))"

fun digits :: "nat \<Rightarrow> string" where
  "digits n = (if n < 10 then [digit n] else digits (n div 10) @ [digit (n mod 10)])"

declare digits.simps [simp del]

definition itoa :: "int \<Rightarrow> string" where
  "itoa i = (if i < 0 then CHR ''-'' # digits (nat (- i)) else digits (nat i))"

fun hex_digits :: "nat \<Rightarrow> string" where
  "hex_digits n = (if n < 16 then [digit n] else hex_digits (n div 16) @ [digit (n mod 16)])"

declare hex_digits.simps [simp del]

text \<open>The code of a character as an integer.\<close>

abbreviation ord :: "char \<Rightarrow> int" where "ord c \<equiv> of_char c"

lemma ord_bounds: "0 \<le> ord c \<and> ord c < 256"
proof -
  have "ord c = int (of_char c)" by (simp only: of_nat_of_char)
  moreover have "(of_char c :: nat) < 256" by simp
  ultimately show ?thesis by linarith
qed

lemma ord_char_of: "n < 256 \<Longrightarrow> ord (char_of (n :: nat)) = int n"
proof -
  assume "n < 256"
  have "ord (char_of n) = int (of_char (char_of n))" by (simp only: of_nat_of_char)
  with \<open>n < 256\<close> show ?thesis by simp
qed

lemma ord_digit [simp]: "d < 10 \<Longrightarrow> ord (digit d) = 48 + int d"
  by (simp add: digit_def ord_char_of)

lemma digit_inject: "d < 10 \<Longrightarrow> e < 10 \<Longrightarrow> digit d = digit e \<longleftrightarrow> d = e"
  by (metis ord_digit add_left_cancel of_nat_eq_iff)

definition is_digit :: "char \<Rightarrow> bool" where
  "is_digit c \<longleftrightarrow> 48 \<le> ord c \<and> ord c \<le> 57"

lemma is_digit_digit [simp]: "d < 10 \<Longrightarrow> is_digit (digit d)"
  by (simp add: is_digit_def)

lemma digits_all_digits: "c \<in> set (digits n) \<Longrightarrow> is_digit c"
proof (induction n rule: digits.induct)
  case (1 n)
  then show ?case
    by (subst (asm) (2) digits.simps) (auto split: if_splits)
qed

lemma digits_not_Nil [simp]: "digits n \<noteq> []"
  by (subst digits.simps) simp

definition digits_val :: "string \<Rightarrow> int" where
  "digits_val s = foldl (\<lambda>v c. 10 * v + (ord c - 48)) 0 s"

lemma digits_val_snoc [simp]: "digits_val (s @ [c]) = 10 * digits_val s + (ord c - 48)"
  by (simp add: digits_val_def)

lemma digits_val_digits [simp]: "digits_val (digits n) = int n"
proof (induction n rule: digits.induct)
  case (1 n)
  have "10 * int (n div 10) + int (n mod 10) = int n" by presburger
  with 1 show ?case
    by (cases "n < 10") (simp_all add: digits.simps [of n], simp add: digits_val_def)
qed

lemma digits_inject [simp]: "digits m = digits n \<longleftrightarrow> m = n"
  by (metis digits_val_digits of_nat_eq_iff)

lemma minus_not_digit: "\<not> is_digit (CHR ''-'')"
  by (simp add: is_digit_def)

lemma minus_not_digits: "CHR ''-'' # s \<noteq> digits n"
  using digits_all_digits [of "CHR ''-''" n] by (metis list.set_intros(1) minus_not_digit)

lemma itoa_inject [simp]: "itoa i = itoa j \<longleftrightarrow> i = j"
  using minus_not_digits by (auto simp: itoa_def dest: sym)

lemma itoa_chars: "c \<in> set (itoa i) \<Longrightarrow> is_digit c \<or> c = CHR ''-''"
  by (auto simp: itoa_def digits_all_digits split: if_splits)

lemma append_sep_inject:
  assumes "x \<notin> set as" "x \<notin> set cs" "as @ x # bs = cs @ x # ds"
  shows "as = cs \<and> bs = ds"
  using assms
proof (induction as arbitrary: cs)
  case Nil
  then show ?case by (cases cs) auto
next
  case (Cons a as)
  then show ?case by (cases cs) auto
qed

end
