(* ===== verification/Go_Text.thy ===== *)
theory Go_Text
  imports Prelude
begin

text \<open>
  The text-processing functions of Go's standard library that the configuration code calls, as
  executable definitions that follow the Go 1.18 sources: \<open>strconv.Atoi\<close>, \<open>strings.TrimSpace\<close>,
  \<open>strings.ToLower\<close>, \<open>net.SplitHostPort\<close>, \<open>net.ParseIP\<close>, \<open>IP.To4\<close>, \<open>net.ParseCIDR\<close> and
  \<open>base64.StdEncoding\<close>. Error values are \<open>None\<close>: the program only tests whether there is one, or
  wraps it into its own error.

  \<open>TrimSpace\<close> and \<open>ToLower\<close> have a fast path for ASCII; outside it they consult the Unicode tables,
  which are a parameter (\<open>unicode\<close>).
\<close>

subsection \<open>strconv\<close>

definition Atoi :: "string \<Rightarrow> int option" where
  "Atoi s =
     (let (neg, ds) = (case s of
            [] \<Rightarrow> (False, [])
          | c # cs \<Rightarrow> if c = CHR ''-'' then (True, cs) else if c = CHR ''+'' then (False, cs) else (False, s))
      in if ds = [] \<or> \<not> list_all is_digit ds then None
         else (let v = (if neg then - digits_val ds else digits_val ds)
               in if fits64 v then Some v else None))"

lemma is_digit_sign: "is_digit c \<Longrightarrow> c \<noteq> CHR ''-'' \<and> c \<noteq> CHR ''+''"
  by (auto simp: is_digit_def)

lemma Atoi_digits: "int n < 2 ^ 63 \<Longrightarrow> Atoi (digits n) = Some (int n)"
proof -
  assume n: "int n < 2 ^ 63"
  obtain c cs where d: "digits n = c # cs" by (cases "digits n") auto
  then have "is_digit c" using digits_all_digits [of c n] by simp
  then show ?thesis
    using is_digit_sign [of c] n d digits_all_digits [of _ n] digits_val_digits [of n]
    by (auto simp: Atoi_def list_all_iff fits64_def)
qed

lemma Atoi_itoa: "fits64 i \<Longrightarrow> Atoi (itoa i) = Some i"
proof (cases "i < 0")
  case True
  assume "fits64 i"
  with True show ?thesis
    using digits_all_digits [of _ "nat (- i)"]
    by (simp add: itoa_def Atoi_def list_all_iff)
next
  case False
  assume "fits64 i"
  with False show ?thesis
    using Atoi_digits [of "nat i"] by (simp add: itoa_def fits64_def)
qed

subsection \<open>strings\<close>

record unicode =
  uni_trim_space :: "string \<Rightarrow> string"
  uni_to_lower :: "string \<Rightarrow> string"

definition is_ascii :: "string \<Rightarrow> bool" where
  "is_ascii s \<longleftrightarrow> list_all (\<lambda>c. ord c < 128) s"

definition is_space :: "char \<Rightarrow> bool" where
  "is_space c \<longleftrightarrow> ord c \<in> {9, 10, 11, 12, 13, 32}"

definition lower_char :: "char \<Rightarrow> char" where
  "lower_char c = (if 65 \<le> ord c \<and> ord c \<le> 90 then char_of (ord c + 32) else c)"

definition trim_ascii :: "string \<Rightarrow> string" where
  "trim_ascii s = rev (dropWhile is_space (rev (dropWhile is_space s)))"

definition TrimSpace :: "unicode \<Rightarrow> string \<Rightarrow> string" where
  "TrimSpace u s = (if is_ascii s then trim_ascii s else uni_trim_space u s)"

definition ToLower :: "unicode \<Rightarrow> string \<Rightarrow> string" where
  "ToLower u s = (if is_ascii s then map lower_char s else uni_to_lower u s)"

text \<open>A lower-case ASCII word is left alone.\<close>

definition is_word :: "string \<Rightarrow> bool" where
  "is_word s \<longleftrightarrow> list_all (\<lambda>c. 97 \<le> ord c \<and> ord c \<le> 122) s"

lemma word_char:
  "97 \<le> ord c \<Longrightarrow> ord c \<le> 122 \<Longrightarrow>
     \<not> is_space c \<and> lower_char c = c \<and> ord c < 128"
  by (auto simp: is_space_def lower_char_def Let_def)

lemma dropWhile_id: "list_all (\<lambda>c. \<not> P c) s \<Longrightarrow> dropWhile P s = s"
  by (cases s) auto

lemma normalise_word: "is_word s \<Longrightarrow> ToLower u (TrimSpace u s) = s"
proof -
  assume w: "is_word s"
  then have "is_ascii s" "list_all (\<lambda>c. \<not> is_space c) s" "map lower_char s = s"
    using word_char by (auto simp: is_word_def is_ascii_def list_all_iff intro!: map_idI)
  then show ?thesis
    by (simp add: ToLower_def TrimSpace_def trim_ascii_def dropWhile_id list_all_rev)
qed

subsection \<open>net.SplitHostPort\<close>

definition index_of :: "char \<Rightarrow> string \<Rightarrow> nat option" where
  "index_of c s = (if c \<in> set s then Some (length (takeWhile ((\<noteq>) c) s)) else None)"

definition last_index_of :: "char \<Rightarrow> string \<Rightarrow> nat option" where
  "last_index_of c s = map_option (\<lambda>k. length s - 1 - k) (index_of c (rev s))"

definition SplitHostPort :: "string \<Rightarrow> (string \<times> string) option" where
  "SplitHostPort hostport =
     (case last_index_of (CHR '':'') hostport of
        None \<Rightarrow> None
      | Some i \<Rightarrow>
          (let parts =
             (if hostport ! 0 = CHR ''['' then
                (case index_of (CHR '']'') hostport of
                   None \<Rightarrow> None
                 | Some e \<Rightarrow> if e + 1 = i then Some (gslice 1 e hostport, 1, e + 1) else None)
              else
                (let host = take i hostport
                 in if CHR '':'' \<in> set host then None else Some (host, 0, 0)))
           in case parts of
                None \<Rightarrow> None
              | Some (host, j, k) \<Rightarrow>
                  if CHR ''['' \<in> set (drop j hostport) then None
                  else if CHR '']'' \<in> set (drop k hostport) then None
                  else Some (host, drop (i + 1) hostport)))"

subsection \<open>net.ParseIP\<close>

text \<open>\<open>dtoi\<close> and \<open>xtoi\<close>: value and number of characters of a leading decimal or hexadecimal number.\<close>

definition dtoi :: "string \<Rightarrow> (int \<times> nat) option" where
  "dtoi s = (let ds = takeWhile is_digit s; n = digits_val ds
             in if ds = [] \<or> n \<ge> 0xFFFFFF then None else Some (n, length ds))"

definition hex_val :: "char \<Rightarrow> int option" where
  "hex_val c = (let n = ord c
     in if 48 \<le> n \<and> n \<le> 57 then Some (n - 48)
        else if 97 \<le> n \<and> n \<le> 102 then Some (n - 87)
        else if 65 \<le> n \<and> n \<le> 70 then Some (n - 55) else None)"

definition xtoi :: "string \<Rightarrow> (int \<times> nat) option" where
  "xtoi s = (let ds = takeWhile (\<lambda>c. hex_val c \<noteq> None) s;
                 n = foldl (\<lambda>v c. 16 * v + the (hex_val c)) 0 ds
             in if ds = [] \<or> n \<ge> 0xFFFFFF then None else Some (n, length ds))"

fun parse_octets :: "nat \<Rightarrow> bool \<Rightarrow> string \<Rightarrow> int list option" where
  "parse_octets 0 later s = (if s = [] then Some [] else None)"
| "parse_octets (Suc k) later s =
     (if s = [] \<or> later \<and> hd s \<noteq> CHR ''.'' then None
      else
        (let s = (if later then tl s else s)
         in case dtoi s of
              None \<Rightarrow> None
            | Some (n, c) \<Rightarrow>
                if n > 0xFF \<or> c > 1 \<and> hd s = CHR ''0'' then None
                else map_option ((#) n) (parse_octets k True (drop c s))))"

text \<open>An address is its 16 bytes; an IPv4 address is the IPv4-mapped form.\<close>

definition v4prefix :: "int list" where
  "v4prefix = replicate 10 0 @ [255, 255]"

definition parseIPv4 :: "string \<Rightarrow> int list option" where
  "parseIPv4 s = map_option ((@) v4prefix) (parse_octets 4 False s)"

text \<open>
  The loop of \<open>parseIPv6\<close>: the bytes parsed so far, the position of the ellipsis and the rest of
  the string. Every turn adds two bytes, so eight turns are enough.
\<close>

fun parse_groups :: "nat \<Rightarrow> int list \<Rightarrow> nat option \<Rightarrow> string \<Rightarrow> (int list \<times> nat option \<times> string) option" where
  "parse_groups 0 ip ell s = Some (ip, ell, s)"
| "parse_groups (Suc k) ip ell s =
     (if length ip \<ge> 16 then Some (ip, ell, s)
      else case xtoi s of
        None \<Rightarrow> None
      | Some (n, c) \<Rightarrow>
          if n > 0xFFFF then None
          else if c < length s \<and> s ! c = CHR ''.'' then
            (if ell = None \<and> length ip \<noteq> 12 then None
             else if length ip + 4 > 16 then None
             else (case parseIPv4 s of
                     None \<Rightarrow> None
                   | Some ip4 \<Rightarrow> Some (ip @ drop 12 ip4, ell, [])))
          else
            (let ip = ip @ [n div 256, n mod 256]; s = drop c s
             in if s = [] then Some (ip, ell, s)
                else if hd s \<noteq> CHR '':'' \<or> length s = 1 then None
                else
                  (let s = tl s
                   in if hd s = CHR '':'' then
                        (if ell \<noteq> None then None
                         else (let s = tl s
                               in if s = [] then Some (ip, Some (length ip), s)
                                  else parse_groups k ip (Some (length ip)) s))
                      else parse_groups k ip ell s)))"

definition parseIPv6 :: "string \<Rightarrow> int list option" where
  "parseIPv6 s =
     (let lead = (length s \<ge> 2 \<and> s ! 0 = CHR '':'' \<and> s ! 1 = CHR '':'');
          ell = (if lead then Some 0 else None);
          s = (if lead then drop 2 s else s)
      in if lead \<and> s = [] then Some (replicate 16 0)
         else case parse_groups 8 [] ell s of
           None \<Rightarrow> None
         | Some (ip, ell, rest) \<Rightarrow>
             if rest \<noteq> [] then None
             else if length ip < 16 then
               (case ell of
                  None \<Rightarrow> None
                | Some e \<Rightarrow> Some (take e ip @ replicate (16 - length ip) 0 @ drop e ip))
             else if ell \<noteq> None then None else Some ip)"

definition ParseIP :: "string \<Rightarrow> int list option" where
  "ParseIP s =
     (case dropWhile (\<lambda>c. c \<noteq> CHR ''.'' \<and> c \<noteq> CHR '':'') s of
        [] \<Rightarrow> None
      | c # _ \<Rightarrow> if c = CHR ''.'' then parseIPv4 s else parseIPv6 s)"

definition To4 :: "int list \<Rightarrow> int list option" where
  "To4 ip = (if length ip = 16 \<and> take 12 ip = v4prefix then Some (drop 12 ip) else None)"

text \<open>\<open>ip := net.ParseIP(s); ip != nil && ip.To4() != nil\<close>\<close>

definition is_ipv4 :: "string \<Rightarrow> bool" where
  "is_ipv4 s \<longleftrightarrow> (case ParseIP s of None \<Rightarrow> False | Some ip \<Rightarrow> To4 ip \<noteq> None)"

definition ParseCIDR :: "string \<Rightarrow> (int list \<times> int) option" where
  "ParseCIDR s =
     (case index_of (CHR ''/'') s of
        None \<Rightarrow> None
      | Some i \<Rightarrow>
          (let addr = take i s; mask = drop (i + 1) s;
               (iplen, ip) = (case parseIPv4 addr of Some ip \<Rightarrow> (4, Some ip) | None \<Rightarrow> (16, parseIPv6 addr))
           in case (ip, dtoi mask) of
                (Some ip, Some (n, c)) \<Rightarrow> if c \<noteq> length mask \<or> n > 8 * iplen then None else Some (ip, n)
              | _ \<Rightarrow> None))"

subsection \<open>base64.StdEncoding\<close>

definition sextet_char :: "nat \<Rightarrow> char" where
  "sextet_char n =
     (if n < 26 then char_of (65 + n)
      else if n < 52 then char_of (71 + n)
      else if n < 62 then char_of (n - 4)
      else if n = 62 then CHR ''+'' else CHR ''/'')"

definition sextet :: "char \<Rightarrow> nat option" where
  "sextet c = (let n = (of_char c :: nat)
     in if 65 \<le> n \<and> n \<le> 90 then Some (n - 65)
        else if 97 \<le> n \<and> n \<le> 122 then Some (n - 71)
        else if 48 \<le> n \<and> n \<le> 57 then Some (n + 4)
        else if n = 43 then Some 62
        else if n = 47 then Some 63 else None)"

fun b64_encode :: "bytes \<Rightarrow> string" where
  "b64_encode [] = []"
| "b64_encode [a] =
     [sextet_char (unat a div 4), sextet_char (unat a mod 4 * 16), CHR ''='', CHR ''='']"
| "b64_encode [a, b] =
     [sextet_char (unat a div 4), sextet_char (unat a mod 4 * 16 + unat b div 16),
      sextet_char (unat b mod 16 * 4), CHR ''='']"
| "b64_encode (a # b # c # r) =
     sextet_char (unat a div 4) # sextet_char (unat a mod 4 * 16 + unat b div 16) #
     sextet_char (unat b mod 16 * 4 + unat c div 64) # sextet_char (unat c mod 64) # b64_encode r"

fun b64_groups :: "string \<Rightarrow> bytes option" where
  "b64_groups [] = Some []"
| "b64_groups (a # b # c # d # r) =
     (case (sextet a, sextet b) of
        (Some x, Some y) \<Rightarrow>
          (let p = of_nat (x * 4 + y div 16)
           in if c = CHR ''='' then (if d = CHR ''='' \<and> r = [] then Some [p] else None)
              else case sextet c of
                None \<Rightarrow> None
              | Some z \<Rightarrow>
                  (let q = of_nat (y mod 16 * 16 + z div 4)
                   in if d = CHR ''='' then (if r = [] then Some [p, q] else None)
                      else case sextet d of
                        None \<Rightarrow> None
                      | Some w \<Rightarrow> map_option (\<lambda>bs. p # q # of_nat (z mod 4 * 64 + w) # bs) (b64_groups r)))
      | _ \<Rightarrow> None)"
| "b64_groups _ = None"

text \<open>The decoder skips carriage returns and newlines everywhere.\<close>

definition b64_decode :: "string \<Rightarrow> bytes option" where
  "b64_decode s = b64_groups (filter (\<lambda>c. c \<noteq> CHR 0x0D \<and> c \<noteq> CHR 0x0A) s)"

lemma sextet_sextet_char: "n < 64 \<Longrightarrow> sextet (sextet_char n) = Some n"
  by (auto simp: sextet_def sextet_char_def Let_def)

lemma sextet_special: "sextet (CHR ''='') = None" "sextet (CHR 0x0D) = None" "sextet (CHR 0x0A) = None"
  by (simp_all add: sextet_def Let_def)

lemma sextet_char_props:
  "n < 64 \<Longrightarrow> sextet_char n \<noteq> CHR ''=''"
  "n < 64 \<Longrightarrow> sextet_char n \<noteq> CHR 0x0D"
  "n < 64 \<Longrightarrow> sextet_char n \<noteq> CHR 0x0A"
  using sextet_sextet_char [of n] sextet_special by (auto simp del: sextet_char_def)

lemma byte_unat: "unat (a :: byte) < 256"
  using unsigned_less [of a, where 'a = nat] by simp

lemma sextet_bounds:
  fixes a b c :: byte
  shows "unat a div 4 < 64" "unat a mod 4 * 16 < 64" "unat a mod 4 * 16 + unat b div 16 < 64"
    "unat b mod 16 * 4 < 64" "unat b mod 16 * 4 + unat c div 64 < 64" "unat c mod 64 < 64"
  using byte_unat [of a] byte_unat [of b] byte_unat [of c] by linarith+

lemmas sextets = sextet_sextet_char [OF sextet_bounds(1)] sextet_sextet_char [OF sextet_bounds(2)]
  sextet_sextet_char [OF sextet_bounds(3)] sextet_sextet_char [OF sextet_bounds(4)]
  sextet_sextet_char [OF sextet_bounds(5)] sextet_sextet_char [OF sextet_bounds(6)]

lemma byte_digits:
  fixes b :: byte
  shows "unat b div 16 div 16 = 0" "unat b div 16 mod 16 = unat b div 16"
    "unat b div 64 div 4 = 0" "unat b div 64 mod 4 = unat b div 64"
  using byte_unat [of b] by (simp_all add: less_mult_imp_div_less)

lemma b64_groups_encode: "b64_groups (b64_encode bs) = Some bs"
  by (induction bs rule: b64_encode.induct)
    (simp_all add: sextets byte_digits sextet_char_props sextet_bounds del: of_nat_add of_nat_mult)

lemma b64_encode_chars: "c \<in> set (b64_encode bs) \<Longrightarrow> c \<noteq> CHR 0x0D \<and> c \<noteq> CHR 0x0A"
  by (induction bs rule: b64_encode.induct) (auto simp: sextet_char_props sextet_bounds)

lemma b64_decode_encode: "b64_decode (b64_encode bs) = Some bs"
proof -
  have "filter (\<lambda>c. c \<noteq> CHR 0x0D \<and> c \<noteq> CHR 0x0A) (b64_encode bs) = b64_encode bs"
    using b64_encode_chars by (auto simp: filter_id_conv)
  then show ?thesis by (simp add: b64_decode_def b64_groups_encode)
qed

end
