(* ===== verification/Performance.thy ===== *)
theory Performance
  imports Go_Text
begin

text \<open>
  Performance profiles (\<open>performance.go\<close>) and the contract that every section of the
  configuration with defaults obeys: missing values are filled in, then the result is validated.
  The number of CPUs (\<open>runtime.NumCPU\<close>) and the Unicode tables are arguments.
\<close>

datatype config_error =
    OpenConfig string | ParseConfig string
  | BadRole | BadMode | BadTransportType
  | TunNameTooLong | BadTunMTU
  | BadKeepalive | BadSessionTimeout | BadRekey
  | BadProfile | BadTunQueues | BadReceiveWorkers | BadTxQueueLen | BadQdisc | BadSocketBuffer | BadStatsInterval
  | BadKCPShards | BadKCPFEC | BadKCPFlags | BadKCPInterval | BadKCPWindows | BadKCPMTU | BadKCPSocketBuffer
  | BadKey | BadListen string | PeerRequired | BadPeer string | BadLocalCIDR string | BadPeerIP
  | SmartReturnMode | SmartReturnPorts
  | BadProbePort | BadInterval | BadTimeout | BadThresholds
  | NetworkRequired | BadIPv4 string
  | BadServicePort int | BadProtocol string int | DuplicatePort string
  | BadListenAddress string | BadListenPort string
  | CarrierPortConflict string int int string | ProbePortConflict int int string | ProbeCarrierConflict

record PerformanceConfig =
  Profile :: string
  TunQueues :: int
  ReceiveWorkers :: int
  TxQueueLen :: int
  Qdisc :: string
  SocketBuffer :: int
  StatsIntervalSeconds :: int

definition clampInt :: "int \<Rightarrow> int \<Rightarrow> int \<Rightarrow> int" where
  "clampInt v lo hi = (if v < lo then lo else if v > hi then hi else v)"

definition KiB :: int where "KiB = 1024"
definition MiB :: int where "MiB = 1024 * 1024"

definition applyPerformanceDefaults :: "unicode \<Rightarrow> int \<Rightarrow> PerformanceConfig \<Rightarrow> PerformanceConfig" where
  "applyPerformanceDefaults u numCPU p =
     (let profile = ToLower u (TrimSpace u (Profile p));
          profile = (if profile = '''' then ''turbo'' else profile);
          cpus = (if numCPU < 1 then 1 else numCPU);
          (queues, txq, sock) =
            (if profile = ''balance'' then (clampInt cpus 1 2, 2048, 4 * MiB)
             else if profile = ''throughput'' then (clampInt cpus 1 8, 8192, 16 * MiB)
             else if profile = ''turbo'' \<or> profile = ''custom'' then (clampInt cpus 1 4, 4096, 8 * MiB)
             else (clampInt cpus 1 4, 4096, 8 * MiB));
          workers = (if ReceiveWorkers p = 0 then 1 else ReceiveWorkers p);
          workers = (if profile \<noteq> ''custom'' then 1 else workers)
      in p\<lparr>Profile := profile,
           TunQueues := (if TunQueues p = 0 then queues else TunQueues p),
           ReceiveWorkers := workers,
           TxQueueLen := (if TxQueueLen p = 0 then txq else TxQueueLen p),
           Qdisc := (if Qdisc p = '''' then ''fq_codel'' else Qdisc p),
           SocketBuffer := (if SocketBuffer p = 0 then sock else SocketBuffer p),
           StatsIntervalSeconds := (if StatsIntervalSeconds p = 0 then 10 else StatsIntervalSeconds p)\<rparr>)"

definition profiles :: "string list" where
  "profiles = [''balance'', ''turbo'', ''throughput'', ''custom'']"

definition validatePerformance :: "PerformanceConfig \<Rightarrow> config_error option" where
  "validatePerformance p =
     (if Profile p \<notin> set profiles then Some BadProfile
      else if TunQueues p < 1 \<or> TunQueues p > 32 then Some BadTunQueues
      else if ReceiveWorkers p < 1 \<or> ReceiveWorkers p > 32 then Some BadReceiveWorkers
      else if TxQueueLen p < 256 \<or> TxQueueLen p > 65536 then Some BadTxQueueLen
      else if Qdisc p \<noteq> ''fq_codel'' \<and> Qdisc p \<noteq> ''fq'' \<and> Qdisc p \<noteq> ''none'' then Some BadQdisc
      else if SocketBuffer p < 256 * KiB \<or> SocketBuffer p > 64 * MiB then Some BadSocketBuffer
      else if StatsIntervalSeconds p < 5 \<or> StatsIntervalSeconds p > 60 then Some BadStatsInterval
      else None)"

subsection \<open>Defaults, then validation\<close>

definition load_section :: "('a \<Rightarrow> 'a) \<Rightarrow> ('a \<Rightarrow> 'e option) \<Rightarrow> 'a \<Rightarrow> 'e + 'a" where
  "load_section defaults validate x =
     (let y = defaults x in case validate y of None \<Rightarrow> Inr y | Some e \<Rightarrow> Inl e)"

text \<open>The contract of a section: on accepted values the defaults change nothing, and the untouched
  (zero) section is completed to an accepted one.\<close>

locale defaulted_section =
  fixes defaults :: "'a \<Rightarrow> 'a"
    and validate :: "'a \<Rightarrow> 'e option"
    and zero :: 'a
  assumes defaults_accepted: "validate (defaults x) = None \<Longrightarrow> defaults (defaults x) = defaults x"
    and zero_accepted: "validate (defaults zero) = None"
begin

lemma load_fixpoint: "load_section defaults validate x = Inr y \<Longrightarrow> load_section defaults validate y = Inr y"
  using defaults_accepted [of x] by (auto simp: load_section_def Let_def split: option.splits)

lemma load_valid: "load_section defaults validate x = Inr y \<Longrightarrow> validate y = None"
  by (auto simp: load_section_def Let_def split: option.splits)

lemma load_zero: "load_section defaults validate zero = Inr (defaults zero)"
  by (simp add: load_section_def zero_accepted)

end

subsection \<open>The performance section\<close>

definition zero_performance :: PerformanceConfig where
  "zero_performance = \<lparr>Profile = '''', TunQueues = 0, ReceiveWorkers = 0, TxQueueLen = 0, Qdisc = '''',
     SocketBuffer = 0, StatsIntervalSeconds = 0\<rparr>"

lemma clampInt_bounds: "lo \<le> hi \<Longrightarrow> lo \<le> clampInt v lo hi \<and> clampInt v lo hi \<le> hi"
  by (simp add: clampInt_def)

lemma profiles_word: "s \<in> set profiles \<Longrightarrow> is_word s \<and> s \<noteq> ''''"
  by (auto simp: profiles_def is_word_def)

lemma Profile_defaults:
  "Profile (applyPerformanceDefaults u n p) =
     (let s = ToLower u (TrimSpace u (Profile p)) in if s = '''' then ''turbo'' else s)"
  by (simp add: applyPerformanceDefaults_def Let_def case_prod_beta)

lemma performance_defaults_id:
  assumes "validatePerformance p = None" "Profile p = ''custom'' \<or> ReceiveWorkers p = 1"
  shows "applyPerformanceDefaults u n p = p"
proof -
  from assms(1) have r: "Profile p \<in> set profiles" "TunQueues p \<noteq> 0" "ReceiveWorkers p \<noteq> 0"
    "TxQueueLen p \<noteq> 0" "Qdisc p \<noteq> ''''" "SocketBuffer p \<noteq> 0" "StatsIntervalSeconds p \<noteq> 0"
    by (auto simp: validatePerformance_def KiB_def split: if_splits)
  then have "ToLower u (TrimSpace u (Profile p)) = Profile p" "Profile p \<noteq> ''''"
    using profiles_word normalise_word by blast+
  with r assms(2) show ?thesis
    by (cases p) (auto simp: applyPerformanceDefaults_def Let_def case_prod_beta)
qed

lemma ReceiveWorkers_defaults:
  "Profile (applyPerformanceDefaults u n p) = ''custom'' \<or> ReceiveWorkers (applyPerformanceDefaults u n p) = 1"
  by (simp add: applyPerformanceDefaults_def Let_def case_prod_beta)

lemma normalise_empty [simp]: "ToLower u (TrimSpace u '''') = ''''"
  by (simp add: ToLower_def TrimSpace_def is_ascii_def trim_ascii_def)

interpretation performance: defaulted_section "applyPerformanceDefaults u n" validatePerformance zero_performance
  for u n
proof
  fix x
  assume "validatePerformance (applyPerformanceDefaults u n x) = None"
  then show "applyPerformanceDefaults u n (applyPerformanceDefaults u n x) = applyPerformanceDefaults u n x"
    using ReceiveWorkers_defaults by (rule performance_defaults_id)
next
  show "validatePerformance (applyPerformanceDefaults u n zero_performance) = None"
    using clampInt_bounds [of 1 4 "if n < 1 then 1 else n"]
    by (simp add: applyPerformanceDefaults_def validatePerformance_def zero_performance_def Let_def
        profiles_def KiB_def MiB_def)
qed

subsection \<open>Properties\<close>

text \<open>Every profile but \<open>custom\<close> ends up with exactly one carrier receive worker, whatever the
  configuration asks for and however many CPUs there are; with one ordered outer flow, packets are
  then not reordered by the receiver.\<close>

lemma official_profiles_one_worker:
  assumes "Profile (applyPerformanceDefaults u n p) \<noteq> ''custom''"
  shows "ReceiveWorkers (applyPerformanceDefaults u n p) = 1"
  using ReceiveWorkers_defaults [of u n p] assms by blast

text \<open>The queue, buffer and interval values the daemon runs with are always in range: an
  accepted performance section is a fixed point of the defaults and within every limit, and the
  empty section is always accepted.\<close>

lemma performance_section_sound:
  "(load_section (applyPerformanceDefaults u n) validatePerformance p = Inr q \<longrightarrow>
      load_section (applyPerformanceDefaults u n) validatePerformance q = Inr q \<and>
      1 \<le> TunQueues q \<and> TunQueues q \<le> 32 \<and> 1 \<le> ReceiveWorkers q \<and> ReceiveWorkers q \<le> 32 \<and>
      256 \<le> TxQueueLen q \<and> TxQueueLen q \<le> 65536 \<and> 5 \<le> StatsIntervalSeconds q \<and> StatsIntervalSeconds q \<le> 60) \<and>
   (\<exists>q. load_section (applyPerformanceDefaults u n) validatePerformance zero_performance = Inr q)"
  using performance.load_fixpoint [of u n p q] performance.load_valid [of u n p q] performance.load_zero [of u n]
  by (auto simp: validatePerformance_def split: if_splits)

end
