(* ===== verification/Go_Net.thy ===== *)
theory Go_Net
  imports Go_Text
begin

text \<open>
  \<open>net.ResolveTCPAddr\<close> and \<open>net.ResolveUDPAddr\<close> for the IPv4 networks \<open>tcp4\<close> and \<open>udp4\<close>, and
  \<open>UDPAddr.String\<close>, after the Go 1.18 sources. The name service (DNS and the table of service
  names) is outside the program: it is the parameter \<open>resolver\<close>.

  An address is the four bytes of an IPv4 address (\<open>None\<close> for the nil IP of an address without a
  host) and a port: the sockets of the program are IPv4 sockets.
\<close>

record resolver =
  dns_lookup :: "string \<Rightarrow> int list list option"
  service_port :: "string \<Rightarrow> string \<Rightarrow> int option"

type_synonym net_addr = "int list option \<times> int"

subsection \<open>Ports\<close>

text \<open>The digit loop of \<open>parsePort\<close> on a \<open>uint32\<close>; \<open>None\<close> when a character is not a digit, so that the
  name has to be looked up.\<close>

fun port_digits :: "u32 \<Rightarrow> string \<Rightarrow> u32 option" where
  "port_digits n [] = Some n"
| "port_digits n (d # ds) =
     (if \<not> is_digit d then None
      else if n \<ge> 2 ^ 30 then Some (- 1)
      else (let m = n * 10; nn = m + word_of_int (ord d - 48)
            in if nn < m then Some (- 1) else port_digits nn ds))"

definition parsePort :: "string \<Rightarrow> int option" where
  "parsePort service =
     (if service = [] then Some 0
      else
        (let neg = (hd service = CHR ''-'');
             digits = (if hd service = CHR ''+'' \<or> neg then tl service else service)
         in case port_digits 0 digits of
              None \<Rightarrow> None
            | Some n \<Rightarrow>
                (let port = (if \<not> neg \<and> n \<ge> 2 ^ 30 then 2 ^ 30 - 1
                             else if neg \<and> n > 2 ^ 30 then 2 ^ 30 else uint n)
                 in Some (if neg then - port else port))))"

definition LookupPort :: "resolver \<Rightarrow> string \<Rightarrow> string \<Rightarrow> int option" where
  "LookupPort res network service =
     (case (case parsePort service of Some p \<Rightarrow> Some p | None \<Rightarrow> service_port res network service) of
        None \<Rightarrow> None
      | Some p \<Rightarrow> if 0 > p \<or> p > 65535 then None else Some p)"

subsection \<open>Hosts\<close>

definition split_zone :: "string \<Rightarrow> string" where
  "split_zone s = (case last_index_of (CHR ''%'') s of Some i \<Rightarrow> if i > 0 then take i s else s | None \<Rightarrow> s)"

definition parseIPZone :: "string \<Rightarrow> int list option" where
  "parseIPZone s =
     (case dropWhile (\<lambda>c. c \<noteq> CHR ''.'' \<and> c \<noteq> CHR '':'') s of
        [] \<Rightarrow> None
      | c # _ \<Rightarrow> if c = CHR ''.'' then parseIPv4 s else parseIPv6 (split_zone s))"

definition lookupIPAddr :: "resolver \<Rightarrow> string \<Rightarrow> int list list option" where
  "lookupIPAddr res host =
     (case parseIPZone host of Some ip \<Rightarrow> Some [ip] | None \<Rightarrow> dns_lookup res host)"

definition IPv6unspecified :: "int list" where "IPv6unspecified = replicate 16 0"
definition IPv4zero :: "int list" where "IPv4zero = v4prefix @ [0, 0, 0, 0]"

text \<open>The first IPv4 address of the host: \<open>internetAddrList\<close> with the \<open>ipv4only\<close> filter, then
  \<open>forResolve\<close>. \<open>network\<close> is \<open>tcp4\<close> or \<open>udp4\<close>.\<close>

definition resolveAddr4 :: "resolver \<Rightarrow> string \<Rightarrow> string \<Rightarrow> net_addr option" where
  "resolveAddr4 res network addr =
     (case (if addr = [] then Some ([], 0)
            else case SplitHostPort addr of
              None \<Rightarrow> None
            | Some (host, port) \<Rightarrow> map_option (Pair host) (LookupPort res network port)) of
        None \<Rightarrow> None
      | Some (host, port) \<Rightarrow>
          if host = [] then Some (None, port)
          else (case lookupIPAddr res host of
                  None \<Rightarrow> None
                | Some ips \<Rightarrow>
                    (let ips = (if ips = [IPv6unspecified] then ips @ [IPv4zero] else ips)
                     in case filter (\<lambda>ip. To4 ip \<noteq> None) ips of
                          [] \<Rightarrow> None
                        | ip # _ \<Rightarrow> Some (To4 ip, port))))"

definition ResolveTCPAddr :: "resolver \<Rightarrow> string \<Rightarrow> net_addr option" where
  "ResolveTCPAddr res addr = resolveAddr4 res ''tcp4'' addr"

definition ResolveUDPAddr :: "resolver \<Rightarrow> string \<Rightarrow> net_addr option" where
  "ResolveUDPAddr res addr = resolveAddr4 res ''udp4'' addr"

subsection \<open>Printing an address\<close>

definition dotted :: "int list \<Rightarrow> string" where
  "dotted bs = itoa (bs ! 0) @ ''.'' @ itoa (bs ! 1) @ ''.'' @ itoa (bs ! 2) @ ''.'' @ itoa (bs ! 3)"

text \<open>\<open>UDPAddr.String\<close>\<close>

definition addr_string :: "net_addr \<Rightarrow> string" where
  "addr_string a =
     (case a of (ip, port) \<Rightarrow> (case ip of None \<Rightarrow> [] | Some bs \<Rightarrow> dotted bs) @ '':'' @ itoa port)"

lemma addr_string_not_empty [simp]: "addr_string a \<noteq> []"
  by (simp add: addr_string_def split: prod.splits option.splits)

lemma colon_not_in_itoa: "CHR '':'' \<notin> set (itoa i)"
  and dot_not_in_itoa: "CHR ''.'' \<notin> set (itoa i)"
  using itoa_chars by (force simp: is_digit_def)+

lemma To4_length: "To4 ip = Some bs \<Longrightarrow> length bs = 4 \<and> ip = v4prefix @ bs"
  by (auto simp: To4_def split: if_splits) (metis append_take_drop_id)

lemma length4E: "length bs = 4 \<Longrightarrow> \<exists>a b c d. bs = [a, b, c, d]"
  by (auto simp: length_Suc_conv eval_nat_numeral)

lemma dotted_inject:
  assumes "length bs = 4" "length cs = 4" "dotted bs = dotted cs"
  shows "bs = cs"
proof -
  obtain a b c d a' b' c' d' where e: "bs = [a, b, c, d]" "cs = [a', b', c', d']"
    using assms length4E by metis
  note inj = append_sep_inject [of "CHR ''.''", OF dot_not_in_itoa dot_not_in_itoa]
  from assms(3) show ?thesis
    by (auto simp: dotted_def e dest!: inj)
qed

lemma colon_not_in_dotted: "CHR '':'' \<notin> set (dotted bs)"
  by (simp add: dotted_def colon_not_in_itoa)

lemma addr_string_inject:
  assumes "length x = 4" "length y = 4" "addr_string (Some x, i) = addr_string (Some y, j)"
  shows "x = y \<and> i = j"
  using assms append_sep_inject [of "CHR '':''" "dotted x" "dotted y" "itoa i" "itoa j"] dotted_inject [of x y]
  by (simp add: addr_string_def colon_not_in_dotted)

lemma resolveAddr4_ipv4:
  assumes "resolveAddr4 res network addr = Some (Some bs, port)"
  shows "length bs = 4 \<and> 0 \<le> port \<and> port \<le> 65535"
proof -
  obtain ip where "To4 ip = Some bs" "0 \<le> port" "port \<le> 65535"
    using assms by (auto simp: resolveAddr4_def LookupPort_def Let_def split: if_splits option.splits list.splits)
  then show ?thesis using To4_length by blast
qed

subsection \<open>Printing and parsing an address\<close>

definition octets :: "int list \<Rightarrow> bool" where
  "octets bs \<longleftrightarrow> length bs = 4 \<and> list_all (\<lambda>b. 0 \<le> b \<and> b < 256) bs"

lemma digits_no_leading_zero: "1 < length (digits n) \<Longrightarrow> hd (digits n) \<noteq> CHR ''0''"
proof (induction n rule: digits.induct)
  case (1 n)
  show ?case
  proof (cases "n < 10")
    case True
    with 1(2) show ?thesis by (simp add: digits.simps [of n])
  next
    case False
    then have h: "hd (digits n) = hd (digits (n div 10))" by (simp add: digits.simps [of n])
    show ?thesis
    proof (cases "n div 10 < 10")
      case True
      have "ord (digit (n div 10)) \<noteq> 48" using True False by simp
      then have "digit (n div 10) \<noteq> CHR ''0''" by auto
      with True h show ?thesis by (simp add: digits.simps [of "n div 10"])
    next
      case False
      with 1(1) h \<open>\<not> n < 10\<close> show ?thesis by (simp add: digits.simps [of "n div 10"])
    qed
  qed
qed

lemma takeWhile_digits:
  assumes "rest = [] \<or> \<not> is_digit (hd rest)"
  shows "takeWhile is_digit (digits n @ rest) = digits n"
proof -
  have "takeWhile is_digit rest = []" using assms by (cases rest) auto
  then show ?thesis using digits_all_digits by (subst takeWhile_append2) auto
qed

lemma dtoi_digits:
  assumes "int n < 0xFFFFFF" "rest = [] \<or> \<not> is_digit (hd rest)"
  shows "dtoi (digits n @ rest) = Some (int n, length (digits n))"
  using assms by (simp add: dtoi_def takeWhile_digits)

lemma itoa_nat: "itoa (int n) = digits n"
  by (simp add: itoa_def)

lemma parse_octets_step:
  assumes "0 \<le> b" "b < 256" "rest = [] \<or> \<not> is_digit (hd rest)"
  shows "parse_octets (Suc k) False (itoa b @ rest) = map_option ((#) b) (parse_octets k True rest)"
    and "parse_octets (Suc k) True (CHR ''.'' # itoa b @ rest) = map_option ((#) b) (parse_octets k True rest)"
proof -
  obtain n where n: "b = int n" using assms(1) nonneg_int_cases by blast
  have d: "dtoi (digits n @ rest) = Some (int n, length (digits n))"
    using assms n by (intro dtoi_digits) auto
  have z: "\<not> (1 < length (digits n) \<and> hd (digits n @ rest) = CHR ''0'')"
    using digits_no_leading_zero [of n] by (simp add: hd_append)
  then show "parse_octets (Suc k) False (itoa b @ rest) = map_option ((#) b) (parse_octets k True rest)"
    and "parse_octets (Suc k) True (CHR ''.'' # itoa b @ rest) = map_option ((#) b) (parse_octets k True rest)"
    using assms(2) d by (auto simp: n hd_append itoa_nat)
qed

lemma parseIPv4_dotted:
  assumes "octets bs"
  shows "parseIPv4 (dotted bs) = Some (v4prefix @ bs)"
proof -
  obtain a b c d where bs: "bs = [a, b, c, d]" using assms length4E [of bs] by (auto simp: octets_def)
  have r: "\<not> is_digit (CHR ''.'')" by (simp add: is_digit_def)
  have s: "0 \<le> a" "a < 256" "0 \<le> b" "b < 256" "0 \<le> c" "c < 256" "0 \<le> d" "d < 256"
    using assms by (simp_all add: octets_def bs)
  have "parse_octets 4 False (dotted bs) = Some bs"
    using parse_octets_step(1) [OF s(1,2), of "CHR ''.'' # itoa b @ CHR ''.'' # itoa c @ CHR ''.'' # itoa d" 3]
      parse_octets_step(2) [OF s(3,4), of "CHR ''.'' # itoa c @ CHR ''.'' # itoa d" 2]
      parse_octets_step(2) [OF s(5,6), of "CHR ''.'' # itoa d" 1]
      parse_octets_step(2) [OF s(7,8), of "[]" 0] r
    by (simp add: dotted_def bs eval_nat_numeral del: parse_octets.simps(2))
  then show ?thesis by (simp add: parseIPv4_def)
qed

lemma SplitHostPort_join:
  assumes "CHR '':'' \<notin> set h" "CHR '':'' \<notin> set p" "CHR ''['' \<notin> set (h @ p)" "CHR '']'' \<notin> set (h @ p)"
  shows "SplitHostPort (h @ CHR '':'' # p) = Some (h, p)"
proof -
  have t: "takeWhile ((\<noteq>) (CHR '':'')) (rev p @ CHR '':'' # rev h) = rev p"
    using assms(2) by (subst takeWhile_append2) auto
  have i: "last_index_of (CHR '':'') (h @ CHR '':'' # p) = Some (length h)"
    by (simp add: last_index_of_def index_of_def t)
  have "(h @ CHR '':'' # p) ! 0 \<noteq> CHR ''[''"
    using assms(3) by (cases h) auto
  then show ?thesis
    using assms i by (simp add: SplitHostPort_def)
qed

lemma uint_digit: "is_digit d \<Longrightarrow> 0 \<le> ord d - 48 \<and> ord d - 48 < 10"
  by (simp add: is_digit_def)

lemma digits_val_Cons: "digits_val (d # ds) = (ord d - 48) * 10 ^ length ds + digits_val ds"
proof (induction ds rule: rev_induct)
  case Nil
  show ?case by (simp add: digits_val_def)
next
  case (snoc c ds)
  have "digits_val (d # ds @ [c]) = 10 * digits_val (d # ds) + (ord c - 48)"
    using digits_val_snoc [of "d # ds" c] by simp
  with snoc show ?case by (simp add: algebra_simps)
qed

lemma digits_val_nonneg: "list_all is_digit ds \<Longrightarrow> 0 \<le> digits_val ds"
  by (induction ds rule: rev_induct) (auto simp: digits_val_def is_digit_def)

lemma port_digits_val:
  "list_all is_digit ds \<Longrightarrow> uint n * 10 ^ length ds + digits_val ds < 2 ^ 30 \<Longrightarrow>
     port_digits n ds = Some (word_of_int (uint n * 10 ^ length ds + digits_val ds))"
proof (induction ds arbitrary: n)
  case Nil
  show ?case by (simp add: digits_val_def)
next
  case (Cons d ds)
  let ?v = "ord d - 48"
  have v: "0 \<le> ?v" "?v < 10" using Cons.prems(1) uint_digit [of d] by auto
  have nn: "0 \<le> digits_val ds" using Cons.prems(1) digits_val_nonneg by simp
  have total: "(uint n * 10 + ?v) * 10 ^ length ds + digits_val ds < 2 ^ 30"
    using Cons.prems(2) by (simp add: digits_val_Cons algebra_simps)
  have "0 \<le> uint n * 10 + ?v" using v by simp
  then have "uint n * 10 + ?v \<le> (uint n * 10 + ?v) * 10 ^ length ds"
    by (simp add: mult_le_cancel_left1)
  then have small: "uint n * 10 + ?v < 2 ^ 30" using total nn by linarith
  have u10: "uint (n * 10) = uint n * 10"
    using small v by (simp add: uint_word_ariths)
  have "uint (word_of_int ?v :: u32) = ?v"
    using v by (simp only: unsigned_of_int) (simp add: take_bit_int_eq_self)
  then have uv: "uint (n * 10 + word_of_int ?v) = uint n * 10 + ?v"
    using small v u10 by (simp add: uint_word_ariths(1) del: of_int_diff)
  have "\<not> 2 ^ 30 \<le> n" using small v by (simp add: word_le_def)
  moreover have "\<not> n * 10 + word_of_int ?v < n * 10" using uv u10 v by (simp add: word_less_def)
  ultimately have "port_digits n (d # ds) = port_digits (n * 10 + word_of_int ?v) ds"
    using Cons.prems(1) by (simp only: port_digits.simps Let_def) simp
  also have "\<dots> = Some (word_of_int ((uint n * 10 + ?v) * 10 ^ length ds + digits_val ds))"
    using Cons.IH [of "n * 10 + word_of_int ?v"] Cons.prems(1) total by (simp only: uv) simp
  also have "(uint n * 10 + ?v) * 10 ^ length ds + digits_val ds = uint n * 10 ^ length (d # ds) + digits_val (d # ds)"
    by (simp add: digits_val_Cons algebra_simps)
  finally show ?case .
qed

lemma LookupPort_itoa:
  assumes "0 \<le> port" "port \<le> 65535"
  shows "LookupPort res network (itoa port) = Some port"
proof -
  obtain n where n: "port = int n" using assms(1) nonneg_int_cases by blast
  obtain c cs where d: "digits n = c # cs" by (cases "digits n") auto
  then have c: "is_digit c" using digits_all_digits [of c n] by simp
  have "port_digits 0 (digits n) = Some (word_of_int (int n))"
    using port_digits_val [of "digits n" 0] digits_all_digits [of _ n] assms(2) by (simp add: list_all_iff n)
  moreover have "\<not> 2 ^ 30 \<le> (word_of_int (int n) :: u32)" "uint (word_of_int (int n) :: u32) = int n"
    using assms(2) by (simp_all add: n word_le_def unsigned_of_nat take_bit_nat_eq_self)
  ultimately have "parsePort (digits n) = Some (int n)"
    using is_digit_sign [OF c] by (simp add: parsePort_def d)
  with assms show ?thesis by (simp add: LookupPort_def n itoa_nat)
qed

lemma dotted_chars: "c \<in> set (dotted bs) \<Longrightarrow> is_digit c \<or> c = CHR ''-'' \<or> c = CHR ''.''"
  using itoa_chars by (auto simp: dotted_def)

lemma parseIPZone_dotted:
  assumes "octets bs"
  shows "parseIPZone (dotted bs) = Some (v4prefix @ bs)"
proof -
  let ?s = "dotted bs"
  have "CHR ''.'' \<in> set ?s" by (simp add: dotted_def)
  then obtain c r where d: "dropWhile (\<lambda>c. c \<noteq> CHR ''.'' \<and> c \<noteq> CHR '':'') ?s = c # r"
    by (cases "dropWhile (\<lambda>c. c \<noteq> CHR ''.'' \<and> c \<noteq> CHR '':'') ?s") (auto simp: dropWhile_eq_Nil_conv)
  then have "c \<in> set ?s" by (metis list.set_intros(1) set_dropWhileD)
  moreover have "c = CHR ''.'' \<or> c = CHR '':''"
    using hd_dropWhile [of "\<lambda>c. c \<noteq> CHR ''.'' \<and> c \<noteq> CHR '':''" ?s] unfolding d by simp
  ultimately have "c = CHR ''.''" using colon_not_in_dotted by auto
  with d show ?thesis by (simp add: parseIPZone_def parseIPv4_dotted [OF assms])
qed

text \<open>The printed form of an IPv4 address resolves to that address, with any name service.\<close>

lemma ResolveUDPAddr_addr_string:
  assumes "octets bs" "0 \<le> port" "port \<le> 65535"
  shows "ResolveUDPAddr res (addr_string (Some bs, port)) = Some (Some bs, port)"
proof -
  have ch: "CHR ''['' \<notin> set (dotted bs @ itoa port)" "CHR '']'' \<notin> set (dotted bs @ itoa port)"
    using dotted_chars [of "CHR ''[''" bs] dotted_chars [of "CHR '']''" bs]
      itoa_chars [of "CHR ''[''" port] itoa_chars [of "CHR '']''" port]
    by (auto simp: is_digit_def)
  have s: "SplitHostPort (addr_string (Some bs, port)) = Some (dotted bs, itoa port)"
    using SplitHostPort_join [OF colon_not_in_dotted colon_not_in_itoa ch] by (simp add: addr_string_def)
  have "To4 (v4prefix @ bs) = Some bs" using assms(1) by (simp add: To4_def v4prefix_def octets_def)
  moreover have "v4prefix @ bs \<noteq> IPv6unspecified" by (simp add: v4prefix_def IPv6unspecified_def eval_nat_numeral)
  moreover have "dotted bs \<noteq> []" by (simp add: dotted_def)
  ultimately show ?thesis
    using s LookupPort_itoa [OF assms(2,3)] parseIPZone_dotted [OF assms(1)]
    by (simp add: ResolveUDPAddr_def resolveAddr4_def lookupIPAddr_def)
qed

definition valid_addr :: "net_addr \<Rightarrow> bool" where
  "valid_addr a \<longleftrightarrow> (case fst a of None \<Rightarrow> True | Some bs \<Rightarrow> octets bs) \<and> 0 \<le> snd a \<and> snd a \<le> 65535"

lemma ResolveUDPAddr_valid:
  assumes "valid_addr a"
  shows "ResolveUDPAddr res (addr_string a) = Some a"
proof (cases "fst a")
  case None
  have "CHR ''['' \<notin> set (itoa (snd a))" "CHR '']'' \<notin> set (itoa (snd a))"
    using itoa_chars [of "CHR ''[''" "snd a"] itoa_chars [of "CHR '']''" "snd a"] by (auto simp: is_digit_def)
  then have "SplitHostPort (addr_string a) = Some ([], itoa (snd a))"
    using None SplitHostPort_join [of "[]" "itoa (snd a)"] colon_not_in_itoa
    by (cases a) (simp add: addr_string_def)
  with None assms show ?thesis
    by (cases a) (simp add: ResolveUDPAddr_def resolveAddr4_def valid_addr_def LookupPort_itoa)
next
  case (Some bs)
  with assms show ?thesis
    using ResolveUDPAddr_addr_string [of bs "snd a" res] by (cases a) (simp add: valid_addr_def)
qed

end
