(* ===== verification/Go_Time.thy ===== *)
theory Go_Time
  imports Prelude
begin

text \<open>
  Instants and durations of Go's \<open>time\<close> package, as far as the program uses them.

  A value of \<open>time.Now()\<close> carries a wall clock reading and a monotonic clock reading, both in
  nanoseconds. Go subtracts and compares the monotonic readings when both operands have one
  (\<open>created\<close>, \<open>expires\<close>, \<open>started\<close>) and the wall clock readings otherwise (a time made by
  \<open>time.Unix\<close>). \<open>Sub\<close> saturates at the limits of a 64-bit duration; multiplying a duration by
  \<open>time.Second\<close> wraps around.
\<close>

record instant =
  wall :: int
  mono :: int

type_synonym duration = int

definition second :: duration where "second = 1000000000"
definition minute :: duration where "minute = 60000000000"
definition hour :: duration where "hour = 3600000000000"

text \<open>\<open>time.Duration(n) * time.Second\<close> and \<open>time.Duration(n) * time.Minute\<close>\<close>

definition seconds :: "int \<Rightarrow> duration" where
  "seconds n = wrap64 (n * second)"

definition minutes :: "int \<Rightarrow> duration" where
  "minutes n = wrap64 (n * minute)"

text \<open>
  \<open>time.Unix(ts, 0)\<close> as nanoseconds: the seconds are shifted to Go's internal epoch in 64-bit
  arithmetic, so a huge \<open>ts\<close> wraps.
\<close>

definition unix_ns :: "int \<Rightarrow> int" where
  "unix_ns ts = (wrap64 (ts + 62135596800) - 62135596800) * second"

definition unix_sec :: "instant \<Rightarrow> int" where
  "unix_sec now = wall now div second"

definition unix_nano :: "instant \<Rightarrow> int" where
  "unix_nano now = wrap64 (wall now)"

definition since_wall :: "instant \<Rightarrow> int \<Rightarrow> duration" where
  "since_wall now t = sat64 (wall now - t)"

definition since :: "instant \<Rightarrow> instant \<Rightarrow> duration" where
  "since now t = sat64 (mono now - mono t)"

definition time_add :: "instant \<Rightarrow> duration \<Rightarrow> instant" where
  "time_add t d = \<lparr>wall = wall t + d, mono = mono t + d\<rparr>"

definition time_after :: "instant \<Rightarrow> instant \<Rightarrow> bool" where
  "time_after t u \<longleftrightarrow> mono t > mono u"

lemmas time_defs = second_def minute_def hour_def seconds_def minutes_def unix_ns_def unix_sec_def
  unix_nano_def since_wall_def since_def time_add_def time_after_def

lemma mono_time_add [simp]: "mono (time_add t d) = mono t + d"
  and wall_time_add [simp]: "wall (time_add t d) = wall t + d"
  by (simp_all add: time_add_def)

text \<open>The signed 64-bit reading of a \<open>uint64\<close> and back, as in \<open>int64(x)\<close> and \<open>uint64(x)\<close>.\<close>

lemma sint_of_int_fits: "fits64 i \<Longrightarrow> sint (word_of_int i :: u64) = i"
  by (simp add: sint_sbintrunc' signed_take_bit_int_eq_self fits64_def)

lemma fits64_sint [simp]: "fits64 (sint (w :: u64))"
  using sint_greater_eq [of w] sint_less [of w] by (simp add: fits64_def)

text \<open>A clock that reads between 1970 and 2262.\<close>

definition clock_ok :: "instant \<Rightarrow> bool" where
  "clock_ok now \<longleftrightarrow> 0 \<le> wall now \<and> wall now < 2 ^ 63"

lemma unix_ns_small: "0 \<le> ts \<Longrightarrow> ts < 2 ^ 62 \<Longrightarrow> unix_ns ts = ts * second"
  by (simp add: unix_ns_def fits64_def)

lemma unix_sec_bounds: "clock_ok now \<Longrightarrow> 0 \<le> unix_sec now \<and> unix_sec now < 2 ^ 62"
  by (auto simp: clock_ok_def unix_sec_def second_def)

lemma unix_sec_round:
  "unix_sec now * second \<le> wall now \<and> wall now < unix_sec now * second + second"
  by (simp add: unix_sec_def second_def) (use pos_mod_bound [of 1000000000 "wall now"] in presburger)

end
