(* ===== verification/Carrier.thy ===== *)
theory Carrier
  imports Prelude
begin

text \<open>
  The carrier interface (\<open>carrier.go\<close>, \<open>packetCarrier\<close>): the methods of a carrier whose state
  has type \<open>'c\<close>, as a record of functions, the way Go's interface value is a table of methods. A
  method takes the carrier's state and returns its result and the new state. The transport
  theory is written against this record; the UDP and stream carriers provide it.

  A read returns the bytes placed in the caller's buffer and the identity of the sender.
\<close>

datatype carrier_error =
    ErrClosedPipe
  | ErrUnexpectedEOF
  | FrameLengthInvalid nat
  | WriteFailedAfterReconnect
  | NeitherListenerNorDialer
  | PeerNotKnown
  | UnsupportedTransport string
  | ContextErr
  | NetError string

record 'c packetCarrier =
  ReadPacket :: "nat \<Rightarrow> 'c \<Rightarrow> (carrier_error + bytes \<times> string) \<times> 'c"
  WritePacket :: "bytes \<Rightarrow> string \<Rightarrow> 'c \<Rightarrow> carrier_error option \<times> 'c"
  DefaultPeer :: "'c \<Rightarrow> string"
  CarrierName :: "'c \<Rightarrow> string"
  CloseCarrier :: "'c \<Rightarrow> carrier_error option \<times> 'c"

definition maxCarrierFrame :: nat where
  "maxCarrierFrame = 2 ^ 20"

definition transportNetwork :: "string \<Rightarrow> string" where
  "transportNetwork t = (if t = ''tcp'' then ''tcp'' else ''udp'')"

lemma transportNetwork_cases: "transportNetwork t = ''tcp'' \<or> transportNetwork t = ''udp''"
  by (simp add: transportNetwork_def)

text \<open>
  What the transport relies on of a carrier. \<open>sent c\<close> is the sequence of packets handed to the
  network so far: a successful write appends its packet, a failed one appends nothing, and a
  write never changes the default peer.
\<close>

locale packet_carrier =
  fixes ops :: "'c packetCarrier"
    and carrier_ok :: "'c \<Rightarrow> bool"
    and sent :: "'c \<Rightarrow> bytes list"
  assumes write_sent: "carrier_ok c \<Longrightarrow> WritePacket ops p peer c = (None, c') \<Longrightarrow> sent c' = sent c @ [p]"
    and write_failed: "carrier_ok c \<Longrightarrow> WritePacket ops p peer c = (Some e, c') \<Longrightarrow> sent c' = sent c"
    and write_ok: "carrier_ok c \<Longrightarrow> carrier_ok (snd (WritePacket ops p peer c))"
    and write_default_peer:
      "carrier_ok c \<Longrightarrow> DefaultPeer ops (snd (WritePacket ops p peer c)) = DefaultPeer ops c"

end
