(* ===== verification/Config.thy ===== *)
theory Config
  imports Performance Go_Net Go_Time Carrier
begin

text \<open>
  The configuration (\<open>config.go\<close>): the structs, the defaults and checks of each section, and
  \<open>loadConfig\<close>. JSON decoding into the struct is \<open>encoding/json\<close>'s work; \<open>loadConfig\<close> is modelled
  from the decoded value on, with a file that cannot be opened or decoded as the other two cases
  of its argument. The name service, the Unicode tables and the number of CPUs are the parameter
  \<open>env\<close>. Integers are Go's 64-bit \<open>int\<close>; no operation of \<open>loadConfig\<close> can leave their range on a value
  it has not already rejected.
\<close>

subsection \<open>Data\<close>

record Port =
  p_Port :: int
  p_Protocol :: string

record KCPConfig =
  DataShards :: int
  ParityShards :: int
  NoDelay :: int
  Interval :: int
  Resend :: int
  NoCongestion :: int
  SendWindow :: int
  ReceiveWindow :: int
  k_MTU :: int
  k_SocketBuffer :: int

record SmartReturnConfig =
  Enabled :: bool
  ProbePort :: int
  IntervalSeconds :: int
  TimeoutSeconds :: int
  FailThreshold :: int
  RecoverThreshold :: int

record TransportConfig =
  t_Type :: string
  Listen :: string
  Peer :: string
  Key :: string
  KeepaliveSeconds :: int
  SessionTimeoutSeconds :: int
  RekeyMinutes :: int
  KCP :: KCPConfig

record TunConfig =
  Name :: string
  LocalCIDR :: string
  PeerIP :: string
  MTU :: int

record NetworkConfig =
  PublicInterface :: string
  PublicIP :: string
  PublicGateway :: string
  ForeignPublicIP :: string
  IranPublicIP :: string
  LockServicePorts :: bool

record Config =
  Role :: string
  Mode :: string
  c_Transport :: TransportConfig
  SmartReturn :: SmartReturnConfig
  c_Performance :: PerformanceConfig
  Tun :: TunConfig
  Network :: NetworkConfig
  Ports :: "Port list"

record load_env =
  env_unicode :: unicode
  env_numCPU :: int
  env_resolver :: resolver

datatype config_file =
    Unreadable string
  | Malformed string
  | Decoded Config

subsection \<open>Smart-return section\<close>

definition applySmartReturnDefaults :: "SmartReturnConfig \<Rightarrow> SmartReturnConfig" where
  "applySmartReturnDefaults s = s\<lparr>
     ProbePort := (if ProbePort s = 0 then 9001 else ProbePort s),
     IntervalSeconds := (if IntervalSeconds s = 0 then 5 else IntervalSeconds s),
     TimeoutSeconds := (if TimeoutSeconds s = 0 then 2 else TimeoutSeconds s),
     FailThreshold := (if FailThreshold s = 0 then 3 else FailThreshold s),
     RecoverThreshold := (if RecoverThreshold s = 0 then 3 else RecoverThreshold s)\<rparr>"

definition validateSmartReturn :: "SmartReturnConfig \<Rightarrow> config_error option" where
  "validateSmartReturn s =
     (if ProbePort s < 1 \<or> ProbePort s > 65535 then Some BadProbePort
      else if IntervalSeconds s < 2 \<or> IntervalSeconds s > 300 then Some BadInterval
      else if TimeoutSeconds s < 1 \<or> TimeoutSeconds s \<ge> IntervalSeconds s then Some BadTimeout
      else if FailThreshold s < 1 \<or> FailThreshold s > 20 \<or> RecoverThreshold s < 1 \<or> RecoverThreshold s > 20
      then Some BadThresholds
      else None)"

definition zero_smart_return :: SmartReturnConfig where
  "zero_smart_return = \<lparr>Enabled = False, ProbePort = 0, IntervalSeconds = 0, TimeoutSeconds = 0,
     FailThreshold = 0, RecoverThreshold = 0\<rparr>"

interpretation smart_return: defaulted_section applySmartReturnDefaults validateSmartReturn zero_smart_return
  by unfold_locales (auto simp: applySmartReturnDefaults_def validateSmartReturn_def zero_smart_return_def)

subsection \<open>KCP section\<close>

definition applyKCPDefaults :: "KCPConfig \<Rightarrow> KCPConfig" where
  "applyKCPDefaults k = k\<lparr>
     NoDelay := (if NoDelay k = 0 then 1 else NoDelay k),
     Interval := (if Interval k = 0 then 20 else Interval k),
     Resend := (if Resend k = 0 then 2 else Resend k),
     NoCongestion := (if NoCongestion k = 0 then 1 else NoCongestion k),
     SendWindow := (if SendWindow k = 0 then 512 else SendWindow k),
     ReceiveWindow := (if ReceiveWindow k = 0 then 512 else ReceiveWindow k),
     k_MTU := (if k_MTU k = 0 then 1200 else k_MTU k),
     k_SocketBuffer := (if k_SocketBuffer k = 0 then 4 * 1024 * 1024 else k_SocketBuffer k)\<rparr>"

definition validateKCP :: "KCPConfig \<Rightarrow> config_error option" where
  "validateKCP k =
     (if DataShards k < 0 \<or> DataShards k > 255 \<or> ParityShards k < 0 \<or> ParityShards k > 255 then Some BadKCPShards
      else if (DataShards k = 0) \<noteq> (ParityShards k = 0) then Some BadKCPFEC
      else if NoDelay k < 0 \<or> NoDelay k > 1 \<or> NoCongestion k < 0 \<or> NoCongestion k > 1 then Some BadKCPFlags
      else if Interval k < 10 \<or> Interval k > 100 \<or> Resend k < 0 \<or> Resend k > 2 then Some BadKCPInterval
      else if SendWindow k < 32 \<or> SendWindow k > 8192 \<or> ReceiveWindow k < 32 \<or> ReceiveWindow k > 8192
      then Some BadKCPWindows
      else if k_MTU k < 576 \<or> k_MTU k > 1400 then Some BadKCPMTU
      else if k_SocketBuffer k < 256 * 1024 \<or> k_SocketBuffer k > 64 * 1024 * 1024 then Some BadKCPSocketBuffer
      else None)"

definition zero_kcp :: KCPConfig where
  "zero_kcp = \<lparr>DataShards = 0, ParityShards = 0, NoDelay = 0, Interval = 0, Resend = 0, NoCongestion = 0,
     SendWindow = 0, ReceiveWindow = 0, k_MTU = 0, k_SocketBuffer = 0\<rparr>"

lemma kcp_defaults_nonzero:
  "NoDelay (applyKCPDefaults k) \<noteq> 0" "Interval (applyKCPDefaults k) \<noteq> 0" "Resend (applyKCPDefaults k) \<noteq> 0"
  "NoCongestion (applyKCPDefaults k) \<noteq> 0" "SendWindow (applyKCPDefaults k) \<noteq> 0"
  "ReceiveWindow (applyKCPDefaults k) \<noteq> 0" "k_MTU (applyKCPDefaults k) \<noteq> 0" "k_SocketBuffer (applyKCPDefaults k) \<noteq> 0"
  by (simp_all add: applyKCPDefaults_def)

lemma kcp_defaults_id:
  "NoDelay k \<noteq> 0 \<Longrightarrow> Interval k \<noteq> 0 \<Longrightarrow> Resend k \<noteq> 0 \<Longrightarrow> NoCongestion k \<noteq> 0 \<Longrightarrow> SendWindow k \<noteq> 0 \<Longrightarrow>
     ReceiveWindow k \<noteq> 0 \<Longrightarrow> k_MTU k \<noteq> 0 \<Longrightarrow> k_SocketBuffer k \<noteq> 0 \<Longrightarrow> applyKCPDefaults k = k"
  by (simp add: applyKCPDefaults_def)

interpretation kcp: defaulted_section applyKCPDefaults validateKCP zero_kcp
  by unfold_locales
    (simp_all add: kcp_defaults_id kcp_defaults_nonzero, simp add: applyKCPDefaults_def validateKCP_def zero_kcp_def)

subsection \<open>Addresses and ports\<close>

definition validateTransportAddress :: "resolver \<Rightarrow> string \<Rightarrow> string \<Rightarrow> bool" where
  "validateTransportAddress res kind addr =
     (if kind = ''tcp'' then ResolveTCPAddr res addr \<noteq> None
      else if kind = ''udp'' \<or> kind = ''kcp'' then ResolveUDPAddr res addr \<noteq> None
      else False)"

definition protocolIncludes :: "string \<Rightarrow> string \<Rightarrow> bool" where
  "protocolIncludes serviceProto carrierProto \<longleftrightarrow> serviceProto = ''both'' \<or> serviceProto = carrierProto"

definition listenPort :: "string \<Rightarrow> config_error + int" where
  "listenPort addr =
     (case SplitHostPort addr of
        None \<Rightarrow> Inl (BadListenAddress addr)
      | Some (_, p) \<Rightarrow>
          (case Atoi p of
             None \<Rightarrow> Inl (BadListenPort addr)
           | Some n \<Rightarrow> if n < 1 \<or> n > 65535 then Inl (BadListenPort addr) else Inr n))"

definition port_key :: "Port \<Rightarrow> string" where
  "port_key p = itoa (p_Port p) @ ''/'' @ p_Protocol p"

fun check_ports :: "string list \<Rightarrow> Port list \<Rightarrow> config_error option" where
  "check_ports seen [] = None"
| "check_ports seen (p # ps) =
     (if p_Port p < 1 \<or> p_Port p > 65535 then Some (BadServicePort (p_Port p))
      else if p_Protocol p \<noteq> ''tcp'' \<and> p_Protocol p \<noteq> ''udp'' \<and> p_Protocol p \<noteq> ''both''
      then Some (BadProtocol (p_Protocol p) (p_Port p))
      else if port_key p \<in> set seen then Some (DuplicatePort (port_key p))
      else check_ports (port_key p # seen) ps)"

fun check_conflicts :: "Config \<Rightarrow> int \<Rightarrow> string \<Rightarrow> Port list \<Rightarrow> config_error option" where
  "check_conflicts c carrierPort carrierProto [] = None"
| "check_conflicts c carrierPort carrierProto (p # ps) =
     (if p_Port p = carrierPort \<and> protocolIncludes (p_Protocol p) carrierProto
      then Some (CarrierPortConflict (t_Type (c_Transport c)) carrierPort (p_Port p) (p_Protocol p))
      else if Enabled (SmartReturn c) \<and> p_Port p = ProbePort (SmartReturn c) \<and>
              (p_Protocol p = ''udp'' \<or> p_Protocol p = ''both'')
      then Some (ProbePortConflict (ProbePort (SmartReturn c)) (p_Port p) (p_Protocol p))
      else check_conflicts c carrierPort carrierProto ps)"

subsection \<open>loadConfig\<close>

text \<open>
  The body of \<open>loadConfig\<close> in its five parts, each of which continues with the configuration it
  has completed, or returns the first error.
\<close>

definition and_then :: "'e + 'a \<Rightarrow> ('a \<Rightarrow> 'e + 'b) \<Rightarrow> 'e + 'b" where
  "and_then m f = (case m of Inl e \<Rightarrow> Inl e | Inr x \<Rightarrow> f x)"

lemma and_then_Inr [simp]: "and_then m f = Inr y \<longleftrightarrow> (\<exists>x. m = Inr x \<and> f x = Inr y)"
  by (simp add: and_then_def split: sum.splits)

lemma and_then_simps: "and_then (Inr x) f = f x" "and_then (Inl e) f = Inl e"
  by (simp_all add: and_then_def)

definition apply_basic_defaults :: "Config \<Rightarrow> Config" where
  "apply_basic_defaults c =
     (let t = c_Transport c; u = Tun c
      in c\<lparr>c_Transport := t\<lparr>
             t_Type := (if t_Type t = '''' then ''udp'' else t_Type t),
             KeepaliveSeconds := (if KeepaliveSeconds t = 0 then 5 else KeepaliveSeconds t),
             SessionTimeoutSeconds := (if SessionTimeoutSeconds t = 0 then 25 else SessionTimeoutSeconds t),
             RekeyMinutes := (if RekeyMinutes t = 0 then 30 else RekeyMinutes t)\<rparr>,
           Tun := u\<lparr>
             Name := (if Name u = '''' then ''hsh0'' else Name u),
             MTU := (if MTU u = 0 then 1320 else MTU u)\<rparr>\<rparr>)"

definition check_basics :: "Config \<Rightarrow> config_error option" where
  "check_basics c =
     (let t = c_Transport c; u = Tun c
      in if t_Type t \<noteq> ''udp'' \<and> t_Type t \<noteq> ''tcp'' \<and> t_Type t \<noteq> ''kcp'' then Some BadTransportType
         else if length (Name u) > 15 then Some TunNameTooLong
         else if MTU u < 900 \<or> MTU u > 1400 then Some BadTunMTU
         else if KeepaliveSeconds t < 2 \<or> KeepaliveSeconds t > 60 then Some BadKeepalive
         else if SessionTimeoutSeconds t < KeepaliveSeconds t * 2 then Some BadSessionTimeout
         else if RekeyMinutes t < 5 \<or> RekeyMinutes t > 1440 then Some BadRekey
         else None)"

definition load_basics :: "Config \<Rightarrow> config_error + Config" where
  "load_basics c =
     (if Role c \<noteq> ''iran'' \<and> Role c \<noteq> ''kharej'' then Inl BadRole
      else if Mode c \<noteq> ''full'' \<and> Mode c \<noteq> ''direct-return'' then Inl BadMode
      else load_section apply_basic_defaults check_basics c)"

definition load_tuning :: "load_env \<Rightarrow> Config \<Rightarrow> config_error + Config" where
  "load_tuning env c =
     and_then (load_section (applyPerformanceDefaults (env_unicode env) (env_numCPU env)) validatePerformance
                 (c_Performance c)) (\<lambda>perf.
     (let c = c\<lparr>c_Performance := perf\<rparr>; t = c_Transport c
      in if t_Type t = ''kcp'' then
           and_then (load_section applyKCPDefaults validateKCP (KCP t)) (\<lambda>k. Inr (c\<lparr>c_Transport := t\<lparr>KCP := k\<rparr>\<rparr>))
         else Inr c))"

definition check_addresses :: "resolver \<Rightarrow> Config \<Rightarrow> config_error option" where
  "check_addresses res c =
     (let t = c_Transport c
      in if (case b64_decode (Key t) of None \<Rightarrow> True | Some key \<Rightarrow> length key \<noteq> 32) then Some BadKey
         else if \<not> validateTransportAddress res (t_Type t) (Listen t) then Some (BadListen (Listen t))
         else if Role c = ''iran'' \<and> Peer t = '''' then Some PeerRequired
         else if Role c = ''iran'' \<and> \<not> validateTransportAddress res (t_Type t) (Peer t) then Some (BadPeer (Peer t))
         else if ParseCIDR (LocalCIDR (Tun c)) = None then Some (BadLocalCIDR (LocalCIDR (Tun c)))
         else if \<not> is_ipv4 (PeerIP (Tun c)) then Some BadPeerIP
         else None)"

definition load_smart_return :: "Config \<Rightarrow> config_error + Config" where
  "load_smart_return c =
     (if \<not> Enabled (SmartReturn c) then Inr c
      else if Mode c \<noteq> ''direct-return'' then Inl SmartReturnMode
      else if Ports c = [] then Inl SmartReturnPorts
      else and_then (load_section applySmartReturnDefaults validateSmartReturn (SmartReturn c))
             (\<lambda>s. Inr (c\<lparr>SmartReturn := s\<rparr>)))"

definition check_services :: "Config \<Rightarrow> config_error option" where
  "check_services c =
     (if Ports c = [] then None
      else
        (let net = Network c
         in if PublicInterface net = '''' \<or> PublicIP net = '''' \<or> ForeignPublicIP net = '''' \<or> IranPublicIP net = ''''
            then Some NetworkRequired
            else case find (\<lambda>ip. \<not> is_ipv4 ip) [PublicIP net, ForeignPublicIP net, IranPublicIP net] of
              Some ip \<Rightarrow> Some (BadIPv4 ip)
            | None \<Rightarrow>
                (case check_ports [] (Ports c) of
                   Some e \<Rightarrow> Some e
                 | None \<Rightarrow>
                     (case listenPort (Listen (c_Transport c)) of
                        Inl e \<Rightarrow> Some e
                      | Inr carrierPort \<Rightarrow>
                          (let carrierProto = transportNetwork (t_Type (c_Transport c))
                           in case check_conflicts c carrierPort carrierProto (Ports c) of
                                Some e \<Rightarrow> Some e
                              | None \<Rightarrow>
                                  if Enabled (SmartReturn c) \<and> carrierProto = ''udp'' \<and>
                                     carrierPort = ProbePort (SmartReturn c)
                                  then Some ProbeCarrierConflict else None)))))"

definition checked :: "('a \<Rightarrow> 'e option) \<Rightarrow> 'a \<Rightarrow> 'e + 'a" where
  "checked f c = (case f c of Some e \<Rightarrow> Inl e | None \<Rightarrow> Inr c)"

lemma checked_Inr [simp]: "checked f c = Inr d \<longleftrightarrow> f c = None \<and> d = c"
  by (auto simp: checked_def split: option.splits)

definition loadConfig :: "load_env \<Rightarrow> config_file \<Rightarrow> config_error + Config" where
  "loadConfig env file =
     (case file of
        Unreadable msg \<Rightarrow> Inl (OpenConfig msg)
      | Malformed msg \<Rightarrow> Inl (ParseConfig msg)
      | Decoded c \<Rightarrow>
          and_then (load_basics c) (\<lambda>c.
          and_then (load_tuning env c) (\<lambda>c.
          and_then (checked (check_addresses (env_resolver env)) c) (\<lambda>c.
          and_then (load_smart_return c) (\<lambda>c.
          checked check_services c)))))"

end
