(* ===== verification/Return_Path.thy ===== *)
theory Return_Path
  imports Prelude
begin

text \<open>
  The hysteresis controller of Smart Return (\<open>smart_return.go\<close>, \<open>returnPathController\<close>): the
  download path leaves \<open>direct\<close> after \<open>failThreshold\<close> consecutive failed probes and returns to
  it after \<open>recoverThreshold\<close> consecutive successful ones. \<open>observe\<close> runs under the
  controller's mutex, so one call is one atomic step.

  The specification keeps no counters, only the observations since the last switch; the
  controller is proved to refine it.
\<close>

type_synonym returnPath = string

definition returnPathDirect :: returnPath where "returnPathDirect = ''direct''"
definition returnPathTunnel :: returnPath where "returnPathTunnel = ''tunnel''"

lemma returnPath_distinct [simp]:
  "returnPathDirect \<noteq> returnPathTunnel" "returnPathTunnel \<noteq> returnPathDirect"
  by (simp_all add: returnPathDirect_def returnPathTunnel_def)

record returnPathController =
  rpath :: returnPath
  failures :: int
  successes :: int
  failThreshold :: int
  recoverThreshold :: int

definition newReturnPathController :: "int \<Rightarrow> int \<Rightarrow> returnPathController" where
  "newReturnPathController failT recoverT =
     \<lparr>rpath = returnPathDirect, failures = 0, successes = 0,
      failThreshold = failT, recoverThreshold = recoverT\<rparr>"

definition observe :: "bool \<Rightarrow> returnPathController \<Rightarrow> (returnPath \<times> bool) \<times> returnPathController" where
  "observe ok r =
     (if rpath r = returnPathDirect then
        (if ok then ((rpath r, False), r\<lparr>failures := 0\<rparr>)
         else
           (let r = r\<lparr>failures := failures r + 1\<rparr>
            in if failures r \<ge> failThreshold r
               then ((returnPathTunnel, True),
                     r\<lparr>rpath := returnPathTunnel, failures := 0, successes := 0\<rparr>)
               else ((rpath r, False), r)))
      else if rpath r = returnPathTunnel then
        (if \<not> ok then ((rpath r, False), r\<lparr>successes := 0\<rparr>)
         else
           (let r = r\<lparr>successes := successes r + 1\<rparr>
            in if successes r \<ge> recoverThreshold r
               then ((returnPathDirect, True),
                     r\<lparr>rpath := returnPathDirect, successes := 0, failures := 0\<rparr>)
               else ((rpath r, False), r)))
      else ((rpath r, False), r))"

text \<open>A sequence of probes: the answers of the calls and the final controller.\<close>

primrec observe_run ::
  "bool list \<Rightarrow> returnPathController \<Rightarrow> (returnPath \<times> bool) list \<times> returnPathController" where
  "observe_run [] r = ([], r)"
| "observe_run (ok # oks) r =
     (let (a, r') = observe ok r; (as, r'') = observe_run oks r' in (a # as, r''))"

subsection \<open>Specification: the observations since the last switch\<close>

definition trailing :: "bool \<Rightarrow> bool list \<Rightarrow> nat" where
  "trailing b h = length (takeWhile ((=) b) (rev h))"

lemma trailing_Nil [simp]: "trailing b [] = 0"
  by (simp add: trailing_def)

lemma trailing_snoc [simp]: "trailing b (h @ [x]) = (if x = b then Suc (trailing b h) else 0)"
  by (auto simp: trailing_def)

definition spec_observe :: "nat \<Rightarrow> nat \<Rightarrow> bool \<Rightarrow> returnPath \<times> bool list \<Rightarrow> (returnPath \<times> bool) \<times> returnPath \<times> bool list"
where
  "spec_observe n m ok s =
     (case s of (p, h) \<Rightarrow>
        let h' = h @ [ok]
        in if p = returnPathDirect \<and> \<not> ok \<and> n \<le> trailing False h' then ((returnPathTunnel, True), returnPathTunnel, [])
           else if p = returnPathTunnel \<and> ok \<and> m \<le> trailing True h' then ((returnPathDirect, True), returnPathDirect, [])
           else ((p, False), p, h'))"

primrec spec_observe_run :: "nat \<Rightarrow> nat \<Rightarrow> bool list \<Rightarrow> returnPath \<times> bool list \<Rightarrow> (returnPath \<times> bool) list" where
  "spec_observe_run n m [] s = []"
| "spec_observe_run n m (ok # oks) s =
     (let (a, s') = spec_observe n m ok s in a # spec_observe_run n m oks s')"

definition controller_rel :: "nat \<Rightarrow> nat \<Rightarrow> returnPathController \<Rightarrow> returnPath \<times> bool list \<Rightarrow> bool" where
  "controller_rel n m r s \<longleftrightarrow>
     rpath r = fst s \<and> failThreshold r = int n \<and> recoverThreshold r = int m \<and>
     (rpath r = returnPathDirect \<longrightarrow> failures r = int (trailing False (snd s))) \<and>
     (rpath r = returnPathTunnel \<longrightarrow> successes r = int (trailing True (snd s)))"

lemma controller_rel_new:
  "controller_rel n m (newReturnPathController (int n) (int m)) (returnPathDirect, [])"
  by (simp add: controller_rel_def newReturnPathController_def)

lemma observe_refines:
  assumes "controller_rel n m r s"
  shows "fst (observe ok r) = fst (spec_observe n m ok s)
    \<and> controller_rel n m (snd (observe ok r)) (snd (spec_observe n m ok s))"
  using assms
  by (cases s) (auto simp: controller_rel_def observe_def spec_observe_def Let_def)

lemma observe_run_refines:
  "controller_rel n m r s \<Longrightarrow> fst (observe_run oks r) = spec_observe_run n m oks s"
proof (induction oks arbitrary: r s)
  case Nil
  show ?case by simp
next
  case (Cons ok oks)
  from observe_refines [OF Cons.prems, of ok] Cons.IH show ?case
    by (auto simp: Let_def case_prod_beta)
qed

subsection \<open>Invariant, switching and the cost of a switch\<close>

definition controller_ok :: "returnPathController \<Rightarrow> bool" where
  "controller_ok r \<longleftrightarrow>
     1 \<le> failThreshold r \<and> 1 \<le> recoverThreshold r \<and>
     (rpath r = returnPathDirect \<and> 0 \<le> failures r \<and> failures r < failThreshold r \<or>
      rpath r = returnPathTunnel \<and> 0 \<le> successes r \<and> successes r < recoverThreshold r)"

lemma controller_ok_new [simp]:
  "1 \<le> n \<Longrightarrow> 1 \<le> m \<Longrightarrow> controller_ok (newReturnPathController n m)"
  by (simp add: controller_ok_def newReturnPathController_def)

lemma observe_ok: "controller_ok r \<Longrightarrow> controller_ok (snd (observe ok r))"
  by (auto simp: controller_ok_def observe_def Let_def)

lemma observe_thresholds [simp]:
  "failThreshold (snd (observe ok r)) = failThreshold r"
  "recoverThreshold (snd (observe ok r)) = recoverThreshold r"
  by (simp_all add: observe_def Let_def)

lemma observe_fst_path: "fst (fst (observe ok r)) = rpath (snd (observe ok r))"
  by (simp add: observe_def Let_def)

lemma observe_changed: "snd (fst (observe ok r)) \<longleftrightarrow> rpath (snd (observe ok r)) \<noteq> rpath r"
  by (auto simp: observe_def Let_def)

lemma observe_run_ok: "controller_ok r \<Longrightarrow> controller_ok (snd (observe_run oks r))"
proof (induction oks arbitrary: r)
  case Nil
  then show ?case by simp
next
  case (Cons ok oks)
  from Cons.IH [OF observe_ok [OF Cons.prems, of ok]] show ?case
    by (simp add: Let_def case_prod_beta)
qed

text \<open>
  The progress towards the next switch. Each observation adds at most one to it, and a switch
  spends a whole threshold, which bounds the number of switches.
\<close>

definition progress :: "returnPathController \<Rightarrow> int" where
  "progress r = (if rpath r = returnPathDirect then failures r else successes r)"

definition switches :: "(returnPath \<times> bool) list \<Rightarrow> nat" where
  "switches as = length (filter snd as)"

lemma progress_nonneg: "controller_ok r \<Longrightarrow> 0 \<le> progress r"
  by (auto simp: controller_ok_def progress_def)

lemma observe_progress:
  assumes "controller_ok r"
  shows "progress (snd (observe ok r)) +
      (if snd (fst (observe ok r)) then min (failThreshold r) (recoverThreshold r) else 0)
    \<le> progress r + 1"
  using assms by (auto simp: controller_ok_def observe_def progress_def Let_def)

lemma switches_bound_gen:
  assumes "controller_ok r"
  shows "int (switches (fst (observe_run oks r))) * min (failThreshold r) (recoverThreshold r)
    \<le> progress r + int (length oks)"
  using assms
proof (induction oks arbitrary: r)
  case Nil
  then show ?case by (simp add: switches_def progress_nonneg)
next
  case (Cons ok oks)
  let ?r = "snd (observe ok r)"
  let ?k = "min (failThreshold r) (recoverThreshold r)"
  have "int (switches (fst (observe_run oks ?r))) * ?k \<le> progress ?r + int (length oks)"
    using Cons.IH [OF observe_ok [OF Cons.prems, of ok]] by simp
  with observe_progress [OF Cons.prems, of ok] show ?case
    by (cases "snd (fst (observe ok r))")
      (auto simp: Let_def case_prod_beta switches_def algebra_simps)
qed

text \<open>A streak of equal observations drives the controller to the path they ask for.\<close>

definition wanted :: "bool \<Rightarrow> returnPath" where
  "wanted ok = (if ok then returnPathDirect else returnPathTunnel)"

definition threshold :: "bool \<Rightarrow> returnPathController \<Rightarrow> int" where
  "threshold ok r = (if ok then recoverThreshold r else failThreshold r)"

lemma observe_towards:
  assumes "controller_ok r" "rpath r \<noteq> wanted ok \<Longrightarrow> threshold ok r - progress r \<le> 1 + int k"
  shows "rpath (snd (observe ok r)) \<noteq> wanted ok \<Longrightarrow>
    threshold ok (snd (observe ok r)) - progress (snd (observe ok r)) \<le> int k"
  using assms
  by (cases ok) (auto simp: controller_ok_def wanted_def threshold_def progress_def observe_def Let_def)

lemma observe_streak:
  assumes "controller_ok r" "rpath r \<noteq> wanted ok \<Longrightarrow> threshold ok r - progress r \<le> int k"
  shows "rpath (snd (observe_run (replicate k ok) r)) = wanted ok"
  using assms
proof (induction k arbitrary: r)
  case 0
  then show ?case
    by (cases ok) (auto simp: controller_ok_def wanted_def threshold_def progress_def)
next
  case (Suc k)
  have "rpath (snd (observe_run (replicate k ok) (snd (observe ok r)))) = wanted ok"
    using Suc.prems by (intro Suc.IH observe_ok observe_towards) auto
  then show ?case by (simp add: Let_def case_prod_beta)
qed

lemma observe_run_append:
  "snd (observe_run (xs @ ys) r) = snd (observe_run ys (snd (observe_run xs r)))"
  by (induction xs arbitrary: r) (simp_all add: Let_def case_prod_beta)

lemma observe_run_thresholds [simp]: "threshold b (snd (observe_run oks r)) = threshold b r"
  by (induction oks arbitrary: r) (simp_all add: Let_def case_prod_beta threshold_def)

subsection \<open>Properties\<close>

text \<open>C28: over any sequence of probe results the controller answers as the specification does:
  it switches to the tunnel exactly when the last \<open>n\<close> results since the previous switch are
  failures, and back exactly when the last \<open>m\<close> are successes.\<close>

theorem observe_hysteresis:
  "fst (observe_run oks (newReturnPathController (int n) (int m)))
    = spec_observe_run n m oks (returnPathDirect, [])"
  by (rule observe_run_refines [OF controller_rel_new])

text \<open>No flapping: with positive thresholds, a run of probes contains at most one switch per
  \<open>min n m\<close> observations.\<close>

lemma observe_no_flapping:
  assumes "1 \<le> n" "1 \<le> m"
  shows "int (switches (fst (observe_run oks (newReturnPathController n m)))) * min n m
    \<le> int (length oks)"
  using switches_bound_gen [OF controller_ok_new [OF assms], of oks]
  by (simp add: newReturnPathController_def progress_def)

text \<open>From every state the controller can be in, \<open>n\<close> consecutive failures put the download on
  the tunnel and \<open>m\<close> consecutive successes put it back on the direct path.\<close>

lemma observe_converges:
  assumes "1 \<le> n" "1 \<le> m"
  shows "rpath (snd (observe_run (oks @ replicate (nat n) False) (newReturnPathController n m))) = returnPathTunnel
    \<and> rpath (snd (observe_run (oks @ replicate (nat m) True) (newReturnPathController n m))) = returnPathDirect"
proof -
  let ?r = "snd (observe_run oks (newReturnPathController n m))"
  have ok: "controller_ok ?r" using assms by (intro observe_run_ok controller_ok_new)
  have "rpath (snd (observe_run (replicate (nat (threshold b ?r)) b) ?r)) = wanted b" for b
    using observe_streak [OF ok, of b "nat (threshold b ?r)"] progress_nonneg [OF ok] by simp
  from this [of False] this [of True] show ?thesis
    by (simp add: observe_run_append wanted_def) (simp add: threshold_def newReturnPathController_def)
qed

end
