(* ===== verification/Replay.thy ===== *)
theory Replay
  imports Prelude
begin

text \<open>
  The replay window of an encrypted session (\<open>crypto.go\<close>, \<open>replayWindow\<close>): the highest
  counter accepted so far and a 64-bit bitmap of the counters at distance 0 to 63 below it.
  The method runs under the window's mutex, so one call is one atomic step.

  The abstract specification is the set of counters accepted so far; \<open>window_rel\<close> is the
  refinement relation. What a client needs of a replay filter is the locale \<open>replay_filter\<close>,
  interpreted here on the bitmap window; the session layer uses it for packet delivery.
\<close>

record replayWindow =
  highest :: u64
  bitmap :: u64

definition zero_window :: replayWindow where
  "zero_window = \<lparr>highest = 0, bitmap = 0\<rparr>"

definition accept :: "u64 \<Rightarrow> replayWindow \<Rightarrow> bool \<times> replayWindow" where
  "accept counter r =
     (if counter = 0 then (False, r)
      else if highest r = 0 then (True, r\<lparr>highest := counter, bitmap := 1\<rparr>)
      else if counter > highest r then
        (let shift = counter - highest r;
             bm = (if shift \<ge> 64 then 1 else push_bit (unat shift) (bitmap r) OR 1)
         in (True, r\<lparr>bitmap := bm, highest := counter\<rparr>))
      else
        (let delta = highest r - counter
         in if delta \<ge> 64 then (False, r)
            else
              (let b = push_bit (unat delta) (1 :: u64)
               in if bitmap r AND b \<noteq> 0 then (False, r)
                  else (True, r\<lparr>bitmap := bitmap r OR b\<rparr>))))"

subsection \<open>Specification: the set of accepted counters\<close>

definition spec_accept :: "u64 \<Rightarrow> u64 set \<Rightarrow> bool" where
  "spec_accept c A \<longleftrightarrow> c \<noteq> 0 \<and> c \<notin> A \<and> (\<forall>a \<in> A. unat a < unat c + 64)"

definition window_rel :: "replayWindow \<Rightarrow> u64 set \<Rightarrow> bool" where
  "window_rel r A \<longleftrightarrow>
     0 \<notin> A \<and> (highest r = 0 \<longleftrightarrow> A = {}) \<and>
     (A \<noteq> {} \<longrightarrow> highest r \<in> A \<and> (\<forall>a \<in> A. a \<le> highest r) \<and>
       (\<forall>i < 64. bit (bitmap r) i \<longleftrightarrow> (\<exists>a \<in> A. unat a + i = unat (highest r))))"

lemma window_rel_zero: "window_rel zero_window {}"
  by (simp add: window_rel_def zero_window_def)

lemma and_exp_eq_0: "(x AND 2 ^ n = 0) \<longleftrightarrow> \<not> bit x n" if "n < 64" for x :: u64
proof -
  have "bit (x AND 2 ^ n) m \<longleftrightarrow> m = n \<and> bit x n" for m
    using that by (auto simp: bit_simps)
  then show ?thesis
    by (metis bit_eq_iff bit_0_eq bot_apply bot_bool_def)
qed

text \<open>Inside the window, the bit of a counter says whether it was accepted.\<close>

lemma window_rel_bit:
  assumes "window_rel r A" "A \<noteq> {}" "c \<le> highest r" "highest r - c < 64"
  shows "bit (bitmap r) (unat (highest r - c)) \<longleftrightarrow> c \<in> A"
proof -
  have d: "unat (highest r - c) < 64"
    using assms(4) by (simp add: word_less_nat_alt)
  have u: "unat c + unat (highest r - c) = unat (highest r)"
    using assms(3) by (simp add: unat_sub word_le_nat_alt)
  have "bit (bitmap r) (unat (highest r - c))
    \<longleftrightarrow> (\<exists>a \<in> A. unat a + unat (highest r - c) = unat (highest r))"
    using assms(1,2) d by (simp add: window_rel_def)
  also have "\<dots> \<longleftrightarrow> (\<exists>a \<in> A. unat a = unat c)"
    using u by (metis add_right_cancel)
  finally show ?thesis by (auto dest: unsigned_word_eqI)
qed

lemma spec_accept_nonempty:
  assumes "window_rel r A" "A \<noteq> {}"
  shows "spec_accept c A \<longleftrightarrow> c \<noteq> 0 \<and> c \<notin> A \<and> unat (highest r) < unat c + 64"
  using assms unfolding spec_accept_def window_rel_def
  by (metis le_less_trans word_le_nat_alt)

lemma window_slide_bits:
  assumes rel: "window_rel r A" "A \<noteq> {}" and c: "highest r < c" and i: "i < 64"
  defines "k \<equiv> unat (c - highest r)"
  shows "(k \<le> i \<and> i - k < 64 \<and> bit (bitmap r) (i - k) \<or> i = 0)
    \<longleftrightarrow> (\<exists>a \<in> insert c A. unat a + i = unat c)"
proof -
  have k: "unat c = unat (highest r) + k" "0 < k"
    using c by (simp_all add: k_def unat_sub word_less_nat_alt order.strict_implies_order)
  have le: "unat a \<le> unat (highest r)" if "a \<in> A" for a
    using rel that by (simp add: window_rel_def word_le_nat_alt)
  have "(\<exists>a \<in> A. unat a + i = unat c) \<longleftrightarrow> k \<le> i \<and> (\<exists>a \<in> A. unat a + (i - k) = unat (highest r))"
  proof
    assume "\<exists>a \<in> A. unat a + i = unat c"
    then obtain a where "a \<in> A" "unat a + i = unat c" by blast
    with le [of a] k show "k \<le> i \<and> (\<exists>a \<in> A. unat a + (i - k) = unat (highest r))"
      by (intro conjI bexI [of _ a]) auto
  next
    assume "k \<le> i \<and> (\<exists>a \<in> A. unat a + (i - k) = unat (highest r))"
    then obtain a where "k \<le> i" "a \<in> A" "unat a + (i - k) = unat (highest r)" by blast
    with k show "\<exists>a \<in> A. unat a + i = unat c" by (intro bexI [of _ a]) auto
  qed
  also have "\<dots> \<longleftrightarrow> k \<le> i \<and> i - k < 64 \<and> bit (bitmap r) (i - k)"
    using rel i by (auto simp: window_rel_def)
  finally show ?thesis by auto
qed

text \<open>
  One call of \<open>accept\<close> refines one step of the specification, branch by branch: the first
  counter, a counter above the highest, one inside the window, one below it.
\<close>

lemma accept_first: "c \<noteq> 0 \<Longrightarrow> highest r = 0 \<Longrightarrow> accept c r = (True, r\<lparr>highest := c, bitmap := 1\<rparr>)"
  by (simp add: accept_def)

lemma accept_zero [simp]: "accept 0 r = (False, r)"
  by (simp add: accept_def)

lemma window_rel_first: "c \<noteq> 0 \<Longrightarrow> window_rel (r\<lparr>highest := c, bitmap := 1\<rparr>) {c}"
  by (auto simp: window_rel_def bit_simps)

lemma window_rel_slide:
  assumes rel: "window_rel r A" "A \<noteq> {}" and c: "highest r < c"
  shows "fst (accept c r) \<and> window_rel (snd (accept c r)) (insert c A)"
proof -
  have h: "highest r \<noteq> 0" using rel by (simp add: window_rel_def)
  have c0: "c \<noteq> 0" using c by auto
  have top: "\<forall>a \<in> insert c A. a \<le> c"
    using rel c by (auto simp: window_rel_def intro: order.strict_implies_order le_less_trans)
  let ?k = "unat (c - highest r)"
  let ?bm = "if c - highest r \<ge> 64 then 1 else push_bit ?k (bitmap r) OR 1"
  have eq: "accept c r = (True, r\<lparr>bitmap := ?bm, highest := c\<rparr>)"
    using c h c0 by (simp add: accept_def Let_def)
  have "bit ?bm i \<longleftrightarrow> (\<exists>a \<in> insert c A. unat a + i = unat c)" if i: "i < 64" for i
  proof -
    have "bit ?bm i \<longleftrightarrow> ?k \<le> i \<and> i - ?k < 64 \<and> bit (bitmap r) (i - ?k) \<or> i = 0"
      using i by (auto simp: bit_simps word_le_nat_alt)
    with window_slide_bits [OF rel c i] show ?thesis by simp
  qed
  with rel c0 top show ?thesis
    by (simp add: eq window_rel_def)
qed

lemma accept_inside:
  assumes rel: "window_rel r A" "A \<noteq> {}" and c: "c \<noteq> 0" "c \<le> highest r" "highest r - c < 64"
  shows "accept c r =
    (if c \<in> A then (False, r)
     else (True, r\<lparr>bitmap := bitmap r OR push_bit (unat (highest r - c)) 1\<rparr>))"
proof -
  have h: "highest r \<noteq> 0" using rel by (simp add: window_rel_def)
  have "unat (highest r - c) < 64" using c(3) by (simp add: word_less_nat_alt)
  then show ?thesis
    using c h window_rel_bit [OF rel c(2,3)]
    by (auto simp: accept_def Let_def and_exp_eq_0 not_less not_le)
qed

lemma window_rel_inside:
  assumes rel: "window_rel r A" "A \<noteq> {}" and c: "c \<noteq> 0" "c \<le> highest r" "highest r - c < 64"
  shows "window_rel (r\<lparr>bitmap := bitmap r OR push_bit (unat (highest r - c)) 1\<rparr>) (insert c A)"
proof -
  let ?d = "unat (highest r - c)"
  have d: "?d < 64" "unat c + ?d = unat (highest r)"
    using c by (simp_all add: word_less_nat_alt unat_sub word_le_nat_alt)
  have "bit (bitmap r OR push_bit ?d 1) i \<longleftrightarrow> (\<exists>a \<in> insert c A. unat a + i = unat (highest r))"
    if "i < 64" for i
    using rel d that by (auto simp: bit_simps window_rel_def)
  with rel c show ?thesis by (auto simp: window_rel_def)
qed

lemma accept_refines_step:
  assumes "window_rel r A"
  shows "fst (accept c r) = spec_accept c A \<and>
    window_rel (snd (accept c r)) (if spec_accept c A then insert c A else A)"
proof (cases "A = {}")
  case True
  with assms have "highest r = 0" by (simp add: window_rel_def)
  with True assms show ?thesis
    by (cases "c = 0") (auto simp: spec_accept_def accept_first window_rel_first)
next
  case False
  have h: "highest r \<noteq> 0" using assms False by (simp add: window_rel_def)
  have spec: "spec_accept c A \<longleftrightarrow> c \<noteq> 0 \<and> c \<notin> A \<and> unat (highest r) < unat c + 64"
    by (rule spec_accept_nonempty [OF assms False])
  have dist: "c \<le> highest r \<Longrightarrow> (highest r - c < 64 \<longleftrightarrow> unat (highest r) < unat c + 64)"
    by (auto simp: word_less_nat_alt unat_sub word_le_nat_alt)
  consider "c = 0" | "highest r < c" | "c \<noteq> 0" "c \<le> highest r" "highest r - c < 64"
    | "c \<noteq> 0" "c \<le> highest r" "\<not> highest r - c < 64"
    by fastforce
  then show ?thesis
  proof cases
    case 1
    then show ?thesis using assms by (simp add: spec_accept_def)
  next
    case 2
    then have "c \<noteq> 0" "unat (highest r) < unat c + 64"
      by (auto simp: word_less_nat_alt)
    moreover from 2 assms have "c \<notin> A"
      by (auto simp: window_rel_def dest: leD)
    ultimately have "spec_accept c A" using spec by simp
    with window_rel_slide [OF assms False 2] show ?thesis by simp
  next
    case 3
    with spec dist accept_inside [OF assms False 3] window_rel_inside [OF assms False 3] assms
    show ?thesis by simp
  next
    case 4
    then have "accept c r = (False, r)"
      using h by (auto simp: accept_def Let_def not_less)
    with 4 spec dist assms show ?thesis by simp
  qed
qed

subsection \<open>Runs, and the interface a session relies on\<close>

text \<open>
  \<open>filter_run\<close> presents a sequence of counters to a filter and collects the accepted ones;
  \<open>spec_run\<close> does so for the specification.
\<close>

primrec filter_run :: "('c \<Rightarrow> 's \<Rightarrow> bool \<times> 's) \<Rightarrow> 's \<Rightarrow> 'c list \<Rightarrow> 'c list \<times> 's" where
  "filter_run acc s [] = ([], s)"
| "filter_run acc s (c # cs) =
     (let (ok, s') = acc c s; (out, s'') = filter_run acc s' cs
      in (if ok then c # out else out, s''))"

primrec spec_run :: "u64 set \<Rightarrow> u64 list \<Rightarrow> u64 list" where
  "spec_run A [] = []"
| "spec_run A (c # cs) =
     (if spec_accept c A then c # spec_run (insert c A) cs else spec_run A cs)"

locale replay_filter =
  fixes acc :: "'c \<Rightarrow> 's \<Rightarrow> bool \<times> 's"
    and seen :: "'s \<Rightarrow> 'c set \<Rightarrow> bool"
    and start :: 's
  assumes seen_start: "seen start {}"
    and accept_fresh: "seen s A \<Longrightarrow> fst (acc c s) \<Longrightarrow> c \<notin> A"
    and accept_seen: "seen s A \<Longrightarrow> seen (snd (acc c s)) (if fst (acc c s) then insert c A else A)"
begin

lemma run_seen: "seen s A \<Longrightarrow> seen (snd (filter_run acc s cs)) (A \<union> set (fst (filter_run acc s cs)))"
proof (induction cs arbitrary: s A)
  case Nil
  then show ?case by simp
next
  case (Cons c cs)
  from Cons.IH [OF accept_seen [OF Cons.prems, of c]] show ?case
    by (auto simp: case_prod_beta Let_def)
qed

lemma run_distinct:
  "seen s A \<Longrightarrow> distinct (fst (filter_run acc s cs)) \<and> set (fst (filter_run acc s cs)) \<inter> A = {}"
proof (induction cs arbitrary: s A)
  case Nil
  then show ?case by simp
next
  case (Cons c cs)
  from Cons.IH [OF accept_seen [OF Cons.prems, of c]] accept_fresh [OF Cons.prems, of c]
  show ?case by (auto simp: case_prod_beta Let_def split: if_splits)
qed

lemma no_duplicates: "distinct (fst (filter_run acc start cs))"
  using run_distinct [OF seen_start] by blast

end

interpretation window: replay_filter accept window_rel zero_window
proof
  show "window_rel zero_window {}" by (rule window_rel_zero)
next
  fix r A c
  assume "window_rel r A" "fst (accept c r)"
  then show "c \<notin> A" using accept_refines_step [of r A c] by (simp add: spec_accept_def)
next
  fix r A c
  assume "window_rel r A"
  then show "window_rel (snd (accept c r)) (if fst (accept c r) then insert c A else A)"
    using accept_refines_step [of r A c] by simp
qed

lemma filter_run_refines:
  "window_rel r A \<Longrightarrow> fst (filter_run accept r cs) = spec_run A cs"
proof (induction cs arbitrary: r A)
  case Nil
  then show ?case by simp
next
  case (Cons c cs)
  have step: "fst (accept c r) = spec_accept c A"
    "window_rel (snd (accept c r)) (if spec_accept c A then insert c A else A)"
    using accept_refines_step [OF Cons.prems, of c] by auto
  from step(1) Cons.IH [OF step(2)] show ?case
    by (auto simp: case_prod_beta Let_def)
qed

lemma spec_run_all:
  assumes "distinct cs" "0 \<notin> set cs" "set cs \<inter> A = {}"
    and "\<forall>c \<in> set cs. \<forall>a \<in> A. unat a < unat c + 64"
    and "sorted_wrt (\<lambda>c d. unat c < unat d + 64) cs"
  shows "spec_run A cs = cs"
  using assms by (induction cs arbitrary: A) (auto simp: spec_accept_def)

subsection \<open>Properties\<close>

text \<open>C16: over any sequence of received counters the bitmap window accepts exactly the counters
  that the specification (the set of all counters accepted so far) accepts.\<close>

theorem accept_refines: "fst (filter_run accept zero_window cs) = spec_run {} cs"
  by (rule filter_run_refines [OF window_rel_zero])

text \<open>After any history, a counter is accepted if and only if it is not zero, has never been
  accepted, and is less than 64 behind every counter accepted so far.\<close>

lemma accept_iff:
  "fst (accept c (snd (filter_run accept zero_window cs))) \<longleftrightarrow>
     c \<noteq> 0 \<and> c \<notin> set (fst (filter_run accept zero_window cs)) \<and>
     (\<forall>a \<in> set (fst (filter_run accept zero_window cs)). unat a < unat c + 64)"
  using accept_refines_step [OF window.run_seen [OF window_rel_zero]]
  by (simp add: spec_accept_def)

text \<open>No counter is accepted twice, whatever sequence of counters an attacker replays.\<close>

lemma accept_no_replay: "distinct (fst (filter_run accept zero_window cs))"
  by (rule window.no_duplicates)

text \<open>C17: reordering is tolerated: distinct non-zero counters that arrive so that none is
  64 or more behind an earlier one are all accepted, in the order of arrival.\<close>

theorem accept_tolerates_reordering:
  assumes "distinct cs" "0 \<notin> set cs" "sorted_wrt (\<lambda>c d. unat c < unat d + 64) cs"
  shows "fst (filter_run accept zero_window cs) = cs"
  using spec_run_all [OF assms(1,2), of "{}"] assms(3)
  by (simp add: filter_run_refines [OF window_rel_zero])

theorem accept_tolerates_reordering_witness:
  "fst (filter_run accept zero_window [3, 1, 60, 2]) = [3, 1, 60, 2]"
  by (rule accept_tolerates_reordering) simp_all

end
