(* ===== verification/Go_Crypto.thy ===== *)
theory Go_Crypto
  imports Prelude
begin

text \<open>
  The parts of Go's standard library that the session layer is built on, as executable
  definitions: SHA-256 (\<open>crypto/sha256\<close>), HMAC (\<open>crypto/hmac\<close>), the AES-256 block
  cipher (\<open>crypto/aes\<close>) and its GCM mode with a 12-byte nonce and a 16-byte tag
  (\<open>crypto/cipher\<close>). They follow FIPS 180-4, RFC 2104, FIPS 197 and NIST SP 800-38D.

  What the session layer needs of them is proved, not assumed: the length of a MAC, that
  \<open>Open\<close> inverts \<open>Seal\<close>, and that \<open>Open\<close> succeeds on nothing but a sealed message. GCM's
  limit of 64 GiB per message is not modelled: a frame is at most 1 MiB.
\<close>

subsection \<open>SHA-256\<close>

definition sha256_init :: "u32 list" where
  "sha256_init = [
     1779033703, 3144134277, 1013904242, 2773480762, 1359893119, 2600822924,
     528734635, 1541459225]"

definition sha256_k :: "u32 list" where
  "sha256_k = [
     1116352408, 1899447441, 3049323471, 3921009573, 961987163, 1508970993,
     2453635748, 2870763221, 3624381080, 310598401, 607225278, 1426881987,
     1925078388, 2162078206, 2614888103, 3248222580, 3835390401, 4022224774,
     264347078, 604807628, 770255983, 1249150122, 1555081692, 1996064986,
     2554220882, 2821834349, 2952996808, 3210313671, 3336571891, 3584528711,
     113926993, 338241895, 666307205, 773529912, 1294757372, 1396182291,
     1695183700, 1986661051, 2177026350, 2456956037, 2730485921, 2820302411,
     3259730800, 3345764771, 3516065817, 3600352804, 4094571909, 275423344,
     430227734, 506948616, 659060556, 883997877, 958139571, 1322822218,
     1537002063, 1747873779, 1955562222, 2024104815, 2227730452, 2361852424,
     2428436474, 2756734187, 3204031479, 3329325298]"

function chunks :: "nat \<Rightarrow> 'a list \<Rightarrow> 'a list list" where
  "chunks n xs = (if n = 0 \<or> xs = [] then [] else take n xs # chunks n (drop n xs))"
  by pat_completeness auto
termination
  by (relation "measure (\<lambda>(n, xs). length xs)") auto

declare chunks.simps [simp del]

definition sha256_pad :: "bytes \<Rightarrow> bytes" where
  "sha256_pad m =
     m @ 0x80 # replicate (nat ((55 - int (length m)) mod 64)) 0 @ put64 (of_nat (8 * length m))"

definition small_sigma0 :: "u32 \<Rightarrow> u32" where
  "small_sigma0 x = word_rotr 7 x XOR word_rotr 18 x XOR drop_bit 3 x"

definition small_sigma1 :: "u32 \<Rightarrow> u32" where
  "small_sigma1 x = word_rotr 17 x XOR word_rotr 19 x XOR drop_bit 10 x"

definition big_sigma0 :: "u32 \<Rightarrow> u32" where
  "big_sigma0 x = word_rotr 2 x XOR word_rotr 13 x XOR word_rotr 22 x"

definition big_sigma1 :: "u32 \<Rightarrow> u32" where
  "big_sigma1 x = word_rotr 6 x XOR word_rotr 11 x XOR word_rotr 25 x"

primrec sha256_schedule :: "nat \<Rightarrow> u32 list \<Rightarrow> u32 list" where
  "sha256_schedule 0 w = w"
| "sha256_schedule (Suc k) w =
     (let t = length w
      in sha256_schedule k
           (w @ [small_sigma1 (w ! (t - 2)) + w ! (t - 7) + small_sigma0 (w ! (t - 15)) + w ! (t - 16)]))"

fun sha256_round :: "u32 \<times> u32 \<Rightarrow> u32 list \<Rightarrow> u32 list" where
  "sha256_round (k, w) [a, b, c, d, e, f, g, h] =
     (let t1 = h + big_sigma1 e + ((e AND f) XOR ((NOT e) AND g)) + k + w;
          t2 = big_sigma0 a + ((a AND b) XOR (a AND c) XOR (b AND c))
      in [t1 + t2, a, b, c, d + t1, e, f, g])"
| "sha256_round _ s = s"

definition sha256_block :: "bytes \<Rightarrow> u32 list \<Rightarrow> u32 list" where
  "sha256_block blk s =
     (let w = sha256_schedule 48 (map be_get (chunks 4 blk))
      in map2 (+) s (fold sha256_round (zip sha256_k w) s))"

definition sha256 :: "bytes \<Rightarrow> bytes" where
  "sha256 m = concat (map (be_put 4) (fold sha256_block (chunks 64 (sha256_pad m)) sha256_init))"

lemma length_sha256_round [simp]: "length s = 8 \<Longrightarrow> length (sha256_round kw s) = 8"
  by (cases "(kw, s)" rule: sha256_round.cases) (auto simp: Let_def)

lemma length_fold_sha256_round [simp]: "length s = 8 \<Longrightarrow> length (fold sha256_round kws s) = 8"
  by (induction kws arbitrary: s) auto

lemma length_sha256_block [simp]: "length s = 8 \<Longrightarrow> length (sha256_block blk s) = 8"
  by (simp add: sha256_block_def Let_def)

lemma length_fold_sha256_block: "length s = 8 \<Longrightarrow> length (fold sha256_block blks s) = 8"
  by (induction blks arbitrary: s) auto

lemma length_concat_const: "(\<And>x. length (f x) = n) \<Longrightarrow> length (concat (map f xs)) = n * length xs"
  by (induction xs) auto

lemma length_sha256 [simp, codec_simps]: "length (sha256 m) = 32"
  by (simp add: sha256_def length_concat_const [where n = 4] length_fold_sha256_block sha256_init_def)

subsection \<open>HMAC-SHA256\<close>

definition hmac_key :: "bytes \<Rightarrow> bytes" where
  "hmac_key key = (let k = (if length key > 64 then sha256 key else key)
                   in k @ replicate (64 - length k) 0)"

definition hmac_sha256 :: "bytes \<Rightarrow> bytes \<Rightarrow> bytes" where
  "hmac_sha256 key m =
     (let k = hmac_key key
      in sha256 (map ((XOR) 0x5c) k @ sha256 (map ((XOR) 0x36) k @ m)))"

lemma length_hmac_sha256 [simp, codec_simps]: "length (hmac_sha256 key m) = 32"
  by (simp add: hmac_sha256_def Let_def)

subsection \<open>AES-256\<close>

definition aes_sbox :: bytes where
  "aes_sbox = [
     0x63, 0x7c, 0x77, 0x7b, 0xf2, 0x6b, 0x6f, 0xc5, 0x30, 0x1, 0x67, 0x2b,
     0xfe, 0xd7, 0xab, 0x76, 0xca, 0x82, 0xc9, 0x7d, 0xfa, 0x59, 0x47, 0xf0,
     0xad, 0xd4, 0xa2, 0xaf, 0x9c, 0xa4, 0x72, 0xc0, 0xb7, 0xfd, 0x93, 0x26,
     0x36, 0x3f, 0xf7, 0xcc, 0x34, 0xa5, 0xe5, 0xf1, 0x71, 0xd8, 0x31, 0x15,
     0x4, 0xc7, 0x23, 0xc3, 0x18, 0x96, 0x5, 0x9a, 0x7, 0x12, 0x80, 0xe2,
     0xeb, 0x27, 0xb2, 0x75, 0x9, 0x83, 0x2c, 0x1a, 0x1b, 0x6e, 0x5a, 0xa0,
     0x52, 0x3b, 0xd6, 0xb3, 0x29, 0xe3, 0x2f, 0x84, 0x53, 0xd1, 0x0, 0xed,
     0x20, 0xfc, 0xb1, 0x5b, 0x6a, 0xcb, 0xbe, 0x39, 0x4a, 0x4c, 0x58, 0xcf,
     0xd0, 0xef, 0xaa, 0xfb, 0x43, 0x4d, 0x33, 0x85, 0x45, 0xf9, 0x2, 0x7f,
     0x50, 0x3c, 0x9f, 0xa8, 0x51, 0xa3, 0x40, 0x8f, 0x92, 0x9d, 0x38, 0xf5,
     0xbc, 0xb6, 0xda, 0x21, 0x10, 0xff, 0xf3, 0xd2, 0xcd, 0xc, 0x13, 0xec,
     0x5f, 0x97, 0x44, 0x17, 0xc4, 0xa7, 0x7e, 0x3d, 0x64, 0x5d, 0x19, 0x73,
     0x60, 0x81, 0x4f, 0xdc, 0x22, 0x2a, 0x90, 0x88, 0x46, 0xee, 0xb8, 0x14,
     0xde, 0x5e, 0xb, 0xdb, 0xe0, 0x32, 0x3a, 0xa, 0x49, 0x6, 0x24, 0x5c,
     0xc2, 0xd3, 0xac, 0x62, 0x91, 0x95, 0xe4, 0x79, 0xe7, 0xc8, 0x37, 0x6d,
     0x8d, 0xd5, 0x4e, 0xa9, 0x6c, 0x56, 0xf4, 0xea, 0x65, 0x7a, 0xae, 0x8,
     0xba, 0x78, 0x25, 0x2e, 0x1c, 0xa6, 0xb4, 0xc6, 0xe8, 0xdd, 0x74, 0x1f,
     0x4b, 0xbd, 0x8b, 0x8a, 0x70, 0x3e, 0xb5, 0x66, 0x48, 0x3, 0xf6, 0xe,
     0x61, 0x35, 0x57, 0xb9, 0x86, 0xc1, 0x1d, 0x9e, 0xe1, 0xf8, 0x98, 0x11,
     0x69, 0xd9, 0x8e, 0x94, 0x9b, 0x1e, 0x87, 0xe9, 0xce, 0x55, 0x28, 0xdf,
     0x8c, 0xa1, 0x89, 0xd, 0xbf, 0xe6, 0x42, 0x68, 0x41, 0x99, 0x2d, 0xf,
     0xb0, 0x54, 0xbb, 0x16]"

definition sub_byte :: "byte \<Rightarrow> byte" where
  "sub_byte b = aes_sbox ! unat b"

definition xtime :: "byte \<Rightarrow> byte" where
  "xtime b = (if bit b 7 then push_bit 1 b XOR 0x1b else push_bit 1 b)"

definition xor_bytes :: "bytes \<Rightarrow> bytes \<Rightarrow> bytes" where
  "xor_bytes xs ys = map2 (XOR) xs ys"

definition shift_rows :: "bytes \<Rightarrow> bytes" where
  "shift_rows s = map (\<lambda>i. s ! ((i + 4 * (i mod 4)) mod 16)) [0..<16]"

fun mix_column :: "bytes \<Rightarrow> bytes" where
  "mix_column [a, b, c, d] =
     [xtime a XOR (xtime b XOR b) XOR c XOR d,
      a XOR xtime b XOR (xtime c XOR c) XOR d,
      a XOR b XOR xtime c XOR (xtime d XOR d),
      (xtime a XOR a) XOR b XOR c XOR xtime d]"
| "mix_column s = s"

definition mix_columns :: "bytes \<Rightarrow> bytes" where
  "mix_columns s = concat (map mix_column (chunks 4 s))"

primrec aes_expand :: "nat \<Rightarrow> byte \<Rightarrow> bytes list \<Rightarrow> bytes list" where
  "aes_expand 0 rcon w = w"
| "aes_expand (Suc n) rcon w =
     (let i = length w; prev = w ! (i - 1)
      in if i mod 8 = 0 then
           (let t = xor_bytes (map sub_byte (rotate1 prev)) [rcon, 0, 0, 0]
            in aes_expand n (xtime rcon) (w @ [xor_bytes (w ! (i - 8)) t]))
         else if i mod 8 = 4 then
           aes_expand n rcon (w @ [xor_bytes (w ! (i - 8)) (map sub_byte prev)])
         else aes_expand n rcon (w @ [xor_bytes (w ! (i - 8)) prev]))"

text \<open>The 15 round keys of a 32-byte key.\<close>

definition aes_round_keys :: "bytes \<Rightarrow> bytes list" where
  "aes_round_keys key = chunks 16 (concat (aes_expand 52 1 (chunks 4 key)))"

definition aes_round :: "bytes \<Rightarrow> bytes \<Rightarrow> bytes" where
  "aes_round rk s = xor_bytes (mix_columns (shift_rows (map sub_byte s))) rk"

definition aes_encrypt_with :: "bytes list \<Rightarrow> bytes \<Rightarrow> bytes" where
  "aes_encrypt_with rks blk =
     (let s0 = xor_bytes blk (rks ! 0);
          s = fold aes_round (take 13 (drop 1 rks)) s0
      in xor_bytes (shift_rows (map sub_byte s)) (rks ! 14))"

definition aes256_encrypt :: "bytes \<Rightarrow> bytes \<Rightarrow> bytes" where
  "aes256_encrypt key = aes_encrypt_with (aes_round_keys key)"

lemma length_xor_bytes [simp]: "length (xor_bytes xs ys) = min (length xs) (length ys)"
  by (simp add: xor_bytes_def)

lemma chunks_append: "length xs = n \<Longrightarrow> 0 < n \<Longrightarrow> chunks n (xs @ ys) = xs # chunks n ys"
  by (subst chunks.simps) auto

lemma chunks_concat: "0 < n \<Longrightarrow> (\<And>xs. xs \<in> set xss \<Longrightarrow> length xs = n) \<Longrightarrow> chunks n (concat xss) = xss"
proof (induction xss)
  case Nil
  show ?case by (simp add: chunks.simps)
next
  case (Cons xs xss)
  then show ?case by (simp add: chunks_append)
qed

lemma chunks_split:
  "0 < n \<Longrightarrow> length xs = k * n \<Longrightarrow> length (chunks n xs) = k \<and> (\<forall>c \<in> set (chunks n xs). length c = n)"
proof (induction k arbitrary: xs)
  case 0
  then show ?case by (simp add: chunks.simps)
next
  case (Suc k)
  then have len: "length (drop n xs) = k * n" and le: "n \<le> length xs"
    by auto
  then have "xs \<noteq> []" using \<open>0 < n\<close> by auto
  then have eq: "chunks n xs = take n xs # chunks n (drop n xs)"
    using \<open>0 < n\<close> by (simp only: chunks.simps [of n xs]) simp
  have tl: "length (chunks n (drop n xs)) = k" "\<forall>c \<in> set (chunks n (drop n xs)). length c = n"
    using Suc.IH [OF \<open>0 < n\<close> len] by blast+
  have hd: "length (take n xs) = n" using le by (simp only: length_take min_absorb2)
  show ?case unfolding eq using tl hd by (metis length_Cons set_ConsD)
qed

lemma aes_expand_lengths:
  "list_all (\<lambda>c. length c = 4) w \<Longrightarrow> 8 \<le> length w \<Longrightarrow>
     length (aes_expand n r w) = n + length w \<and> list_all (\<lambda>c. length c = 4) (aes_expand n r w)"
proof (induction n arbitrary: r w)
  case 0
  then show ?case by simp
next
  case (Suc n)
  have nth: "length (w ! i) = 4" if "i < length w" for i
    using Suc.prems(1) that by (simp add: list_all_length)
  have "length (w ! (length w - Suc 0)) = 4" "length (w ! (length w - 8)) = 4"
    using Suc.prems(2) by (auto intro!: nth)
  with Suc show ?case by (simp add: Let_def)
qed

lemma aes_round_keys_lengths:
  assumes "length key = 32"
  shows "length (aes_round_keys key) = 15 \<and> (\<forall>rk \<in> set (aes_round_keys key). length rk = 16)"
proof -
  from assms have "length (chunks 4 key) = 8 \<and> (\<forall>c \<in> set (chunks 4 key). length c = 4)"
    using chunks_split [of 4 key 8] by simp
  then have "length (aes_expand 52 1 (chunks 4 key)) = 60
      \<and> list_all (\<lambda>c. length c = 4) (aes_expand 52 1 (chunks 4 key))"
    using aes_expand_lengths [of "chunks 4 key" 52 1] by (simp add: list_all_iff)
  then have "map length (aes_expand 52 1 (chunks 4 key)) = replicate 60 4"
    by (simp add: list_eq_iff_nth_eq list_all_length)
  then have "length (concat (aes_expand 52 1 (chunks 4 key))) = 15 * 16"
    by (simp add: length_concat sum_list_replicate)
  from chunks_split [OF _ this] show ?thesis
    by (simp add: aes_round_keys_def)
qed

lemma length_aes256_encrypt: "length key = 32 \<Longrightarrow> length (aes256_encrypt key blk) = 16"
  using aes_round_keys_lengths [of key]
  by (simp add: aes256_encrypt_def aes_encrypt_with_def Let_def shift_rows_def)

subsection \<open>GCM\<close>

text \<open>Multiplication in the field of 128-bit blocks; the first bit of a block is bit 127 of the word.\<close>

primrec gf_mult_loop :: "nat \<Rightarrow> 128 word \<Rightarrow> 128 word \<Rightarrow> 128 word \<Rightarrow> 128 word" where
  "gf_mult_loop 0 x v z = z"
| "gf_mult_loop (Suc i) x v z =
     gf_mult_loop i x
       (if bit v 0 then drop_bit 1 v XOR push_bit 120 0xe1 else drop_bit 1 v)
       (if bit x i then z XOR v else z)"

definition gf_mult :: "128 word \<Rightarrow> 128 word \<Rightarrow> 128 word" where
  "gf_mult x y = gf_mult_loop 128 x y 0"

definition pad16 :: "bytes \<Rightarrow> bytes" where
  "pad16 xs = xs @ replicate (nat ((- int (length xs)) mod 16)) 0"

definition ghash :: "bytes \<Rightarrow> bytes \<Rightarrow> 128 word" where
  "ghash h xs = fold (\<lambda>b y. gf_mult (y XOR be_get b) (be_get h)) (chunks 16 xs) 0"

text \<open>The GCM functions take the block cipher \<open>e\<close> under a fixed key as an argument.\<close>

definition keystream :: "(bytes \<Rightarrow> bytes) \<Rightarrow> bytes \<Rightarrow> nat \<Rightarrow> bytes" where
  "keystream e nonce n =
     take n (concat (map (\<lambda>i. e (nonce @ put32 (of_nat (i + 2)))) [0..<(n + 15) div 16]))"

definition gcm_tag :: "(bytes \<Rightarrow> bytes) \<Rightarrow> bytes \<Rightarrow> bytes \<Rightarrow> bytes \<Rightarrow> bytes" where
  "gcm_tag e nonce ad ct =
     xor_bytes
       (be_put 16 (ghash (e (replicate 16 0))
          (pad16 ad @ pad16 ct @ put64 (of_nat (8 * length ad)) @ put64 (of_nat (8 * length ct)))))
       (e (nonce @ put32 1))"

definition gcm_seal :: "(bytes \<Rightarrow> bytes) \<Rightarrow> bytes \<Rightarrow> bytes \<Rightarrow> bytes \<Rightarrow> bytes" where
  "gcm_seal e nonce pt ad =
     (let ct = xor_bytes pt (keystream e nonce (length pt))
      in ct @ gcm_tag e nonce ad ct)"

definition gcm_open :: "(bytes \<Rightarrow> bytes) \<Rightarrow> bytes \<Rightarrow> bytes \<Rightarrow> bytes \<Rightarrow> bytes option" where
  "gcm_open e nonce c ad =
     (if length c < 16 then None
      else
        (let n = length c - 16; ct = take n c
         in if drop n c = gcm_tag e nonce ad ct
            then Some (xor_bytes ct (keystream e nonce n))
            else None))"

lemma length_keystream:
  assumes "\<And>b. length (e b) = 16"
  shows "length (keystream e nonce n) = n"
proof -
  have "length (concat (map (\<lambda>i. e (nonce @ put32 (of_nat (i + 2)))) [0..<(n + 15) div 16]))
    = 16 * ((n + 15) div 16)"
    by (simp add: length_concat_const [where n = 16] assms)
  then show ?thesis by (simp add: keystream_def)
qed

lemma length_gcm_tag: "(\<And>b. length (e b) = 16) \<Longrightarrow> length (gcm_tag e nonce ad ct) = 16"
  by (simp add: gcm_tag_def)

lemma xor_bytes_invol: "length xs \<le> length ks \<Longrightarrow> xor_bytes (xor_bytes xs ks) ks = xs"
  by (induction xs ks rule: list_induct2') (auto simp: xor_bytes_def xor.assoc)

lemma length_gcm_seal:
  "(\<And>b. length (e b) = 16) \<Longrightarrow> length (gcm_seal e nonce pt ad) = length pt + 16"
  by (simp add: gcm_seal_def Let_def length_keystream length_gcm_tag)

lemma gcm_open_seal:
  "(\<And>b. length (e b) = 16) \<Longrightarrow> gcm_open e nonce (gcm_seal e nonce pt ad) ad = Some pt"
  by (simp add: gcm_open_def gcm_seal_def Let_def length_keystream length_gcm_tag xor_bytes_invol)

text \<open>A message that opens is the sealed form of its plaintext: GCM is injective per nonce.\<close>

lemma gcm_open_SomeD:
  assumes e: "\<And>b. length (e b) = 16" and "gcm_open e nonce c ad = Some pt"
  shows "c = gcm_seal e nonce pt ad"
proof -
  let ?n = "length c - 16" let ?ct = "take ?n c"
  have len: "16 \<le> length c" and tag: "drop ?n c = gcm_tag e nonce ad ?ct"
    and pt: "pt = xor_bytes ?ct (keystream e nonce ?n)"
    using assms(2) by (auto simp: gcm_open_def Let_def split: if_splits)
  have "length pt = ?n" using pt by (simp add: length_keystream [OF e])
  then have "xor_bytes pt (keystream e nonce (length pt)) = ?ct"
    by (simp add: pt xor_bytes_invol length_keystream [OF e])
  with tag have "gcm_seal e nonce pt ad = ?ct @ drop ?n c"
    by (simp add: gcm_seal_def Let_def)
  then show ?thesis by simp
qed

end
