(* ===== verification/Session.thy ===== *)
theory Session
  imports Replay Go_Crypto Go_Time
begin

text \<open>
  Session keys and session objects (\<open>crypto.go\<close>). A \<open>cipher.AEAD\<close> is AES-256-GCM under a key;
  \<open>deriveSession\<close> derives one key per direction from the pre-shared key and the two handshake
  nonces. \<open>time.Now()\<close> is an argument \<open>now\<close>.

  The locale \<open>aead_scheme\<close> states what the transport relies on of an AEAD; it is interpreted on
  AES-256-GCM.
\<close>

subsection \<open>AEAD\<close>

datatype aead = AES_GCM (aead_key: bytes)

definition Seal :: "aead \<Rightarrow> bytes \<Rightarrow> bytes \<Rightarrow> bytes \<Rightarrow> bytes" where
  "Seal a nonce pt ad = gcm_seal (aes256_encrypt (aead_key a)) nonce pt ad"

definition Open :: "aead \<Rightarrow> bytes \<Rightarrow> bytes \<Rightarrow> bytes \<Rightarrow> bytes option" where
  "Open a nonce ct ad = gcm_open (aes256_encrypt (aead_key a)) nonce ct ad"

definition Overhead :: "aead \<Rightarrow> nat" where
  "Overhead a = 16"

definition good_aead :: "aead \<Rightarrow> bool" where
  "good_aead a \<longleftrightarrow> length (aead_key a) = 32"

locale aead_scheme =
  fixes seal :: "'k \<Rightarrow> bytes \<Rightarrow> bytes \<Rightarrow> bytes \<Rightarrow> bytes"
    and opn :: "'k \<Rightarrow> bytes \<Rightarrow> bytes \<Rightarrow> bytes \<Rightarrow> bytes option"
    and overhead :: "'k \<Rightarrow> nat"
    and good :: "'k \<Rightarrow> bool"
  assumes open_seal: "good k \<Longrightarrow> opn k n (seal k n p a) a = Some p"
    and open_SomeD: "good k \<Longrightarrow> opn k n c a = Some p \<Longrightarrow> c = seal k n p a"
    and length_seal: "good k \<Longrightarrow> length (seal k n p a) = length p + overhead k"
begin

lemma seal_inject: "good k \<Longrightarrow> seal k n p a = seal k n q a \<longleftrightarrow> p = q"
  by (metis open_seal option.inject)

lemma open_iff: "good k \<Longrightarrow> opn k n c a = Some p \<longleftrightarrow> c = seal k n p a"
  using open_seal open_SomeD by blast

lemma open_short: "good k \<Longrightarrow> length c < overhead k \<Longrightarrow> opn k n c a = None"
  using open_SomeD [of k n c a] length_seal [of k n _ a] by (cases "opn k n c a") fastforce+

end

interpretation gcm: aead_scheme Seal Open Overhead good_aead
  by unfold_locales
    (auto simp: Seal_def Open_def Overhead_def good_aead_def length_aes256_encrypt
      gcm_open_seal length_gcm_seal dest: gcm_open_SomeD [rotated])

subsection \<open>Session objects\<close>

record session =
  txAEAD :: aead
  rxAEAD :: aead
  s_peer :: string
  s_created :: instant
  s_tx :: u64
  s_replay :: replayWindow
  lastSeen :: int
  txBytes :: u64
  rxBytes :: u64
  s_metrics :: bool \<comment> \<open>whether the pointer to the tunnel's metrics is set\<close>

definition touch :: "instant \<Rightarrow> session \<Rightarrow> session" where
  "touch now s = s\<lparr>lastSeen := unix_nano now\<rparr>"

definition age :: "instant \<Rightarrow> session \<Rightarrow> duration" where
  "age now s = since now (s_created s)"

definition idle :: "instant \<Rightarrow> session \<Rightarrow> duration" where
  "idle now s = (if lastSeen s = 0 then hour else since_wall now (lastSeen s))"

definition derive :: "bytes \<Rightarrow> bytes \<Rightarrow> bytes \<Rightarrow> string \<Rightarrow> bytes" where
  "derive psk cn sn label = hmac_sha256 psk (bytes_of (''hashshashin/v1/'' @ label) @ cn @ sn)"

text \<open>\<open>aes.NewCipher\<close> rejects a key of the wrong size.\<close>

datatype crypto_error = KeySizeError nat

definition makeAEAD :: "bytes \<Rightarrow> crypto_error + aead" where
  "makeAEAD key = (let k = take 32 key
                   in if length k = 32 then Inr (AES_GCM k) else Inl (KeySizeError (length k)))"

definition deriveSession ::
  "bytes \<Rightarrow> bytes \<Rightarrow> bytes \<Rightarrow> string \<Rightarrow> bool \<Rightarrow> instant \<Rightarrow> crypto_error + session" where
  "deriveSession psk cn sn peer initiator now =
     (case makeAEAD (derive psk cn sn ''c2s'') of
        Inl e \<Rightarrow> Inl e
      | Inr c2s \<Rightarrow>
          (case makeAEAD (derive psk cn sn ''s2c'') of
             Inl e \<Rightarrow> Inl e
           | Inr s2c \<Rightarrow>
               Inr (touch now
                 \<lparr>txAEAD = (if initiator then c2s else s2c),
                  rxAEAD = (if initiator then s2c else c2s),
                  s_peer = peer, s_created = now, s_tx = 0, s_replay = zero_window,
                  lastSeen = 0, txBytes = 0, rxBytes = 0, s_metrics = False\<rparr>)))"

definition makeNonce :: "u64 \<Rightarrow> bytes" where
  "makeNonce counter = replicate 4 0 @ put64 counter"

lemma length_makeNonce [simp]: "length (makeNonce c) = 12"
  by (simp add: makeNonce_def)

lemma makeNonce_inject [simp]: "makeNonce c = makeNonce d \<longleftrightarrow> c = d"
  by (simp add: makeNonce_def)

subsection \<open>Key derivation always succeeds\<close>

lemma length_derive [simp]: "length (derive psk cn sn l) = 32"
  by (simp add: derive_def)

lemma makeAEAD_derive [simp]:
  "makeAEAD (derive psk cn sn l) = Inr (AES_GCM (derive psk cn sn l))"
  by (simp add: makeAEAD_def)

definition fresh_session :: "bytes \<Rightarrow> bytes \<Rightarrow> bytes \<Rightarrow> string \<Rightarrow> bool \<Rightarrow> instant \<Rightarrow> session" where
  "fresh_session psk cn sn peer initiator now =
     \<lparr>txAEAD = AES_GCM (derive psk cn sn (if initiator then ''c2s'' else ''s2c'')),
      rxAEAD = AES_GCM (derive psk cn sn (if initiator then ''s2c'' else ''c2s'')),
      s_peer = peer, s_created = now, s_tx = 0, s_replay = zero_window,
      lastSeen = unix_nano now, txBytes = 0, rxBytes = 0, s_metrics = False\<rparr>"

lemma deriveSession_eq:
  "deriveSession psk cn sn peer initiator now = Inr (fresh_session psk cn sn peer initiator now)"
  by (simp add: deriveSession_def fresh_session_def touch_def)

text \<open>The invariant of a session object: two 32-byte keys, and a replay window that represents
  some set of accepted counters.\<close>

definition good_session :: "session \<Rightarrow> bool" where
  "good_session s \<longleftrightarrow>
     good_aead (txAEAD s) \<and> good_aead (rxAEAD s) \<and> (\<exists>A. window_rel (s_replay s) A)"

lemma good_fresh_session [simp]: "good_session (fresh_session psk cn sn peer i now)"
  using window_rel_zero by (auto simp: good_session_def fresh_session_def good_aead_def)

lemma fresh_session_simps [simp]:
  "s_tx (fresh_session psk cn sn peer i now) = 0"
  "s_replay (fresh_session psk cn sn peer i now) = zero_window"
  "s_peer (fresh_session psk cn sn peer i now) = peer"
  "s_created (fresh_session psk cn sn peer i now) = now"
  by (simp_all add: fresh_session_def)

subsection \<open>Properties\<close>

text \<open>The two ends of a handshake derive matching keys: whatever one end seals, the other
  end opens to the same bytes, in both directions, for every counter and header.\<close>

lemma deriveSession_directions:
  "\<exists>c s. deriveSession psk cn sn pc True now = Inr c \<and> deriveSession psk cn sn ps False now' = Inr s \<and>
     (\<forall>n p a. Open (rxAEAD s) n (Seal (txAEAD c) n p a) a = Some p) \<and>
     (\<forall>n p a. Open (rxAEAD c) n (Seal (txAEAD s) n p a) a = Some p)"
  by (auto simp: deriveSession_eq fresh_session_def good_aead_def intro!: gcm.open_seal)

end
