(* ===== verification/Tunnel_State.thy ===== *)
theory Tunnel_State
  imports Session
begin

text \<open>
  The shared state of a running node (\<open>transport.go\<close>, \<open>tunnelState\<close>) and its methods, including
  the probe acknowledgement channel (\<open>smart_return.go\<close>).

  Sessions are heap objects that goroutines keep pointers to after the current session has been
  replaced, so the state holds a store \<open>heap\<close> from session addresses to session objects, and
  the field \<open>st_session\<close> is an address (\<open>None\<close> for a nil pointer). Each method holds its mutex
  for its whole body, so it is one atomic step. The channel \<open>probeAck\<close> is \<open>None\<close> while nil, and
  otherwise the list of buffered nonces, oldest first; its capacity is 32.
\<close>

record helloRecord =
  h_expires :: instant
  h_ack :: bytes

record runtimeMetrics =
  dataTxBytes :: u64
  dataRxBytes :: u64
  dataTxPackets :: u64
  dataRxPackets :: u64
  controlTxBytes :: u64
  controlRxBytes :: u64
  controlTxPkts :: u64
  controlRxPkts :: u64
  sendErrors :: u64
  decryptErrors :: u64
  replayDrops :: u64
  noSessionDrops :: u64
  tunReadErrors :: u64

definition zero_metrics :: runtimeMetrics where
  "zero_metrics = \<lparr>dataTxBytes = 0, dataRxBytes = 0, dataTxPackets = 0, dataRxPackets = 0,
     controlTxBytes = 0, controlRxBytes = 0, controlTxPkts = 0, controlRxPkts = 0,
     sendErrors = 0, decryptErrors = 0, replayDrops = 0, noSessionDrops = 0, tunReadErrors = 0\<rparr>"

type_synonym sid = nat

record tunnelState =
  st_session :: "sid option"
  heap :: "sid \<rightharpoonup> session"
  next_sid :: sid
  pending :: bytes
  pendingSet :: bool
  hellos :: "bytes \<rightharpoonup> helloRecord"
  probeAck :: "bytes list option"
  st_metrics :: runtimeMetrics

definition init_state :: tunnelState where
  "init_state = \<lparr>st_session = None, heap = Map.empty, next_sid = 0, pending = replicate 32 0,
     pendingSet = False, hellos = Map.empty, probeAck = None, st_metrics = zero_metrics\<rparr>"

subsection \<open>Session pointer\<close>

definition loadSession :: "tunnelState \<Rightarrow> sid option" where
  "loadSession st = st_session st"

definition new_session :: "session \<Rightarrow> tunnelState \<Rightarrow> sid \<times> tunnelState" where
  "new_session s st = (next_sid st, st\<lparr>heap := (heap st)(next_sid st \<mapsto> s), next_sid := next_sid st + 1\<rparr>)"

definition update_session :: "sid \<Rightarrow> (session \<Rightarrow> session) \<Rightarrow> tunnelState \<Rightarrow> tunnelState" where
  "update_session i f st = st\<lparr>heap := (heap st)(i := map_option f (heap st i))\<rparr>"

definition storeSession :: "sid option \<Rightarrow> tunnelState \<Rightarrow> tunnelState" where
  "storeSession v st =
     (let st = (case v of None \<Rightarrow> st | Some i \<Rightarrow> update_session i (\<lambda>s. s\<lparr>s_metrics := True\<rparr>) st)
      in st\<lparr>st_session := v\<rparr>)"

definition clearIf :: "sid \<Rightarrow> tunnelState \<Rightarrow> bool \<times> tunnelState" where
  "clearIf v st = (if st_session st \<noteq> Some v then (False, st) else (True, st\<lparr>st_session := None\<rparr>))"

subsection \<open>Metrics\<close>

definition update_metrics :: "(runtimeMetrics \<Rightarrow> runtimeMetrics) \<Rightarrow> tunnelState \<Rightarrow> tunnelState" where
  "update_metrics f st = st\<lparr>st_metrics := f (st_metrics st)\<rparr>"

lemmas state_ops = new_session_def update_session_def storeSession_def loadSession_def
  update_metrics_def

subsection \<open>Probe acknowledgements\<close>

definition probe_cap :: nat where "probe_cap = 32"

definition initProbeAck :: "tunnelState \<Rightarrow> tunnelState" where
  "initProbeAck st = (if probeAck st = None then st\<lparr>probeAck := Some []\<rparr> else st)"

text \<open>A send that would block is dropped (\<open>select\<close> with \<open>default\<close>).\<close>

definition notifyProbeAck :: "bytes \<Rightarrow> tunnelState \<Rightarrow> tunnelState" where
  "notifyProbeAck nonce st =
     (case probeAck st of
        None \<Rightarrow> st
      | Some ch \<Rightarrow> if length ch < probe_cap then st\<lparr>probeAck := Some (ch @ [nonce])\<rparr> else st)"

text \<open>
  \<open>waitProbeAck\<close> blocks in a \<open>select\<close> over the context, a timer and the channel. A wake-up of the
  select is one event; \<open>Others f\<close> is what other goroutines do to the state while it blocks. The
  result is \<open>None\<close> while the call has not returned. A receive is only ready when the channel is
  not empty.
\<close>

datatype wait_event =
    CtxDone
  | TimerFired
  | Received
  | Others "tunnelState \<Rightarrow> tunnelState"

fun wait_loop :: "bytes \<Rightarrow> wait_event list \<Rightarrow> tunnelState \<Rightarrow> bool option \<times> tunnelState" where
  "wait_loop nonce [] st = (None, st)"
| "wait_loop nonce (CtxDone # es) st = (Some False, st)"
| "wait_loop nonce (TimerFired # es) st = (Some False, st)"
| "wait_loop nonce (Received # es) st =
     (case probeAck st of
        Some (got # ch) \<Rightarrow>
          (let st = st\<lparr>probeAck := Some ch\<rparr>
           in if got = nonce then (Some True, st) else wait_loop nonce es st)
      | _ \<Rightarrow> wait_loop nonce es st)"
| "wait_loop nonce (Others f # es) st = wait_loop nonce es (f st)"

definition waitProbeAck :: "bytes \<Rightarrow> wait_event list \<Rightarrow> tunnelState \<Rightarrow> bool option \<times> tunnelState" where
  "waitProbeAck nonce es st = wait_loop nonce es (initProbeAck st)"

subsection \<open>Well-formed states\<close>

text \<open>
  The pointer to the current session is never dangling, addresses are allocated in order, every
  session has two 32-byte keys, and the acknowledgement channel respects its capacity.
\<close>

definition wf_state :: "tunnelState \<Rightarrow> bool" where
  "wf_state st \<longleftrightarrow>
     (\<forall>i. st_session st = Some i \<longrightarrow> (\<exists>s. heap st i = Some s \<and> s_metrics s)) \<and>
     (\<forall>i s. heap st i = Some s \<longrightarrow> i < next_sid st \<and> good_session s) \<and>
     (\<forall>ch. probeAck st = Some ch \<longrightarrow> length ch \<le> probe_cap)"

lemma wf_init [simp]: "wf_state init_state"
  by (simp add: wf_state_def init_state_def)

lemma wf_update_session:
  assumes "wf_state st" "\<And>s. good_session s \<Longrightarrow> good_session (f s)" "\<And>s. s_metrics s \<Longrightarrow> s_metrics (f s)"
  shows "wf_state (update_session i f st)"
  using assms by (fastforce simp: wf_state_def update_session_def split: if_splits)

lemma wf_update_metrics [simp]: "wf_state (update_metrics f st) \<longleftrightarrow> wf_state st"
  by (simp add: wf_state_def update_metrics_def)

lemma wf_new_session: "wf_state st \<Longrightarrow> good_session s \<Longrightarrow> wf_state (snd (new_session s st))"
  by (fastforce simp: wf_state_def new_session_def)

lemma wf_store_new:
  "wf_state st \<Longrightarrow> good_session s \<Longrightarrow>
     wf_state (storeSession (Some (fst (new_session s st))) (snd (new_session s st)))"
  by (fastforce simp: wf_state_def state_ops good_session_def)

lemma wf_clearIf: "wf_state st \<Longrightarrow> wf_state (snd (clearIf i st))"
  by (simp add: wf_state_def clearIf_def)

lemma wf_initProbeAck: "wf_state st \<Longrightarrow> wf_state (initProbeAck st)"
  by (simp add: wf_state_def initProbeAck_def)

lemma wf_notifyProbeAck: "wf_state st \<Longrightarrow> wf_state (notifyProbeAck n st)"
  by (auto simp: wf_state_def notifyProbeAck_def split: option.splits)

lemma wf_state_heap: "wf_state st \<Longrightarrow> heap st i = Some s \<Longrightarrow> good_session s"
  by (simp add: wf_state_def)

lemma wf_state_current: "wf_state st \<Longrightarrow> st_session st = Some i \<Longrightarrow>
    \<exists>s. heap st i = Some s \<and> good_session s \<and> s_metrics s"
  by (fastforce simp: wf_state_def)

end
