(* ===== verification/Transport.thy ===== *)
theory Transport
  imports Tunnel_State Carrier
begin

text \<open>
  The HSH1 transport (\<open>transport.go\<close>): hello and hello-ack messages, the encrypted packet
  format, the receive dispatcher, the supervisors, and the TUN send loop (\<open>main.go\<close>).

  A node is the shared state, the carrier, the TUN writer and the pool of packet buffers. The
  functions take the carrier's method table \<open>ops\<close> and the TUN device's write method \<open>tw\<close>;
  \<open>time.Now()\<close> and the bytes of \<open>rand.Read\<close> (\<open>None\<close> for its error) are arguments.
  Handlers run at one instant. Log output is not modelled.
\<close>

definition magic :: string where "magic = ''HSH1''"
definition msgHello :: byte where "msgHello = 1"
definition msgHelloAck :: byte where "msgHelloAck = 2"
definition msgData :: byte where "msgData = 3"
definition msgKeepalive :: byte where "msgKeepalive = 4"
definition msgDirectProbeAck :: byte where "msgDirectProbeAck = 5"
definition transportMark :: int where "transportMark = 0x77"

lemmas msg_defs = msgHello_def msgHelloAck_def msgData_def msgKeepalive_def msgDirectProbeAck_def

lemma length_magic [simp]: "length magic = 4"
  by (simp add: magic_def)

record ('c, 't) node =
  n_st :: tunnelState
  n_carrier :: 'c
  n_tun :: 't
  n_pool :: "bytes list"

abbreviation on_state :: "(tunnelState \<Rightarrow> tunnelState) \<Rightarrow> ('c, 't) node \<Rightarrow> ('c, 't) node" where
  "on_state f n \<equiv> n\<lparr>n_st := f (n_st n)\<rparr>"

definition write_packet ::
  "'c packetCarrier \<Rightarrow> bytes \<Rightarrow> string \<Rightarrow> ('c, 't) node \<Rightarrow> carrier_error option \<times> ('c, 't) node" where
  "write_packet ops p peer n =
     (let (err, c) = WritePacket ops p peer (n_carrier n) in (err, n\<lparr>n_carrier := c\<rparr>))"

lemma write_packet_keeps [simp]:
  "n_st (snd (write_packet ops p peer n)) = n_st n"
  "n_tun (snd (write_packet ops p peer n)) = n_tun n"
  "n_pool (snd (write_packet ops p peer n)) = n_pool n"
  by (simp_all add: write_packet_def case_prod_beta Let_def)

subsection \<open>Handshake messages\<close>

definition makeHello :: "bytes \<Rightarrow> bytes \<Rightarrow> instant \<Rightarrow> bytes" where
  "makeHello key cn now =
     (let p = bytes_of magic @ msgHello # put64 (word_of_int (unix_sec now)) @ cn
      in p @ hmac_sha256 key p)"

definition makeHelloAck :: "bytes \<Rightarrow> bytes \<Rightarrow> bytes \<Rightarrow> bytes" where
  "makeHelloAck key cn sn =
     (let p = bytes_of magic @ msgHelloAck # cn @ sn
      in p @ hmac_sha256 key p)"

text \<open>Expired hello records are dropped, as the loop over the map does.\<close>

definition expire_hellos :: "instant \<Rightarrow> (bytes \<rightharpoonup> helloRecord) \<Rightarrow> (bytes \<rightharpoonup> helloRecord)" where
  "expire_hellos now m =
     (\<lambda>k. case m k of None \<Rightarrow> None | Some v \<Rightarrow> if time_after now (h_expires v) then None else Some v)"

definition hello_valid :: "bytes \<Rightarrow> bytes \<Rightarrow> instant \<Rightarrow> bool" where
  "hello_valid key p now \<longleftrightarrow>
     length p = 77 \<and> hmac_sha256 key (take 45 p) = gslice 45 77 p \<and>
     (let ts = sint (get64 (gslice 5 13 p)); skew = since_wall now (unix_ns ts)
      in \<not> (skew > 90 * second \<or> skew < - 90 * second))"

definition handleHello ::
  "'c packetCarrier \<Rightarrow> string \<Rightarrow> bytes \<Rightarrow> bytes \<Rightarrow> instant \<Rightarrow> bytes option \<Rightarrow> ('c, 't) node \<Rightarrow> ('c, 't) node" where
  "handleHello ops peer p key now rnd n =
     (if \<not> hello_valid key p now then n
      else
        (let cn = gslice 13 45 p;
             n = on_state (\<lambda>st. st\<lparr>hellos := expire_hellos now (hellos st)\<rparr>) n
         in case hellos (n_st n) cn of
              Some old \<Rightarrow> snd (write_packet ops (h_ack old) peer n)
            | None \<Rightarrow>
                (case rnd of
                   None \<Rightarrow> n
                 | Some sn \<Rightarrow>
                     (case deriveSession key cn sn peer False now of
                        Inl _ \<Rightarrow> n
                      | Inr ss \<Rightarrow>
                          (let ack = makeHelloAck key cn sn;
                               st = (n_st n)\<lparr>hellos := (hellos (n_st n))
                                 (cn \<mapsto> \<lparr>h_expires = time_add now (2 * minute), h_ack = ack\<rparr>)\<rparr>;
                               (i, st) = new_session ss st;
                               st = storeSession (Some i) st
                           in snd (write_packet ops ack peer (n\<lparr>n_st := st\<rparr>)))))))"

definition helloAck_valid :: "bytes \<Rightarrow> bytes \<Rightarrow> bool" where
  "helloAck_valid key p \<longleftrightarrow>
     length p = 101 \<and> hmac_sha256 key (take 69 p) = gslice 69 101 p"

definition handleHelloAck :: "string \<Rightarrow> bytes \<Rightarrow> bytes \<Rightarrow> instant \<Rightarrow> tunnelState \<Rightarrow> tunnelState" where
  "handleHelloAck peer p key now st =
     (if \<not> helloAck_valid key p then st
      else
        (let cn = gslice 5 37 p; ok = (pendingSet st \<and> pending st = cn)
         in if \<not> ok then st
            else
              (let st = st\<lparr>pendingSet := False\<rparr>
               in case deriveSession key (gslice 5 37 p) (gslice 37 69 p) peer True now of
                    Inl _ \<Rightarrow> st
                  | Inr ss \<Rightarrow> (let (i, st) = new_session ss st in storeSession (Some i) st))))"

subsection \<open>Encrypted packets\<close>

text \<open>
  \<open>overwrite i src buf\<close> is \<open>copy(buf[i:], src)\<close>. \<open>buildPacket\<close> fills a buffer of the pool, whose
  backing array may hold bytes of an earlier packet, and appends the sealed payload in place; it
  returns the packet and the backing array afterwards.
\<close>

definition overwrite :: "nat \<Rightarrow> bytes \<Rightarrow> bytes \<Rightarrow> bytes" where
  "overwrite i src buf = take i buf @ src @ drop (i + length src) buf"

definition buildPacket :: "aead \<Rightarrow> byte \<Rightarrow> u64 \<Rightarrow> bytes \<Rightarrow> bytes \<Rightarrow> bytes \<times> bytes" where
  "buildPacket a typ counter payload backing =
     (let need = 13 + length payload + Overhead a;
          backing = (if length backing < need then replicate need 0 else backing);
          buf = take 13 backing;
          buf = overwrite 0 (bytes_of magic) buf;
          buf = overwrite 4 [typ] buf;
          buf = overwrite 5 (put64 counter) buf;
          packet = buf @ Seal a (makeNonce counter) payload buf
      in (packet, packet @ drop (length packet) backing))"

definition pool_get :: "bytes list \<Rightarrow> bytes \<times> bytes list" where
  "pool_get pool = (case pool of [] \<Rightarrow> (replicate (65536 + 128) 0, []) | b # bs \<Rightarrow> (b, bs))"

definition pool_put :: "bytes \<Rightarrow> bytes list \<Rightarrow> bytes list" where
  "pool_put backing pool = (if length backing \<le> maxCarrierFrame + 128 then backing # pool else pool)"

text \<open>The atomic increment of the send counter, and the accounting after the write.\<close>

definition next_counter :: "sid \<Rightarrow> tunnelState \<Rightarrow> u64 \<times> tunnelState" where
  "next_counter i st =
     (case heap st i of
        None \<Rightarrow> (0, st)
      | Some s \<Rightarrow> (s_tx s + 1, update_session i (\<lambda>s. s\<lparr>s_tx := s_tx s + 1\<rparr>) st))"

definition count_sent :: "byte \<Rightarrow> nat \<Rightarrow> runtimeMetrics \<Rightarrow> runtimeMetrics" where
  "count_sent typ len m =
     (if typ = msgData
      then m\<lparr>dataTxBytes := dataTxBytes m + of_nat len, dataTxPackets := dataTxPackets m + 1\<rparr>
      else m\<lparr>controlTxBytes := controlTxBytes m + of_nat len, controlTxPkts := controlTxPkts m + 1\<rparr>)"

definition account_send :: "sid \<Rightarrow> byte \<Rightarrow> nat \<Rightarrow> carrier_error option \<Rightarrow> tunnelState \<Rightarrow> tunnelState" where
  "account_send i typ len err st =
     (case heap st i of
        None \<Rightarrow> st
      | Some s \<Rightarrow>
          (if err = None then
             (let st = update_session i (\<lambda>s. s\<lparr>txBytes := txBytes s + of_nat len\<rparr>) st
              in if s_metrics s then update_metrics (count_sent typ len) st else st)
           else if s_metrics s then update_metrics (\<lambda>m. m\<lparr>sendErrors := sendErrors m + 1\<rparr>) st
           else st))"

definition sendEncrypted ::
  "'c packetCarrier \<Rightarrow> sid \<Rightarrow> byte \<Rightarrow> bytes \<Rightarrow> ('c, 't) node \<Rightarrow> carrier_error option \<times> ('c, 't) node" where
  "sendEncrypted ops i typ payload n =
     (case heap (n_st n) i of
        None \<Rightarrow> (None, n)
      | Some s \<Rightarrow>
          (let (counter, st) = next_counter i (n_st n);
               (backing, pool) = pool_get (n_pool n);
               (packet, backing) = buildPacket (txAEAD s) typ counter payload backing;
               (err, n) = write_packet ops packet (s_peer s) (n\<lparr>n_st := st\<rparr>)
           in (err, n\<lparr>n_st := account_send i typ (length payload) err (n_st n),
                      n_pool := pool_put backing pool\<rparr>)))"

definition handleEncrypted ::
  "(bytes \<Rightarrow> 't \<Rightarrow> 't) \<Rightarrow> string \<Rightarrow> bytes \<Rightarrow> instant \<Rightarrow> ('c, 't) node \<Rightarrow> ('c, 't) node" where
  "handleEncrypted tw peer p now n =
     (if length p < 29 then n
      else
        (case loadSession (n_st n) of
           None \<Rightarrow> n
         | Some i \<Rightarrow>
             (case heap (n_st n) i of
                None \<Rightarrow> n
              | Some ss \<Rightarrow>
                  if peer \<noteq> s_peer ss then n
                  else
                    (let counter = get64 (gslice 5 13 p)
                     in case Open (rxAEAD ss) (makeNonce counter) (drop 13 p) (take 13 p) of
                          None \<Rightarrow>
                            on_state (update_metrics (\<lambda>m. m\<lparr>decryptErrors := decryptErrors m + 1\<rparr>)) n
                        | Some plain \<Rightarrow>
                            (let (ok, w) = accept counter (s_replay ss)
                             in if \<not> ok then
                                  on_state (update_metrics (\<lambda>m. m\<lparr>replayDrops := replayDrops m + 1\<rparr>)) n
                                else
                                  (let n = on_state (update_session i (\<lambda>s. (touch now s)
                                             \<lparr>s_replay := w, rxBytes := rxBytes s + of_nat (length plain)\<rparr>)) n
                                   in if p ! 4 = msgData then
                                        (let n = on_state (update_metrics (\<lambda>m. m\<lparr>
                                               dataRxBytes := dataRxBytes m + of_nat (length plain),
                                               dataRxPackets := dataRxPackets m + 1\<rparr>)) n
                                         in if plain \<noteq> [] then n\<lparr>n_tun := tw plain (n_tun n)\<rparr> else n)
                                      else
                                        (let n = on_state (update_metrics (\<lambda>m. m\<lparr>
                                               controlRxBytes := controlRxBytes m + of_nat (length plain),
                                               controlRxPkts := controlRxPkts m + 1\<rparr>)) n
                                         in if p ! 4 = msgDirectProbeAck \<and> length plain = 16
                                            then on_state (notifyProbeAck plain) n else n)))))))"

subsection \<open>The packet format\<close>

definition header :: "byte \<Rightarrow> u64 \<Rightarrow> bytes" where
  "header typ counter = bytes_of magic @ typ # put64 counter"

definition packet_of :: "aead \<Rightarrow> byte \<Rightarrow> u64 \<Rightarrow> bytes \<Rightarrow> bytes" where
  "packet_of a typ counter payload =
     header typ counter @ Seal a (makeNonce counter) payload (header typ counter)"

lemma length_header [simp, codec_simps]: "length (header typ c) = 13"
  by (simp add: header_def)

lemma header_parts [simp, codec_simps]:
  "take 4 (header typ c) = bytes_of magic"
  "header typ c ! 4 = typ"
  "gslice 5 13 (header typ c) = put64 c"
  by (simp_all add: header_def nth_append gslice_def)

lemma packet_of_parts [simp, codec_simps]:
  "take 13 (packet_of a typ c pl) = header typ c"
  "drop 13 (packet_of a typ c pl) = Seal a (makeNonce c) pl (header typ c)"
  "gslice 5 13 (packet_of a typ c pl) = put64 c"
  "packet_of a typ c pl ! 4 = typ"
  "take 4 (packet_of a typ c pl) = bytes_of magic"
  by (simp_all add: packet_of_def gslice_append_left nth_append)

lemma length_packet_of [simp]: "good_aead a \<Longrightarrow> length (packet_of a typ c pl) = 29 + length pl"
  by (simp add: packet_of_def gcm.length_seal Overhead_def)

lemma packet_split:
  assumes "13 \<le> length p" "take 4 p = bytes_of magic"
  shows "take 13 p = header (p ! 4) (get64 (gslice 5 13 p))"
proof -
  have "take 13 p = take 4 p @ p ! 4 # gslice 5 13 p"
    using assms(1) by (simp add: gslice_def take_drop list_eq_iff_nth_eq nth_append nth_Cons')
  with assms show ?thesis by (simp add: header_def put64_get64)
qed

lemma buildPacket_header:
  "length buf = 13 \<Longrightarrow>
     overwrite 5 (put64 c) (overwrite 4 [typ] (overwrite 0 (bytes_of magic) buf)) = header typ c"
  by (simp add: overwrite_def header_def)

lemma fst_buildPacket: "fst (buildPacket a typ c pl backing) = packet_of a typ c pl"
  by (simp add: buildPacket_def Let_def buildPacket_header packet_of_def Overhead_def)

subsection \<open>What an encrypted packet does\<close>

text \<open>\<open>receives n peer p\<close>: the session a packet is handled by, its counter and its plaintext, when
  it passes every check of \<open>handleEncrypted\<close>.\<close>

definition receives :: "('c, 't) node \<Rightarrow> string \<Rightarrow> bytes \<Rightarrow> (sid \<times> u64 \<times> bytes) option" where
  "receives n peer p =
     (if length p < 29 then None
      else case loadSession (n_st n) of
        None \<Rightarrow> None
      | Some i \<Rightarrow>
          (case heap (n_st n) i of
             None \<Rightarrow> None
           | Some ss \<Rightarrow>
               if peer \<noteq> s_peer ss then None
               else (let counter = get64 (gslice 5 13 p)
                     in case Open (rxAEAD ss) (makeNonce counter) (drop 13 p) (take 13 p) of
                          None \<Rightarrow> None
                        | Some plain \<Rightarrow>
                            if fst (accept counter (s_replay ss)) then Some (i, counter, plain) else None)))"

lemma receives_SomeD:
  assumes "receives n peer p = Some (i, c, plain)"
  obtains ss where "st_session (n_st n) = Some i" "heap (n_st n) i = Some ss" "peer = s_peer ss"
    "29 \<le> length p" "c = get64 (gslice 5 13 p)"
    "Open (rxAEAD ss) (makeNonce c) (drop 13 p) (take 13 p) = Some plain"
    "fst (accept c (s_replay ss))"
  using assms by (auto simp: receives_def loadSession_def Let_def split: if_splits option.splits)

lemma handleEncrypted_drop:
  assumes "receives n peer p = None"
  shows "handleEncrypted tw peer p now n = n
    \<or> handleEncrypted tw peer p now n
        = on_state (update_metrics (\<lambda>m. m\<lparr>decryptErrors := decryptErrors m + 1\<rparr>)) n
    \<or> handleEncrypted tw peer p now n
        = on_state (update_metrics (\<lambda>m. m\<lparr>replayDrops := replayDrops m + 1\<rparr>)) n"
proof -
  consider "length p < 29" | "st_session (n_st n) = None"
    | i where "st_session (n_st n) = Some i" "heap (n_st n) i = None"
    | i ss where "st_session (n_st n) = Some i" "heap (n_st n) i = Some ss" "\<not> length p < 29"
    by (cases "st_session (n_st n)"; cases "heap (n_st n) (the (st_session (n_st n)))") auto
  then show ?thesis
  proof cases
    case (4 i ss)
    let ?c = "get64 (gslice 5 13 p)"
    show ?thesis
    proof (cases "peer = s_peer ss")
      case True
      show ?thesis
      proof (cases "Open (rxAEAD ss) (makeNonce ?c) (drop 13 p) (take 13 p)")
        case None
        with 4 True show ?thesis by (simp add: handleEncrypted_def loadSession_def Let_def)
      next
        case (Some plain)
        with 4 True assms have "\<not> fst (accept ?c (s_replay ss))"
          by (auto simp: receives_def loadSession_def Let_def split: if_splits)
        with 4 True Some show ?thesis
          by (simp add: handleEncrypted_def loadSession_def Let_def case_prod_beta)
      qed
    next
      case False
      with 4 show ?thesis by (simp add: handleEncrypted_def loadSession_def)
    qed
  qed (simp_all add: handleEncrypted_def loadSession_def)
qed

definition rx_session :: "instant \<Rightarrow> u64 \<Rightarrow> bytes \<Rightarrow> session \<Rightarrow> session" where
  "rx_session now c plain s = (touch now s)
     \<lparr>s_replay := snd (accept c (s_replay s)), rxBytes := rxBytes s + of_nat (length plain)\<rparr>"

lemma good_rx_session: "good_session s \<Longrightarrow> good_session (rx_session now c plain s)"
  using window.accept_seen by (fastforce simp: good_session_def rx_session_def touch_def)

lemma rx_session_simps [simp]:
  "s_metrics (rx_session now c plain s) = s_metrics s"
  "s_replay (rx_session now c plain s) = snd (accept c (s_replay s))"
  "s_tx (rx_session now c plain s) = s_tx s"
  "txAEAD (rx_session now c plain s) = txAEAD s"
  "rxAEAD (rx_session now c plain s) = rxAEAD s"
  "s_peer (rx_session now c plain s) = s_peer s"
  by (simp_all add: rx_session_def touch_def)

lemma update_session_cong:
  "heap st i = Some s \<Longrightarrow> f s = g s \<Longrightarrow> update_session i f st = update_session i g st"
  by (simp add: update_session_def)

lemma handleEncrypted_receive:
  assumes "receives n peer p = Some (i, c, plain)"
  shows "handleEncrypted tw peer p now n =
    (let n = on_state (update_session i (rx_session now c plain)) n
     in if p ! 4 = msgData then
          (let n = on_state (update_metrics (\<lambda>m. m\<lparr>dataRxBytes := dataRxBytes m + of_nat (length plain),
                     dataRxPackets := dataRxPackets m + 1\<rparr>)) n
           in if plain \<noteq> [] then n\<lparr>n_tun := tw plain (n_tun n)\<rparr> else n)
        else
          (let n = on_state (update_metrics (\<lambda>m. m\<lparr>controlRxBytes := controlRxBytes m + of_nat (length plain),
                     controlRxPkts := controlRxPkts m + 1\<rparr>)) n
           in if p ! 4 = msgDirectProbeAck \<and> length plain = 16 then on_state (notifyProbeAck plain) n else n))"
proof -
  obtain ss where ss: "st_session (n_st n) = Some i" "heap (n_st n) i = Some ss" "peer = s_peer ss"
    "29 \<le> length p" "c = get64 (gslice 5 13 p)"
    "Open (rxAEAD ss) (makeNonce c) (drop 13 p) (take 13 p) = Some plain"
    "fst (accept c (s_replay ss))"
    using assms by (rule receives_SomeD)
  have upd: "update_session i (\<lambda>s. (touch now s)\<lparr>s_replay := snd (accept c (s_replay ss)),
      rxBytes := rxBytes s + of_nat (length plain)\<rparr>) (n_st n)
    = update_session i (rx_session now c plain) (n_st n)"
    by (rule update_session_cong [OF ss(2)]) (simp add: rx_session_def)
  show ?thesis
    using ss upd
    by (simp add: handleEncrypted_def loadSession_def Let_def case_prod_beta not_less)
qed

end
