(* ===== verification/Routing.thy ===== *)
theory Routing
  imports Config Return_Path Transport
begin

text \<open>
  Routing and firewall setup (\<open>routing.go\<close>, \<open>smart_policy.go\<close>, \<open>carrier_firewall.go\<close>). The programs
  \<open>ip\<close>, \<open>iptables\<close>, \<open>tc\<close> and \<open>sysctl\<close> are outside the repository: the functions take \<open>exec\<close>, which
  runs a command on a host state of type \<open>'s\<close> and returns its error (\<open>None\<close> for exit status 0) and
  the new host state.

  The loop of \<open>deleteChain\<close> ends only if the host lets it; it is a partial function whose value is
  \<open>None\<close> when it does not end, and so is everything that calls it.
\<close>

type_synonym command = "string \<times> string list"
type_synonym 's exec = "command \<Rightarrow> 's \<Rightarrow> string option \<times> 's"

datatype cmd_error =
    CommandFailed command string
  | UnknownReturnPath string
  | CarrierRule string cmd_error
  | ListenError config_error
  | TunSetupError string
  | CarrierSetupError string

definition dataMark :: nat where "dataMark = 0x66"
definition dataTable :: int where "dataTable = 166"
definition transportTable :: int where "transportTable = 167"
definition returnMark :: nat where "returnMark = 0x68"
definition returnTable :: int where "returnTable = 168"

definition hex_mark :: "nat \<Rightarrow> string" where
  "hex_mark m = ''0x'' @ hex_digits m"

subsection \<open>Running commands\<close>

definition runQuiet :: "'s exec \<Rightarrow> command \<Rightarrow> 's \<Rightarrow> 's" where
  "runQuiet exec cmd s = snd (exec cmd s)"

definition runCmd :: "'s exec \<Rightarrow> command \<Rightarrow> 's \<Rightarrow> cmd_error option \<times> 's" where
  "runCmd exec cmd s =
     (case exec cmd s of (None, s) \<Rightarrow> (None, s) | (Some out, s) \<Rightarrow> (Some (CommandFailed cmd out), s))"

definition ipt_cmd :: "string \<Rightarrow> string list \<Rightarrow> command" where
  "ipt_cmd table args = (''iptables'', [''-t'', table] @ args)"

definition ipt :: "'s exec \<Rightarrow> string \<Rightarrow> string list \<Rightarrow> 's \<Rightarrow> cmd_error option \<times> 's" where
  "ipt exec table args = runCmd exec (ipt_cmd table args)"

text \<open>A sequence of steps, each of the form \<open>if err := step(); err != nil { return err }\<close>.\<close>

fun steps :: "('s \<Rightarrow> 'e option \<times> 's) list \<Rightarrow> 's \<Rightarrow> 'e option \<times> 's" where
  "steps [] s = (None, s)"
| "steps (f # fs) s = (case f s of (Some e, s) \<Rightarrow> (Some e, s) | (None, s) \<Rightarrow> steps fs s)"

definition protocols :: "string \<Rightarrow> string list" where
  "protocols p = (if p = ''both'' then [''tcp'', ''udp''] else [p])"

definition resetChain :: "'s exec \<Rightarrow> string \<times> string \<times> string \<Rightarrow> 's \<Rightarrow> cmd_error option \<times> 's" where
  "resetChain exec h s =
     (case h of (table, hook, custom) \<Rightarrow>
        (let s = runQuiet exec (ipt_cmd table [''-N'', custom]) s
         in case ipt exec table [''-F'', custom] s of
              (Some e, s) \<Rightarrow> (Some e, s)
            | (None, s) \<Rightarrow>
                (case exec (ipt_cmd table [''-C'', hook, ''-j'', custom]) s of
                   (Some _, s) \<Rightarrow> ipt exec table [''-I'', hook, ''1'', ''-j'', custom] s
                 | (None, s) \<Rightarrow> (None, s))))"

partial_function (option) unhook :: "'s exec \<Rightarrow> string \<Rightarrow> string \<Rightarrow> string \<Rightarrow> 's \<Rightarrow> 's option" where
  "unhook exec table hook custom s =
     (case exec (ipt_cmd table [''-C'', hook, ''-j'', custom]) s of
        (None, s) \<Rightarrow> unhook exec table hook custom (runQuiet exec (ipt_cmd table [''-D'', hook, ''-j'', custom]) s)
      | (Some _, s) \<Rightarrow> Some s)"

declare unhook.simps [code]

definition deleteChain :: "'s exec \<Rightarrow> string \<times> string \<times> string \<Rightarrow> 's \<Rightarrow> 's option" where
  "deleteChain exec x s =
     (case x of (table, hook, custom) \<Rightarrow>
        map_option (\<lambda>s. runQuiet exec (ipt_cmd table [''-X'', custom]) (runQuiet exec (ipt_cmd table [''-F'', custom]) s))
          (unhook exec table hook custom s))"

subsection \<open>Interface\<close>

definition setupTun :: "'s exec \<Rightarrow> Config \<Rightarrow> 's \<Rightarrow> cmd_error option \<times> 's" where
  "setupTun exec c =
     (let tun = Name (Tun c); mtu = itoa (MTU (Tun c))
      in steps
        ([runCmd exec (''ip'', [''link'', ''set'', ''dev'', tun, ''mtu'', mtu, ''txqueuelen'', itoa (TxQueueLen (c_Performance c))]),
          runCmd exec (''ip'', [''link'', ''set'', ''dev'', tun, ''up'']),
          runCmd exec (''ip'', [''addr'', ''replace'', LocalCIDR (Tun c), ''dev'', tun])] @
         (if Qdisc (c_Performance c) \<noteq> ''none''
          then [\<lambda>s. (None, runQuiet exec (''tc'', [''qdisc'', ''replace'', ''dev'', tun, ''root'', Qdisc (c_Performance c)]) s)]
          else []) @
         [runCmd exec (''sysctl'', [''-w'', ''net.ipv4.ip_forward=1'']),
          runCmd exec (''sysctl'', [''-w'', ''net.ipv4.conf.'' @ tun @ ''.rp_filter=2''])]))"

subsection \<open>Iran\<close>

definition iran_hooks :: "(string \<times> string \<times> string) list" where
  "iran_hooks =
     [(''mangle'', ''PREROUTING'', ''HSH_MPRE''), (''nat'', ''PREROUTING'', ''HSH_NPRE''), (''nat'', ''POSTROUTING'', ''HSH_NPOST''),
      (''filter'', ''FORWARD'', ''HSH_FWD''), (''mangle'', ''FORWARD'', ''HSH_MFWD''), (''filter'', ''INPUT'', ''HSH_INPUT'')]"

definition iran_port_rules :: "'s exec \<Rightarrow> Config \<Rightarrow> Port \<Rightarrow> string \<Rightarrow> ('s \<Rightarrow> cmd_error option \<times> 's) list" where
  "iran_port_rules exec c p proto =
     (let net = Network c; tun = Name (Tun c); port = itoa (p_Port p)
      in [ipt exec ''mangle'' [''-A'', ''HSH_MPRE'', ''-i'', PublicInterface net, ''-d'', PublicIP net, ''-p'', proto,
            ''--dport'', port, ''-j'', ''MARK'', ''--set-mark'', hex_mark dataMark],
          ipt exec ''nat'' [''-A'', ''HSH_NPRE'', ''-i'', PublicInterface net, ''-d'', PublicIP net, ''-p'', proto,
            ''--dport'', port, ''-j'', ''DNAT'', ''--to-destination'', ForeignPublicIP net @ '':'' @ itoa (p_Port p)],
          ipt exec ''filter'' [''-A'', ''HSH_FWD'', ''-i'', PublicInterface net, ''-o'', tun, ''-d'', ForeignPublicIP net,
            ''-p'', proto, ''--dport'', port, ''-m'', ''conntrack'', ''--ctstate'', ''NEW,ESTABLISHED'', ''-j'', ''ACCEPT'']])"

definition setupIranRouting :: "'s exec \<Rightarrow> Config \<Rightarrow> 's \<Rightarrow> cmd_error option \<times> 's" where
  "setupIranRouting exec c =
     (let net = Network c; tun = Name (Tun c); mss = itoa (MTU (Tun c) - 40)
      in steps
        ([runCmd exec (''ip'', [''rule'', ''add'', ''priority'', ''66'', ''fwmark'', hex_mark dataMark, ''lookup'', itoa dataTable]),
          runCmd exec (''ip'', [''route'', ''add'', ''table'', itoa dataTable, ForeignPublicIP net @ ''/32'', ''dev'', tun])] @
         map (resetChain exec) iran_hooks @
         (if Enabled (SmartReturn c)
          then [ipt exec ''filter'' [''-A'', ''HSH_INPUT'', ''-i'', PublicInterface net, ''-d'', IranPublicIP net,
                 ''-s'', ForeignPublicIP net, ''-p'', ''udp'', ''--dport'', itoa (ProbePort (SmartReturn c)), ''-j'', ''ACCEPT'']]
          else []) @
         concat (map (\<lambda>p. concat (map (iran_port_rules exec c p) (protocols (p_Protocol p)))) (Ports c)) @
         [ipt exec ''nat'' [''-A'', ''HSH_NPOST'', ''-o'', tun, ''-d'', ForeignPublicIP net, ''-j'', ''SNAT'',
            ''--to-source'', IranPublicIP net],
          ipt exec ''filter'' [''-A'', ''HSH_FWD'', ''-i'', tun, ''-o'', PublicInterface net, ''-m'', ''conntrack'',
            ''--ctstate'', ''ESTABLISHED,RELATED'', ''-j'', ''ACCEPT''],
          ipt exec ''filter'' [''-A'', ''HSH_FWD'', ''-i'', PublicInterface net, ''-o'', PublicInterface net, ''-m'', ''conntrack'',
            ''--ctstate'', ''ESTABLISHED,RELATED'', ''-j'', ''ACCEPT''],
          if Mode c = ''full''
          then ipt exec ''mangle'' [''-A'', ''HSH_MFWD'', ''-o'', tun, ''-m'', ''mark'', ''--mark'', hex_mark dataMark,
                 ''-p'', ''tcp'', ''--tcp-flags'', ''SYN,RST'', ''SYN'', ''-j'', ''TCPMSS'', ''--set-mss'', mss]
          else ipt exec ''mangle'' [''-A'', ''HSH_MFWD'', ''-i'', PublicInterface net, ''-o'', PublicInterface net,
                 ''-s'', ForeignPublicIP net, ''-p'', ''tcp'', ''--tcp-flags'', ''SYN,RST'', ''SYN'', ''-m'', ''conntrack'',
                 ''--ctstate'', ''ESTABLISHED'', ''-j'', ''TCPMSS'', ''--set-mss'', mss]]))"

subsection \<open>Kharej\<close>

definition setupTransportBypass :: "'s exec \<Rightarrow> Config \<Rightarrow> 's \<Rightarrow> cmd_error option \<times> 's" where
  "setupTransportBypass exec c =
     (let net = Network c;
          routeArgs = [''route'', ''add'', ''table'', itoa transportTable, ''default''];
          routeArgs = (if PublicGateway net \<noteq> '''' then routeArgs @ [''via'', PublicGateway net] else routeArgs);
          routeArgs = routeArgs @ [''dev'', PublicInterface net, ''src'', PublicIP net]
      in steps
        [runCmd exec (''ip'', [''rule'', ''add'', ''priority'', ''77'', ''fwmark'', hex_mark (nat transportMark), ''lookup'', itoa transportTable]),
         runCmd exec (''ip'', routeArgs)])"

definition kharej_hooks :: "(string \<times> string \<times> string) list" where
  "kharej_hooks =
     [(''filter'', ''INPUT'', ''HSH_INPUT''), (''filter'', ''OUTPUT'', ''HSH_OUTPUT''), (''mangle'', ''OUTPUT'', ''HSH_MOUT'')]"

definition kharej_port_rules :: "'s exec \<Rightarrow> Config \<Rightarrow> Port \<Rightarrow> string \<Rightarrow> ('s \<Rightarrow> cmd_error option \<times> 's) list" where
  "kharej_port_rules exec c p proto =
     (let net = Network c; port = itoa (p_Port p)
      in ipt exec ''filter'' [''-A'', ''HSH_INPUT'', ''-i'', Name (Tun c), ''-d'', ForeignPublicIP net, ''-p'', proto,
           ''--dport'', port, ''-m'', ''conntrack'', ''--ctstate'', ''NEW,ESTABLISHED'', ''-j'', ''ACCEPT''] #
         (if LockServicePorts net
          then [ipt exec ''filter'' [''-A'', ''HSH_INPUT'', ''-i'', PublicInterface net, ''-d'', ForeignPublicIP net,
                 ''-p'', proto, ''--dport'', port, ''-j'', ''DROP'']]
          else []))"

definition output_rule :: "'s exec \<Rightarrow> Config \<Rightarrow> string \<Rightarrow> 's \<Rightarrow> cmd_error option \<times> 's" where
  "output_rule exec c iface =
     ipt exec ''filter'' [''-A'', ''HSH_OUTPUT'', ''-o'', iface, ''-s'', ForeignPublicIP (Network c),
       ''-d'', IranPublicIP (Network c), ''-m'', ''conntrack'', ''--ctstate'', ''ESTABLISHED,RELATED'', ''-j'', ''ACCEPT'']"

definition setupKharejRouting :: "'s exec \<Rightarrow> Config \<Rightarrow> 's \<Rightarrow> cmd_error option \<times> 's" where
  "setupKharejRouting exec c =
     (let net = Network c; tun = Name (Tun c); mss = itoa (MTU (Tun c) - 40)
      in steps
        (map (resetChain exec) kharej_hooks @
         concat (map (\<lambda>p. concat (map (kharej_port_rules exec c p) (protocols (p_Protocol p)))) (Ports c)) @
         (if Mode c = ''direct-return'' then
            output_rule exec c (PublicInterface net) #
            (if \<not> Enabled (SmartReturn c) then []
             else [setupTransportBypass exec c, output_rule exec c tun])
          else
            [setupTransportBypass exec c,
             runCmd exec (''ip'', [''route'', ''replace'', IranPublicIP net @ ''/32'', ''dev'', tun]),
             output_rule exec c tun] @
            map (\<lambda>p. ipt exec ''mangle'' [''-A'', ''HSH_MOUT'', ''-o'', tun, ''-s'', ForeignPublicIP net,
                   ''-d'', IranPublicIP net, ''-p'', ''tcp'', ''--sport'', itoa (p_Port p), ''--tcp-flags'', ''SYN,RST'', ''SYN'',
                   ''-j'', ''TCPMSS'', ''--set-mss'', mss])
              (filter (\<lambda>p. p_Protocol p \<noteq> ''udp'') (Ports c)))))"

definition setupRouting :: "'s exec \<Rightarrow> Config \<Rightarrow> 's \<Rightarrow> cmd_error option \<times> 's" where
  "setupRouting exec c s =
     (if Ports c = [] then (None, s)
      else if Role c = ''iran'' then setupIranRouting exec c s
      else setupKharejRouting exec c s)"

subsection \<open>Cleaning up\<close>

definition all_chains :: "(string \<times> string \<times> string) list" where
  "all_chains =
     [(''mangle'', ''PREROUTING'', ''HSH_MPRE''), (''nat'', ''PREROUTING'', ''HSH_NPRE''), (''nat'', ''POSTROUTING'', ''HSH_NPOST''),
      (''filter'', ''FORWARD'', ''HSH_FWD''), (''mangle'', ''FORWARD'', ''HSH_MFWD''), (''filter'', ''INPUT'', ''HSH_INPUT''),
      (''filter'', ''OUTPUT'', ''HSH_OUTPUT''), (''mangle'', ''OUTPUT'', ''HSH_MOUT'')]"

fun delete_chains :: "'s exec \<Rightarrow> (string \<times> string \<times> string) list \<Rightarrow> 's \<Rightarrow> 's option" where
  "delete_chains exec [] s = Some s"
| "delete_chains exec (x # xs) s =
     (case deleteChain exec x s of None \<Rightarrow> None | Some s \<Rightarrow> delete_chains exec xs s)"

definition quiet_all :: "'s exec \<Rightarrow> command list \<Rightarrow> 's \<Rightarrow> 's" where
  "quiet_all exec cmds s = fold (runQuiet exec) cmds s"

definition cleanup_commands :: "Config \<Rightarrow> command list" where
  "cleanup_commands c =
     [(''ip'', [''rule'', ''del'', ''priority'', ''66'', ''fwmark'', hex_mark dataMark, ''lookup'', itoa dataTable]),
      (''ip'', [''route'', ''flush'', ''table'', itoa dataTable]),
      (''ip'', [''rule'', ''del'', ''priority'', ''77'', ''fwmark'', hex_mark (nat transportMark), ''lookup'', itoa transportTable]),
      (''ip'', [''route'', ''flush'', ''table'', itoa transportTable])] @
     (if Role c = ''kharej'' \<and> IranPublicIP (Network c) \<noteq> ''''
      then [(''ip'', [''route'', ''del'', IranPublicIP (Network c) @ ''/32'', ''dev'', Name (Tun c)])] else [])"

definition cleanupRouting :: "'s exec \<Rightarrow> Config \<Rightarrow> 's \<Rightarrow> 's option" where
  "cleanupRouting exec c s = map_option (quiet_all exec (cleanup_commands c)) (delete_chains exec all_chains s)"

subsection \<open>Smart-return policy\<close>

definition cleanupSmartReturnPolicy :: "'s exec \<Rightarrow> Config \<Rightarrow> 's \<Rightarrow> 's" where
  "cleanupSmartReturnPolicy exec c =
     quiet_all exec
       [(''ip'', [''rule'', ''del'', ''priority'', ''68'', ''fwmark'', hex_mark returnMark, ''lookup'', itoa returnTable]),
        (''ip'', [''route'', ''flush'', ''table'', itoa returnTable])]"

definition setKharejReturnPath :: "'s exec \<Rightarrow> Config \<Rightarrow> returnPath \<Rightarrow> 's \<Rightarrow> cmd_error option \<times> 's" where
  "setKharejReturnPath exec c path s =
     (if Role c \<noteq> ''kharej'' \<or> Mode c \<noteq> ''direct-return'' \<or> \<not> Enabled (SmartReturn c) then (None, s)
      else if path = returnPathDirect then
        (None, runQuiet exec (''ip'', [''route'', ''flush'', ''table'', itoa returnTable]) s)
      else if path = returnPathTunnel then
        runCmd exec (''ip'', [''route'', ''replace'', ''table'', itoa returnTable, IranPublicIP (Network c) @ ''/32'',
          ''dev'', Name (Tun c), ''mtu'', itoa (MTU (Tun c))]) s
      else (Some (UnknownReturnPath path), s))"

text \<open>A step that cleans the policy up when it fails.\<close>

definition or_cleanup :: "'s exec \<Rightarrow> Config \<Rightarrow> ('s \<Rightarrow> cmd_error option \<times> 's) \<Rightarrow> 's \<Rightarrow> cmd_error option \<times> 's" where
  "or_cleanup exec c f s =
     (case f s of (None, s) \<Rightarrow> (None, s) | (Some e, s) \<Rightarrow> (Some e, cleanupSmartReturnPolicy exec c s))"

definition smart_port_rules :: "'s exec \<Rightarrow> Config \<Rightarrow> Port \<Rightarrow> string \<Rightarrow> ('s \<Rightarrow> cmd_error option \<times> 's) list" where
  "smart_port_rules exec c p proto =
     (let net = Network c; port = itoa (p_Port p)
      in or_cleanup exec c (ipt exec ''mangle'' [''-A'', ''HSH_MOUT'', ''-s'', ForeignPublicIP net, ''-d'', IranPublicIP net,
           ''-p'', proto, ''--sport'', port, ''-m'', ''mark'', ''--mark'', ''0x0'', ''-j'', ''MARK'', ''--set-mark'', hex_mark returnMark]) #
         (if proto = ''tcp''
          then [or_cleanup exec c (ipt exec ''mangle'' [''-A'', ''HSH_MOUT'', ''-s'', ForeignPublicIP net, ''-d'', IranPublicIP net,
                 ''-p'', ''tcp'', ''--sport'', port, ''-m'', ''mark'', ''--mark'', hex_mark returnMark, ''--tcp-flags'', ''SYN,RST'', ''SYN'',
                 ''-j'', ''TCPMSS'', ''--set-mss'', itoa (MTU (Tun c) - 40)])]
          else []))"

definition setupSmartReturnPolicy :: "'s exec \<Rightarrow> Config \<Rightarrow> 's \<Rightarrow> cmd_error option \<times> 's" where
  "setupSmartReturnPolicy exec c s =
     (if \<not> Enabled (SmartReturn c) \<or> Role c \<noteq> ''kharej'' \<or> Mode c \<noteq> ''direct-return'' \<or> Ports c = [] then (None, s)
      else
        steps
          ([\<lambda>s. (None, cleanupSmartReturnPolicy exec c s),
            runCmd exec (''ip'', [''rule'', ''add'', ''priority'', ''68'', ''fwmark'', hex_mark returnMark, ''lookup'', itoa returnTable])] @
           concat (map (\<lambda>p. concat (map (smart_port_rules exec c p) (protocols (p_Protocol p)))) (Ports c)) @
           [setKharejReturnPath exec c returnPathDirect]) s)"

subsection \<open>Carrier firewall\<close>

definition carrier_rule :: "Config \<Rightarrow> string \<Rightarrow> int \<Rightarrow> string list" where
  "carrier_rule c sourceIP port =
     (let net = Network c
      in [''-i'', PublicInterface net, ''-d'', PublicIP net, ''-s'', sourceIP] @
         (if t_Type (c_Transport c) = ''tcp'' \<and> Role c = ''iran''
          then [''-p'', ''tcp'', ''--sport'', itoa port, ''-m'', ''conntrack'', ''--ctstate'', ''ESTABLISHED'', ''-j'', ''ACCEPT'']
          else [''-p'', transportNetwork (t_Type (c_Transport c)), ''--dport'', itoa port, ''-j'', ''ACCEPT'']))"

definition setupCarrierFirewall :: "'s exec \<Rightarrow> Config \<Rightarrow> 's \<Rightarrow> cmd_error option \<times> 's" where
  "setupCarrierFirewall exec c s =
     (if PublicInterface (Network c) = '''' \<or> PublicIP (Network c) = '''' then (None, s)
      else
        (let sourceIP = (if Role c = ''iran'' then ForeignPublicIP (Network c) else IranPublicIP (Network c))
         in if sourceIP = '''' then (None, s)
            else case listenPort (Listen (c_Transport c)) of
              Inl e \<Rightarrow> (Some (ListenError e), s)
            | Inr port \<Rightarrow>
                (let args = carrier_rule c sourceIP port
                 in steps
                   [\<lambda>s. (None, runQuiet exec (ipt_cmd ''filter'' [''-N'', ''HSH_INPUT'']) s),
                    \<lambda>s. (case exec (ipt_cmd ''filter'' [''-C'', ''INPUT'', ''-j'', ''HSH_INPUT'']) s of
                           (None, s) \<Rightarrow> (None, s)
                         | (Some _, s) \<Rightarrow> ipt exec ''filter'' [''-I'', ''INPUT'', ''1'', ''-j'', ''HSH_INPUT''] s),
                    \<lambda>s. (case exec (ipt_cmd ''filter'' ([''-C'', ''HSH_INPUT''] @ args)) s of
                           (None, s) \<Rightarrow> (None, s)
                         | (Some _, s) \<Rightarrow>
                             (case ipt exec ''filter'' ([''-I'', ''HSH_INPUT'', ''1''] @ args) s of
                                (None, s) \<Rightarrow> (None, s)
                              | (Some e, s) \<Rightarrow> (Some (CarrierRule (t_Type (c_Transport c)) e), s)))] s)))"

end
