(* ===== verification/Host_Commands.thy ===== *)
theory Host_Commands
  imports Routing
begin

text \<open>
  Which commands the routing code runs on the host. \<open>own_command c\<close> describes the commands that only
  concern Hashshashin's own objects: its eight iptables chains and the jumps to them, its three policy
  rules and routing tables, its TUN interface, and the host route to the Iran address. Every setup and
  cleanup function is shown to keep any host property that such commands keep.
\<close>

subsection \<open>Hashshashin's own objects\<close>

definition own_chain :: "string \<Rightarrow> string \<Rightarrow> bool" where
  "own_chain t ch \<longleftrightarrow> list_ex (\<lambda>(t', h, cu). t' = t \<and> cu = ch) all_chains"

definition own_jump :: "string \<Rightarrow> string \<Rightarrow> string list \<Rightarrow> bool" where
  "own_jump t ch r \<longleftrightarrow> list_ex (\<lambda>(t', h, cu). t' = t \<and> h = ch \<and> r = [''-j'', cu]) all_chains"

text \<open>The target of a rule, the word after \<open>-j\<close>, is not one of the chains.\<close>

definition rule_target :: "string list \<Rightarrow> string option" where
  "rule_target r = (case dropWhile (\<lambda>w. w \<noteq> ''-j'') r of _ # x # _ \<Rightarrow> Some x | _ \<Rightarrow> None)"

definition custom_chains :: "string list" where
  "custom_chains = map (snd \<circ> snd) all_chains"

definition plain_rule :: "string list \<Rightarrow> bool" where
  "plain_rule r \<longleftrightarrow> (case rule_target r of None \<Rightarrow> True | Some x \<Rightarrow> x \<notin> set custom_chains)"

definition own_iptables :: "string list \<Rightarrow> bool" where
  "own_iptables args =
     (case args of
        a # t # op # ch # rest \<Rightarrow>
          a = ''-t'' \<and>
          (if own_chain t ch then
             op \<in> {''-N'', ''-F'', ''-X''} \<and> rest = [] \<or> op = ''-C'' \<or> op = ''-A'' \<and> plain_rule rest \<or>
             op = ''-I'' \<and> rest \<noteq> [] \<and> plain_rule (tl rest)
           else op \<in> {''-C'', ''-D''} \<and> own_jump t ch rest \<or> op = ''-I'' \<and> rest \<noteq> [] \<and> own_jump t ch (tl rest))
      | _ \<Rightarrow> False)"

definition own_ip :: "Config \<Rightarrow> string list \<Rightarrow> bool" where
  "own_ip c args \<longleftrightarrow>
     (\<exists>op\<in>{''add'', ''del''}. args \<in> {
        [''rule'', op, ''priority'', ''66'', ''fwmark'', hex_mark dataMark, ''lookup'', itoa dataTable],
        [''rule'', op, ''priority'', ''77'', ''fwmark'', hex_mark (nat transportMark), ''lookup'', itoa transportTable],
        [''rule'', op, ''priority'', ''68'', ''fwmark'', hex_mark returnMark, ''lookup'', itoa returnTable]}) \<or>
     (\<exists>op\<in>{''add'', ''flush'', ''replace''}. \<exists>t\<in>{dataTable, transportTable, returnTable}.
        take 4 args = [''route'', op, ''table'', itoa t]) \<or>
     (\<exists>op\<in>{''replace'', ''del''}. args = [''route'', op, IranPublicIP (Network c) @ ''/32'', ''dev'', Name (Tun c)]) \<or>
     take 4 args = [''link'', ''set'', ''dev'', Name (Tun c)] \<or>
     args = [''addr'', ''replace'', LocalCIDR (Tun c), ''dev'', Name (Tun c)]"

definition own_command :: "Config \<Rightarrow> command \<Rightarrow> bool" where
  "own_command c cmd =
     (case cmd of (name, args) \<Rightarrow>
        if name = ''iptables'' then own_iptables args
        else if name = ''ip'' then own_ip c args
        else if name = ''tc'' then args = [''qdisc'', ''replace'', ''dev'', Name (Tun c), ''root'', Qdisc (c_Performance c)]
        else if name = ''sysctl'' then
          args = [''-w'', ''net.ipv4.ip_forward=1''] \<or> args = [''-w'', ''net.ipv4.conf.'' @ Name (Tun c) @ ''.rp_filter=2'']
        else False)"

subsection \<open>Properties that own commands keep\<close>

definition keeps :: "('s \<Rightarrow> bool) \<Rightarrow> ('s \<Rightarrow> 'r \<times> 's) \<Rightarrow> bool" where
  "keeps I f \<longleftrightarrow> (\<forall>s. I s \<longrightarrow> I (snd (f s)))"

lemma keepsD: "keeps I f \<Longrightarrow> I s \<Longrightarrow> I (snd (f s))"
  by (simp add: keeps_def)

lemma steps_keeps: "list_all (keeps I) fs \<Longrightarrow> keeps I (steps fs)"
proof (induction fs)
  case Nil
  then show ?case by (simp add: keeps_def)
next
  case (Cons f fs)
  then show ?case
    by (auto simp: keeps_def split: prod.split option.split)
qed

lemma snd_runCmd [simp]: "snd (runCmd exec cmd s) = snd (exec cmd s)"
  by (simp add: runCmd_def split: prod.split option.split)

text \<open>The interface between the routing code and a host property: commands of the described kind
  keep it.\<close>

locale host_property =
  fixes exec :: "'s exec"
    and c :: Config
    and inv :: "'s \<Rightarrow> bool"
  assumes own_keeps: "own_command c cmd \<Longrightarrow> inv s \<Longrightarrow> inv (snd (exec cmd s))"
begin

lemma runQuiet_keeps: "own_command c cmd \<Longrightarrow> inv s \<Longrightarrow> inv (runQuiet exec cmd s)"
  by (simp add: runQuiet_def own_keeps)

lemma runCmd_keeps: "own_command c cmd \<Longrightarrow> keeps inv (runCmd exec cmd)"
  by (simp add: keeps_def own_keeps)

lemma ipt_keeps: "own_iptables (''-t'' # t # args) \<Longrightarrow> keeps inv (ipt exec t args)"
  by (simp add: ipt_def ipt_cmd_def runCmd_keeps own_command_def)

lemma quiet_keeps: "own_command c cmd \<Longrightarrow> keeps inv (\<lambda>s. (None, runQuiet exec cmd s))"
  by (simp add: keeps_def runQuiet_keeps)

lemma quiet_all_keeps: "list_all (own_command c) cmds \<Longrightarrow> inv s \<Longrightarrow> inv (quiet_all exec cmds s)"
  by (induction cmds arbitrary: s) (simp_all add: quiet_all_def runQuiet_keeps)

lemma checked_keeps:
  assumes "own_command c cmd" "keeps inv f"
  shows "keeps inv (\<lambda>s. case exec cmd s of (None, s) \<Rightarrow> (None, s) | (Some _, s) \<Rightarrow> f s)"
proof -
  have "inv (snd (case exec cmd s of (None, s) \<Rightarrow> (None, s) | (Some _, s) \<Rightarrow> f s))" if "inv s" for s
    using own_keeps [OF assms(1) that] assms(2) by (cases "exec cmd s"; cases "fst (exec cmd s)") (auto simp: keeps_def)
  then show ?thesis by (simp add: keeps_def)
qed

lemma resetChain_keeps:
  assumes "(t, h, cu) \<in> set all_chains" "own_chain t cu" "\<not> own_chain t h"
  shows "keeps inv (resetChain exec (t, h, cu))"
proof -
  have jump: "own_jump t h [''-j'', cu]" using assms(1) by (force simp: own_jump_def list_ex_iff)
  have "keeps inv (\<lambda>s. resetChain exec (t, h, cu) s)"
    using runQuiet_keeps [of "ipt_cmd t [''-N'', cu]"] ipt_keeps [of t "[''-F'', cu]"]
      own_keeps [of "ipt_cmd t [''-C'', h, ''-j'', cu]"] ipt_keeps [of t "[''-I'', h, ''1'', ''-j'', cu]"] assms jump
    by (auto simp: keeps_def resetChain_def Let_def own_command_def own_iptables_def ipt_cmd_def
        split: prod.split option.split) (metis snd_conv)+
  then show ?thesis .
qed

end

lemma chains_own: "list_all (\<lambda>x. own_chain (fst x) (snd (snd x)) \<and> \<not> own_chain (fst x) (fst (snd x))) all_chains"
  by code_simp

lemma hooks_own: "set iran_hooks \<subseteq> set all_chains" "set kharej_hooks \<subseteq> set all_chains"
  by (simp_all add: all_chains_def iran_hooks_def kharej_hooks_def)

lemma list_all_concat_map: "(\<And>x. list_all P (f x)) \<Longrightarrow> list_all P (concat (map f xs))"
  by (induction xs) simp_all

lemma own_chain_names:
  "own_chain ''mangle'' ''HSH_MPRE''" "own_chain ''nat'' ''HSH_NPRE''" "own_chain ''nat'' ''HSH_NPOST''"
  "own_chain ''filter'' ''HSH_FWD''" "own_chain ''mangle'' ''HSH_MFWD''" "own_chain ''filter'' ''HSH_INPUT''"
  "own_chain ''filter'' ''HSH_OUTPUT''" "own_chain ''mangle'' ''HSH_MOUT''"
  by (simp_all add: own_chain_def all_chains_def)

lemma custom_chains_eq:
  "custom_chains = [''HSH_MPRE'', ''HSH_NPRE'', ''HSH_NPOST'', ''HSH_FWD'', ''HSH_MFWD'', ''HSH_INPUT'', ''HSH_OUTPUT'', ''HSH_MOUT'']"
  by (simp add: custom_chains_def all_chains_def)

lemmas rule_simps = plain_rule_def rule_target_def custom_chains_eq

lemma own_A: "own_chain t ch \<Longrightarrow> plain_rule r \<Longrightarrow> own_iptables (''-t'' # t # ''-A'' # ch # r)"
  by (simp add: own_iptables_def)

context host_property
begin

lemma hooks_keep: "set hs \<subseteq> set all_chains \<Longrightarrow> list_all (keeps inv) (map (resetChain exec) hs)"
  using chains_own resetChain_keeps by (fastforce simp: list_all_iff)

lemma append_keeps: "own_chain t ch \<Longrightarrow> plain_rule r \<Longrightarrow> keeps inv (ipt exec t (''-A'' # ch # r))"
  by (intro ipt_keeps own_A)

lemmas rule_keeps = append_keeps own_chain_names rule_simps runCmd_keeps own_command_def own_ip_def

lemma setupTun_keeps: "keeps inv (setupTun exec c)"
  unfolding setupTun_def Let_def
  by (intro steps_keeps) (simp add: runCmd_keeps quiet_keeps own_command_def own_ip_def)

lemma iran_port_rules_keep: "list_all (keeps inv) (iran_port_rules exec c p proto)"
  by (simp add: iran_port_rules_def Let_def rule_keeps)

lemma setupIranRouting_keeps: "keeps inv (setupIranRouting exec c)"
  unfolding setupIranRouting_def Let_def
  by (intro steps_keeps)
    (simp add: rule_keeps hooks_keep [OF hooks_own(1)] list_all_concat_map iran_port_rules_keep)

lemma setupTransportBypass_keeps: "keeps inv (setupTransportBypass exec c)"
  unfolding setupTransportBypass_def Let_def
  by (intro steps_keeps) (simp add: rule_keeps)

lemma kharej_port_rules_keep: "list_all (keeps inv) (kharej_port_rules exec c p proto)"
  by (simp add: kharej_port_rules_def Let_def rule_keeps)

lemma output_rule_keeps: "keeps inv (output_rule exec c iface)"
  by (simp add: output_rule_def rule_keeps)

lemma setupKharejRouting_keeps: "keeps inv (setupKharejRouting exec c)"
  unfolding setupKharejRouting_def Let_def
  by (intro steps_keeps)
    (simp add: hooks_keep [OF hooks_own(2)] list_all_concat_map kharej_port_rules_keep output_rule_keeps
      setupTransportBypass_keeps, simp add: rule_keeps list_all_iff)

lemma setupRouting_keeps: "keeps inv (setupRouting exec c)"
  using setupIranRouting_keeps setupKharejRouting_keeps by (simp add: keeps_def setupRouting_def)

lemma cleanupSmartReturnPolicy_keeps: "inv s \<Longrightarrow> inv (cleanupSmartReturnPolicy exec c s)"
  unfolding cleanupSmartReturnPolicy_def
  by (rule quiet_all_keeps) (simp_all add: own_command_def own_ip_def)

lemma setKharejReturnPath_keeps: "keeps inv (setKharejReturnPath exec c path)"
proof -
  have "keeps inv (\<lambda>s. (None :: cmd_error option, runQuiet exec (''ip'', [''route'', ''flush'', ''table'', itoa returnTable]) s))"
    "keeps inv (runCmd exec (''ip'', [''route'', ''replace'', ''table'', itoa returnTable, IranPublicIP (Network c) @ ''/32'',
          ''dev'', Name (Tun c), ''mtu'', itoa (MTU (Tun c))]))"
    by (simp_all add: quiet_keeps runCmd_keeps own_command_def own_ip_def)
  then show ?thesis by (simp add: keeps_def setKharejReturnPath_def)
qed

lemma or_cleanup_keeps: "keeps inv f \<Longrightarrow> keeps inv (or_cleanup exec c f)"
  using cleanupSmartReturnPolicy_keeps
  by (auto simp: keeps_def or_cleanup_def split: prod.split option.split)

lemma smart_port_rules_keep: "list_all (keeps inv) (smart_port_rules exec c p proto)"
  by (simp add: smart_port_rules_def Let_def or_cleanup_keeps rule_keeps)

lemma setupSmartReturnPolicy_keeps: "keeps inv (setupSmartReturnPolicy exec c)"
proof -
  have "keeps inv (steps
          ([\<lambda>s. (None, cleanupSmartReturnPolicy exec c s),
            runCmd exec (''ip'', [''rule'', ''add'', ''priority'', ''68'', ''fwmark'', hex_mark returnMark, ''lookup'', itoa returnTable])] @
           concat (map (\<lambda>p. concat (map (smart_port_rules exec c p) (protocols (p_Protocol p)))) (Ports c)) @
           [setKharejReturnPath exec c returnPathDirect]))"
    by (intro steps_keeps)
      (simp add: list_all_concat_map smart_port_rules_keep setKharejReturnPath_keeps runCmd_keeps own_command_def own_ip_def,
       simp add: keeps_def cleanupSmartReturnPolicy_keeps)
  then show ?thesis by (simp add: keeps_def setupSmartReturnPolicy_def)
qed

lemma carrier_rule_plain: "plain_rule (carrier_rule c src port)"
  by (simp add: carrier_rule_def Let_def rule_simps)

lemma setupCarrierFirewall_keeps: "keeps inv (setupCarrierFirewall exec c)"
proof -
  note own = own_command_def own_iptables_def ipt_cmd_def own_chain_names
  have n: "keeps inv (\<lambda>s. (None, runQuiet exec (ipt_cmd ''filter'' [''-N'', ''HSH_INPUT'']) s))"
    by (intro quiet_keeps) (simp add: own)
  have "own_jump ''filter'' ''INPUT'' [''-j'', ''HSH_INPUT'']" "\<not> own_chain ''filter'' ''INPUT''"
    by (simp_all add: own_jump_def own_chain_def all_chains_def)
  then have j: "keeps inv (\<lambda>s. case exec (ipt_cmd ''filter'' [''-C'', ''INPUT'', ''-j'', ''HSH_INPUT'']) s of
       (None, s) \<Rightarrow> (None, s) | (Some _, s) \<Rightarrow> ipt exec ''filter'' [''-I'', ''INPUT'', ''1'', ''-j'', ''HSH_INPUT''] s)"
    by (intro checked_keeps ipt_keeps) (simp_all add: own)
  have i: "keeps inv (ipt exec ''filter'' ([''-I'', ''HSH_INPUT'', ''1''] @ carrier_rule c src port))" for src port
    by (rule ipt_keeps) (simp add: own carrier_rule_plain)
  then have f: "keeps inv (\<lambda>s. case ipt exec ''filter'' ([''-I'', ''HSH_INPUT'', ''1''] @ carrier_rule c src port) s of
       (None, s) \<Rightarrow> (None, s) | (Some e, s) \<Rightarrow> (Some (CarrierRule (t_Type (c_Transport c)) e), s))" for src port
    by (auto simp: keeps_def split: prod.split option.split) (metis snd_conv)+
  have r: "keeps inv (\<lambda>s. case exec (ipt_cmd ''filter'' ([''-C'', ''HSH_INPUT''] @ carrier_rule c src port)) s of
       (None, s) \<Rightarrow> (None, s)
     | (Some _, s) \<Rightarrow>
         (case ipt exec ''filter'' ([''-I'', ''HSH_INPUT'', ''1''] @ carrier_rule c src port) s of
            (None, s) \<Rightarrow> (None, s) | (Some e, s) \<Rightarrow> (Some (CarrierRule (t_Type (c_Transport c)) e), s)))" for src port
    by (intro checked_keeps f) (simp add: own)
  have "keeps inv (steps [\<lambda>s. (None, runQuiet exec (ipt_cmd ''filter'' [''-N'', ''HSH_INPUT'']) s),
     \<lambda>s. case exec (ipt_cmd ''filter'' [''-C'', ''INPUT'', ''-j'', ''HSH_INPUT'']) s of
       (None, s) \<Rightarrow> (None, s) | (Some _, s) \<Rightarrow> ipt exec ''filter'' [''-I'', ''INPUT'', ''1'', ''-j'', ''HSH_INPUT''] s,
     \<lambda>s. case exec (ipt_cmd ''filter'' ([''-C'', ''HSH_INPUT''] @ carrier_rule c src port)) s of
       (None, s) \<Rightarrow> (None, s)
     | (Some _, s) \<Rightarrow>
         (case ipt exec ''filter'' ([''-I'', ''HSH_INPUT'', ''1''] @ carrier_rule c src port) s of
            (None, s) \<Rightarrow> (None, s) | (Some e, s) \<Rightarrow> (Some (CarrierRule (t_Type (c_Transport c)) e), s))])" for src port
    by (rule steps_keeps) (simp only: list.pred_inject n j r simp_thms)
  then show ?thesis by (simp add: keeps_def setupCarrierFirewall_def Let_def split: sum.split)
qed

end

text \<open>What holds when the loop of \<open>deleteChain\<close> has ended: everything its two commands keep, and the
  last check failed.\<close>

lemma unhook_ends:
  assumes "unhook exec t h cu s = Some s'" "I s"
    and "\<And>s. I s \<Longrightarrow> I (snd (exec (ipt_cmd t [''-C'', h, ''-j'', cu]) s))"
    and "\<And>s. I s \<Longrightarrow> I (snd (exec (ipt_cmd t [''-D'', h, ''-j'', cu]) s))"
  shows "\<exists>s0. I s0 \<and> fst (exec (ipt_cmd t [''-C'', h, ''-j'', cu]) s0) \<noteq> None \<and>
    s' = snd (exec (ipt_cmd t [''-C'', h, ''-j'', cu]) s0)"
proof -
  let ?Q = "\<lambda>exec t h cu. (\<forall>s. I s \<longrightarrow> I (snd (exec (ipt_cmd t [''-C'', h, ''-j'', cu]) s)) \<and>
      I (snd (exec (ipt_cmd t [''-D'', h, ''-j'', cu]) s)))"
  let ?P = "\<lambda>exec t h cu s s'. ?Q exec t h cu \<longrightarrow> I s \<longrightarrow>
      (\<exists>s0. I s0 \<and> fst (exec (ipt_cmd t [''-C'', h, ''-j'', cu]) s0) \<noteq> None \<and>
        s' = snd (exec (ipt_cmd t [''-C'', h, ''-j'', cu]) s0))"
  have "?P exec t h cu s s'"
  proof (rule unhook.raw_induct [OF _ assms(1)])
    fix unh :: "(command \<Rightarrow> 'a \<Rightarrow> string option \<times> 'a) \<Rightarrow> string \<Rightarrow> string \<Rightarrow> string \<Rightarrow> 'a \<Rightarrow> 'a option"
    fix e t h cu s y
    assume ih: "\<And>e t h cu s y. unh e t h cu s = Some y \<Longrightarrow> ?P e t h cu s y"
    assume eq: "(case e (ipt_cmd t [''-C'', h, ''-j'', cu]) s of
        (None, s) \<Rightarrow> unh e t h cu (runQuiet e (ipt_cmd t [''-D'', h, ''-j'', cu]) s) | (Some _, s) \<Rightarrow> Some s) = Some y"
    obtain r s1 where r: "e (ipt_cmd t [''-C'', h, ''-j'', cu]) s = (r, s1)" by fastforce
    show "?P e t h cu s y"
    proof (intro impI)
      assume q: "?Q e t h cu" and i: "I s"
      have i1: "I s1" using q i r by (metis snd_conv)
      show "\<exists>s0. I s0 \<and> fst (e (ipt_cmd t [''-C'', h, ''-j'', cu]) s0) \<noteq> None \<and>
          y = snd (e (ipt_cmd t [''-C'', h, ''-j'', cu]) s0)"
      proof (cases r)
        case None
        then have "unh e t h cu (runQuiet e (ipt_cmd t [''-D'', h, ''-j'', cu]) s1) = Some y" using eq r by simp
        from ih [OF this] q i1 show ?thesis by (simp add: runQuiet_def)
      next
        case (Some out)
        with eq r i show ?thesis by (intro exI [of _ s]) simp
      qed
    qed
  qed
  with assms show ?thesis by blast
qed

context host_property
begin

lemma deleteChain_keeps:
  assumes "deleteChain exec (t, h, cu) s = Some s'" "inv s" "(t, h, cu) \<in> set all_chains"
  shows "inv s'"
proof -
  note own = own_command_def own_iptables_def ipt_cmd_def
  have o: "own_chain t cu" "\<not> own_chain t h" "own_jump t h [''-j'', cu]"
    using assms(3) chains_own by (force simp: list_all_iff own_jump_def list_ex_iff)+
  obtain s1 where s1: "unhook exec t h cu s = Some s1"
    "s' = runQuiet exec (ipt_cmd t [''-X'', cu]) (runQuiet exec (ipt_cmd t [''-F'', cu]) s1)"
    using assms(1) by (auto simp: deleteChain_def)
  have "own_command c (ipt_cmd t [''-C'', h, ''-j'', cu])" "own_command c (ipt_cmd t [''-D'', h, ''-j'', cu])"
    using o by (simp_all add: own)
  then have "inv s1" using unhook_ends [OF s1(1), of inv] assms(2) own_keeps by blast
  then show ?thesis unfolding s1(2) by (intro runQuiet_keeps) (simp_all add: own o)
qed

lemma delete_chains_keeps:
  "delete_chains exec xs s = Some s' \<Longrightarrow> inv s \<Longrightarrow> set xs \<subseteq> set all_chains \<Longrightarrow> inv s'"
proof (induction xs arbitrary: s)
  case (Cons x xs)
  then show ?case
    using deleteChain_keeps by (cases x) (fastforce split: option.splits)
qed simp

lemma cleanup_commands_own: "list_all (own_command c) (cleanup_commands c)"
  by (simp add: cleanup_commands_def own_command_def own_ip_def)

lemma cleanupRouting_keeps: "cleanupRouting exec c s = Some s' \<Longrightarrow> inv s \<Longrightarrow> inv s'"
  using delete_chains_keeps [of all_chains s] quiet_all_keeps [OF cleanup_commands_own]
  by (auto simp: cleanupRouting_def)

end

subsection \<open>The commands that are run\<close>

text \<open>A host that records every command given to it.\<close>

definition logged :: "'s exec \<Rightarrow> ('s \<times> command list) exec" where
  "logged exec cmd = (\<lambda>(s, log). let (r, s) = exec cmd s in (r, s, log @ [cmd]))"

definition only_own :: "Config \<Rightarrow> 's \<times> command list \<Rightarrow> bool" where
  "only_own c s = list_all (own_command c) (snd s)"

interpretation command_log: host_property "logged exec" c "only_own c" for exec c
  by unfold_locales (auto simp: logged_def only_own_def Let_def case_prod_beta)


end
