(* ===== verification/Firewall.thy ===== *)
theory Firewall
  imports Host_Commands
begin

text \<open>
  What the routing code does to the host's packet filter. \<open>iptables\<close> is outside the repository; what
  the code relies on of it is the predicate \<open>netfilter exec nf\<close>: the documented effect of the options
  \<open>-N\<close>, \<open>-F\<close>, \<open>-X\<close>, \<open>-C\<close>, \<open>-D\<close>, \<open>-A\<close> and \<open>-I\<close> on a filter seen as a map from a table and a chain
  to its rules, that a failed command changes nothing, and that checking, deleting and flushing
  succeed whenever they are possible. Creating, appending and inserting may fail at any time.

  Every command of the routing code keeps the administrator's part of the filter, and
  \<open>cleanupRouting\<close> terminates and removes exactly the rest.
\<close>

subsection \<open>The packet filter\<close>

type_synonym rule = "string list"
type_synonym firewall = "string \<times> string \<rightharpoonup> rule list"

definition referenced :: "string \<Rightarrow> string \<Rightarrow> firewall \<Rightarrow> bool" where
  "referenced t ch f \<longleftrightarrow> (\<exists>ch' rs. f (t, ch') = Some rs \<and> list_ex (\<lambda>r. rule_target r = Some ch) rs)"

text \<open>The effect of \<open>iptables args\<close>; \<open>None\<close> when the command cannot succeed. The only position used with
  \<open>-I\<close> is the first.\<close>

definition chain_effect :: "string \<Rightarrow> string \<Rightarrow> string \<Rightarrow> rule \<Rightarrow> rule list \<Rightarrow> firewall \<Rightarrow> firewall option" where
  "chain_effect t op ch rest rs f =
     (if op = ''-F'' then Some (f((t, ch) \<mapsto> []))
      else if op = ''-X'' then (if rs = [] \<and> \<not> referenced t ch f then Some (f((t, ch) := None)) else None)
      else if op = ''-C'' then (if rest \<in> set rs then Some f else None)
      else if op = ''-D'' then (if rest \<in> set rs then Some (f((t, ch) \<mapsto> remove1 rest rs)) else None)
      else if op = ''-A'' then Some (f((t, ch) \<mapsto> rs @ [rest]))
      else if op = ''-I'' then Some (f((t, ch) \<mapsto> tl rest # rs))
      else None)"

definition ipt_effect :: "string list \<Rightarrow> firewall \<Rightarrow> firewall option" where
  "ipt_effect args f =
     (case args of
        _ # t # op # ch # rest \<Rightarrow>
          if op = ''-N'' then (if f (t, ch) = None then Some (f((t, ch) \<mapsto> [])) else None)
          else (case f (t, ch) of None \<Rightarrow> None | Some rs \<Rightarrow> chain_effect t op ch rest rs f)
      | _ \<Rightarrow> None)"

definition reliable :: "string list \<Rightarrow> bool" where
  "reliable args \<longleftrightarrow> args ! 2 \<in> {''-C'', ''-D'', ''-F'', ''-X''}"

definition netfilter :: "'s exec \<Rightarrow> ('s \<Rightarrow> firewall) \<Rightarrow> bool" where
  "netfilter exec nf \<longleftrightarrow>
     (\<forall>name args s. name \<noteq> ''iptables'' \<longrightarrow> nf (snd (exec (name, args) s)) = nf s) \<and>
     (\<forall>args s. fst (exec (''iptables'', args) s) = None \<longrightarrow>
        ipt_effect args (nf s) = Some (nf (snd (exec (''iptables'', args) s)))) \<and>
     (\<forall>args s. fst (exec (''iptables'', args) s) \<noteq> None \<longrightarrow> nf (snd (exec (''iptables'', args) s)) = nf s) \<and>
     (\<forall>args s. reliable args \<and> ipt_effect args (nf s) \<noteq> None \<longrightarrow> fst (exec (''iptables'', args) s) = None)"

lemma netfilter_other: "netfilter exec nf \<Longrightarrow> name \<noteq> ''iptables'' \<Longrightarrow> nf (snd (exec (name, args) s)) = nf s"
  by (simp add: netfilter_def)

lemma netfilter_ok: "netfilter exec nf \<Longrightarrow> fst (exec (''iptables'', args) s) = None \<Longrightarrow>
    ipt_effect args (nf s) = Some (nf (snd (exec (''iptables'', args) s)))"
  and netfilter_err: "netfilter exec nf \<Longrightarrow> fst (exec (''iptables'', args) s) \<noteq> None \<Longrightarrow>
    nf (snd (exec (''iptables'', args) s)) = nf s"
  and netfilter_possible: "netfilter exec nf \<Longrightarrow> reliable args \<Longrightarrow> ipt_effect args (nf s) \<noteq> None \<Longrightarrow>
    fst (exec (''iptables'', args) s) = None"
  unfolding netfilter_def by blast+

lemma netfilter_cases:
  "netfilter exec nf \<Longrightarrow>
     ipt_effect args (nf s) = Some (nf (snd (exec (''iptables'', args) s))) \<or> nf (snd (exec (''iptables'', args) s)) = nf s"
  using netfilter_ok [of exec nf args s] netfilter_err [of exec nf args s]
  by (cases "fst (exec (''iptables'', args) s) = None") simp_all

lemma netfilter_reliable:
  assumes "netfilter exec nf" "reliable args"
  shows "nf (snd (exec (''iptables'', args) s)) = (case ipt_effect args (nf s) of None \<Rightarrow> nf s | Some f \<Rightarrow> f)"
    and "fst (exec (''iptables'', args) s) = None \<longleftrightarrow> ipt_effect args (nf s) \<noteq> None"
proof -
  show iff: "fst (exec (''iptables'', args) s) = None \<longleftrightarrow> ipt_effect args (nf s) \<noteq> None"
    using netfilter_ok [OF assms(1)] netfilter_possible [OF assms] by auto
  show "nf (snd (exec (''iptables'', args) s)) = (case ipt_effect args (nf s) of None \<Rightarrow> nf s | Some f \<Rightarrow> f)"
  proof (cases "fst (exec (''iptables'', args) s)")
    case None
    from netfilter_ok [OF assms(1) this] show ?thesis by simp
  next
    case (Some e)
    with iff netfilter_err [OF assms(1)] show ?thesis by simp
  qed
qed

subsection \<open>The administrator's part of the filter\<close>

text \<open>A filter without Hashshashin: none of its chains exists and no rule jumps to one.\<close>

definition clean :: "firewall \<Rightarrow> bool" where
  "clean f \<longleftrightarrow> (\<forall>t ch. own_chain t ch \<longrightarrow> f (t, ch) = None) \<and>
     (\<forall>t ch rs. f (t, ch) = Some rs \<longrightarrow> list_all plain_rule rs)"

text \<open>\<open>frame f0 f\<close>: apart from Hashshashin's chains and the jumps to them, \<open>f\<close> is \<open>f0\<close>, rule order
  included, and the rules of Hashshashin's chains do not jump to its chains.\<close>

definition frame :: "firewall \<Rightarrow> firewall \<Rightarrow> bool" where
  "frame f0 f \<longleftrightarrow>
     (\<forall>t ch. own_chain t ch \<longrightarrow> pred_option (list_all plain_rule) (f (t, ch))) \<and>
     (\<forall>t ch. \<not> own_chain t ch \<longrightarrow> map_option (filter (\<lambda>r. \<not> own_jump t ch r)) (f (t, ch)) = f0 (t, ch))"

lemma own_jump_iff: "own_jump t ch r \<longleftrightarrow> (\<exists>cu. (t, ch, cu) \<in> set all_chains \<and> r = [''-j'', cu])"
  by (force simp: own_jump_def list_ex_iff)

lemma own_chain_iff: "own_chain t ch \<longleftrightarrow> (\<exists>h. (t, h, ch) \<in> set all_chains)"
  by (force simp: own_chain_def list_ex_iff)

lemma rule_target_jump [simp]: "rule_target [''-j'', cu] = Some cu"
  by (simp add: rule_target_def)

lemma own_jump_not_plain: "own_jump t ch r \<Longrightarrow> \<not> plain_rule r"
  by (force simp: own_jump_iff plain_rule_def custom_chains_def)

lemma frame_clean:
  assumes "clean f"
  shows "frame f f"
proof -
  have "filter (\<lambda>r. \<not> own_jump t ch r) rs = rs" if "f (t, ch) = Some rs" for t ch rs
    using assms that own_jump_not_plain unfolding clean_def list_all_iff by (metis filter_True)
  then have "map_option (filter (\<lambda>r. \<not> own_jump t ch r)) (f (t, ch)) = f (t, ch)" for t ch
    by (cases "f (t, ch)") simp_all
  with assms show ?thesis by (auto simp: frame_def clean_def)
qed

lemma filter_remove1_out: "\<not> P r \<Longrightarrow> filter P (remove1 r rs) = filter P rs"
  by (induction rs) auto

lemma frame_update:
  assumes "frame f0 f" "own_chain t ch \<Longrightarrow> pred_option (list_all plain_rule) v"
    and "\<not> own_chain t ch \<Longrightarrow> map_option (filter (\<lambda>r. \<not> own_jump t ch r)) v = f0 (t, ch)"
  shows "frame f0 (f((t, ch) := v))"
  using assms by (auto simp: frame_def)

lemma own_iptables_frame:
  assumes "frame f0 f" "own_iptables args" "ipt_effect args f = Some f'"
  shows "frame f0 f'"
proof -
  obtain t op ch rest where args: "args = ''-t'' # t # op # ch # rest"
    using assms(2) by (auto simp: own_iptables_def split: list.splits)
  consider (new) "own_chain t ch" "op = ''-N''" "f' = f((t, ch) \<mapsto> [])"
    | (own) rs where "own_chain t ch" "f (t, ch) = Some rs" "chain_effect t op ch rest rs f = Some f'" "op \<noteq> ''-N''"
    | (hook) rs where "\<not> own_chain t ch" "f (t, ch) = Some rs" "chain_effect t op ch rest rs f = Some f'"
    using assms(2,3) by (auto simp: args ipt_effect_def own_iptables_def split: if_splits option.splits)
  then show ?thesis
  proof cases
    case new
    with assms(1) show ?thesis by (auto intro!: frame_update)
  next
    case own
    have "list_all plain_rule rs" using assms(1) own(1,2) by (fastforce simp: frame_def)
    with own assms(1,2) show ?thesis
      by (auto simp: args chain_effect_def own_iptables_def split: if_splits intro!: frame_update)
  next
    case hook
    then have "map_option (filter (\<lambda>r. \<not> own_jump t ch r)) (Some rs) = f0 (t, ch)"
      using assms(1) by (metis frame_def)
    with hook assms(1,2) show ?thesis
      by (auto simp: args chain_effect_def own_iptables_def filter_remove1_out split: if_splits intro!: frame_update)
  qed
qed

lemma own_command_frame:
  assumes "netfilter exec nf" "own_command c cmd" "frame f0 (nf s)"
  shows "frame f0 (nf (snd (exec cmd s)))"
proof (cases "fst cmd = ''iptables''")
  case True
  then obtain args where cmd: "cmd = (''iptables'', args)" by (cases cmd) simp
  then have "own_iptables args" using assms(2) by (simp add: own_command_def)
  with netfilter_cases [OF assms(1), of args s] own_iptables_frame assms(3) show ?thesis unfolding cmd by fastforce
next
  case False
  with netfilter_other [OF assms(1), of "fst cmd" "snd cmd" s] assms(3) show ?thesis by simp
qed

lemma netfilter_host_property: "netfilter exec nf \<Longrightarrow> host_property exec c (\<lambda>s. frame f0 (nf s))"
  by unfold_locales (rule own_command_frame)

subsection \<open>Deleting the chains\<close>

text \<open>What \<open>deleteChain\<close> does to the filter: every jump to the chain is removed, then the chain.\<close>

definition del_effect :: "string \<times> string \<times> string \<Rightarrow> firewall \<Rightarrow> firewall" where
  "del_effect x f =
     (case x of (t, h, cu) \<Rightarrow> f((t, h) := map_option (removeAll [''-j'', cu]) (f (t, h)), (t, cu) := None))"

lemma removeAll_remove1: "removeAll x (remove1 x xs) = removeAll x xs"
  by (induction xs) auto

lemma count_list_remove1: "x \<in> set xs \<Longrightarrow> count_list (remove1 x xs) x < count_list xs x"
  by (induction xs) (auto simp: count_list_0_iff intro: Suc_lessI)

lemma unhook_effect:
  assumes "netfilter exec nf"
  shows "\<exists>s'. unhook exec t h cu s = Some s' \<and> nf s' = (nf s)((t, h) := map_option (removeAll [''-j'', cu]) (nf s (t, h)))"
proof (induction "case nf s (t, h) of None \<Rightarrow> 0 | Some rs \<Rightarrow> count_list rs [''-j'', cu]" arbitrary: s rule: less_induct)
  case less
  let ?C = "[''-t'', t, ''-C'', h, ''-j'', cu]" and ?D = "[''-t'', t, ''-D'', h, ''-j'', cu]"
  have rel: "reliable ?C" "reliable ?D" by (simp_all add: reliable_def)
  obtain r s1 where c: "exec (''iptables'', ?C) s = (r, s1)" by fastforce
  note C = netfilter_reliable [OF assms rel(1), of s, unfolded c]
  have ne: "(\<exists>rs. nf s (t, h) = Some rs \<and> [''-j'', cu] \<in> set rs) \<longleftrightarrow> r = None"
    using C(2) by (auto simp: ipt_effect_def chain_effect_def split: option.splits if_splits)
  have s1: "nf s1 = nf s" using C(1) by (auto simp: ipt_effect_def chain_effect_def split: option.splits if_splits)
  show ?case
  proof (cases r)
    case (Some e)
    with ne have "map_option (removeAll [''-j'', cu]) (nf s (t, h)) = nf s (t, h)"
      by (cases "nf s (t, h)") (auto simp: removeAll_id)
    then have "nf s1 = (nf s)((t, h) := map_option (removeAll [''-j'', cu]) (nf s (t, h)))" using s1 by simp
    with Some c show ?thesis by (subst unhook.simps) (simp add: ipt_cmd_def)
  next
    case None
    with ne obtain rs where rs: "nf s (t, h) = Some rs" "[''-j'', cu] \<in> set rs" by blast
    let ?s = "snd (exec (''iptables'', ?D) s1)"
    have d: "nf ?s = (nf s)((t, h) \<mapsto> remove1 [''-j'', cu] rs)"
      using netfilter_reliable(1) [OF assms rel(2), of s1] rs s1 by (simp add: ipt_effect_def chain_effect_def)
    obtain s' where "unhook exec t h cu ?s = Some s'"
      "nf s' = (nf ?s)((t, h) := map_option (removeAll [''-j'', cu]) (nf ?s (t, h)))"
      using less [of ?s] d rs count_list_remove1 [OF rs(2)] by auto
    with None c d rs show ?thesis
      by (subst unhook.simps) (simp add: ipt_cmd_def runQuiet_def removeAll_remove1)
  qed
qed

lemma not_referenced:
  assumes "frame f0 f" "clean f0" "(t, h, cu) \<in> set all_chains"
    and gone: "\<And>rs. f (t, h) = Some rs \<Longrightarrow> [''-j'', cu] \<notin> set rs"
  shows "\<not> referenced t cu f"
proof
  assume "referenced t cu f"
  then obtain ch rs r where r: "f (t, ch) = Some rs" "r \<in> set rs" "rule_target r = Some cu"
    by (auto simp: referenced_def list_ex_iff)
  have "cu \<in> set custom_chains" using assms(3) by (force simp: custom_chains_def)
  with r(3) have np: "\<not> plain_rule r" by (simp add: plain_rule_def)
  have nown: "\<not> own_chain t ch" using assms(1) r np by (fastforce simp: frame_def list_all_iff)
  then have f0: "f0 (t, ch) = Some (filter (\<lambda>r. \<not> own_jump t ch r) rs)"
    using assms(1) r(1) by (metis frame_def option.map(2))
  have "own_jump t ch r"
  proof (rule ccontr)
    assume "\<not> own_jump t ch r"
    then have "r \<in> set (filter (\<lambda>r. \<not> own_jump t ch r) rs)" using r(2) by simp
    with assms(2) f0 np show False unfolding clean_def list_all_iff by blast
  qed
  then have "(t, ch, cu) \<in> set all_chains" "r = [''-j'', cu]" using r(3) by (auto simp: own_jump_iff)
  moreover have "ch = h" if "(t, ch, cu) \<in> set all_chains" using that assms(3) by (auto simp: all_chains_def)
  ultimately show False using gone r by blast
qed

lemma deleteChain_effect:
  assumes "netfilter exec nf" "frame f0 (nf s)" "clean f0" "(t, h, cu) \<in> set all_chains"
  shows "\<exists>s'. deleteChain exec (t, h, cu) s = Some s' \<and> nf s' = del_effect (t, h, cu) (nf s) \<and> frame f0 (nf s')"
proof -
  obtain s1 where s1: "unhook exec t h cu s = Some s1"
    "nf s1 = (nf s)((t, h) := map_option (removeAll [''-j'', cu]) (nf s (t, h)))"
    using unhook_effect [OF assms(1)] by blast
  let ?F = "[''-t'', t, ''-F'', cu]" and ?X = "[''-t'', t, ''-X'', cu]"
  let ?s2 = "snd (exec (''iptables'', ?F) s1)" let ?s3 = "snd (exec (''iptables'', ?X) ?s2)"
  have rel: "reliable ?F" "reliable ?X" by (simp_all add: reliable_def)
  have d: "deleteChain exec (t, h, cu) s = Some ?s3" by (simp add: deleteChain_def s1 ipt_cmd_def runQuiet_def)
  have own: "own_chain t cu" "\<not> own_chain t h" and jump: "own_jump t h [''-j'', cu]"
    using assms(4) chains_own by (auto simp: list_all_iff own_jump_iff)
  then have hc: "h \<noteq> cu" by blast
  have "filter (\<lambda>r. \<not> own_jump t h r) (removeAll [''-j'', cu] rs) = filter (\<lambda>r. \<not> own_jump t h r) rs" for rs
    using jump by (induction rs) auto
  then have "map_option (filter (\<lambda>r. \<not> own_jump t h r)) (map_option (removeAll [''-j'', cu]) (nf s (t, h))) = f0 (t, h)"
    using assms(2) own(2) by (simp add: frame_def option.map_comp comp_def)
  then have fr1: "frame f0 (nf s1)" unfolding s1(2) using assms(2) own by (intro frame_update) auto
  have n2: "nf ?s2 = (nf s1)((t, cu) := map_option (\<lambda>_. []) (nf s1 (t, cu)))"
    using netfilter_reliable(1) [OF assms(1) rel(1), of s1]
    by (auto simp: ipt_effect_def chain_effect_def fun_eq_iff split: option.splits)
  then have fr2: "frame f0 (nf ?s2)" using fr1 own by (cases "nf s1 (t, cu)") (auto intro!: frame_update)
  have "\<not> referenced t cu (nf ?s2)"
    by (rule not_referenced [OF fr2 assms(3,4)]) (use n2 s1(2) hc in \<open>auto split: if_splits\<close>)
  moreover have "nf ?s2 (t, cu) = None \<or> nf ?s2 (t, cu) = Some []"
    unfolding n2 by (cases "nf s1 (t, cu)") simp_all
  ultimately have n3: "nf ?s3 = (nf ?s2)((t, cu) := None)"
    using netfilter_reliable(1) [OF assms(1) rel(2), of ?s2]
    by (auto simp: ipt_effect_def chain_effect_def)
  then have "frame f0 (nf ?s3)" using fr2 own by (auto intro!: frame_update)
  moreover have "nf ?s3 = del_effect (t, h, cu) (nf s)" by (simp add: n3 n2 s1(2) del_effect_def)
  ultimately show ?thesis using d by blast
qed

lemma delete_chains_effect:
  assumes "netfilter exec nf" "clean f0"
  shows "frame f0 (nf s) \<Longrightarrow> set xs \<subseteq> set all_chains \<Longrightarrow>
    \<exists>s'. delete_chains exec xs s = Some s' \<and> nf s' = fold del_effect xs (nf s) \<and> frame f0 (nf s')"
proof (induction xs arbitrary: s)
  case (Cons x xs)
  obtain t h cu where x: "x = (t, h, cu)" by (cases x)
  with Cons.prems have "(t, h, cu) \<in> set all_chains" by simp
  from deleteChain_effect [OF assms(1) Cons.prems(1) assms(2) this] x
  obtain s1 where "deleteChain exec x s = Some s1" "nf s1 = del_effect x (nf s)" "frame f0 (nf s1)" by auto
  with Cons.IH [of s1] Cons.prems show ?case by auto
qed simp

text \<open>Once a chain is gone it stays gone.\<close>

definition gone :: "firewall \<Rightarrow> string \<times> string \<times> string \<Rightarrow> bool" where
  "gone f x = (case x of (t, h, cu) \<Rightarrow> f (t, cu) = None \<and> pred_option (\<lambda>rs. [''-j'', cu] \<notin> set rs) (f (t, h)))"

lemma gone_del_same: "gone (del_effect x f) x"
  by (cases x; cases "f (fst x, fst (snd x))") (auto simp: gone_def del_effect_def)

lemma gone_del_keeps: "gone f x \<Longrightarrow> gone (del_effect y f) x"
  by (cases x; cases y) (auto simp: gone_def del_effect_def option.pred_set elem_set)

lemma gone_fold: "x \<in> set xs \<or> gone f x \<Longrightarrow> gone (fold del_effect xs f) x"
  by (induction xs arbitrary: f) (auto intro: gone_del_same gone_del_keeps)

lemma frame_all_gone:
  assumes "frame f0 f" "clean f0" "\<And>x. x \<in> set all_chains \<Longrightarrow> gone f x"
  shows "f = f0"
proof
  fix k :: "string \<times> string"
  obtain t ch where k: "k = (t, ch)" by (cases k)
  show "f k = f0 k"
  proof (cases "own_chain t ch")
    case True
    then obtain h where "(t, h, ch) \<in> set all_chains" by (auto simp: own_chain_iff)
    from assms(3) [OF this] assms(2) True show ?thesis by (simp add: k gone_def clean_def)
  next
    case False
    have "\<not> own_jump t ch r" if "f (t, ch) = Some rs" "r \<in> set rs" for rs r
      using assms(3) that by (fastforce simp: own_jump_iff gone_def)
    then have "map_option (filter (\<lambda>r. \<not> own_jump t ch r)) (f (t, ch)) = f (t, ch)"
      by (cases "f (t, ch)") simp_all
    with False assms(1) show ?thesis by (simp add: frame_def k)
  qed
qed

lemma quiet_all_nf:
  "netfilter exec nf \<Longrightarrow> list_all (\<lambda>cmd. fst cmd \<noteq> ''iptables'') cmds \<Longrightarrow> nf (quiet_all exec cmds s) = nf s"
  by (induction cmds arbitrary: s) (auto simp: quiet_all_def runQuiet_def netfilter_other)

lemma cleanup_commands_ip: "list_all (\<lambda>cmd. fst cmd \<noteq> ''iptables'') (cleanup_commands c)"
  by (simp add: cleanup_commands_def)

lemma cleanupRouting_restores:
  assumes "netfilter exec nf" "clean f0" "frame f0 (nf s)"
  shows "\<exists>s'. cleanupRouting exec c s = Some s' \<and> nf s' = f0"
proof -
  obtain s1 where s1: "delete_chains exec all_chains s = Some s1" "nf s1 = fold del_effect all_chains (nf s)" "frame f0 (nf s1)"
    using delete_chains_effect [OF assms] by blast
  have "nf s1 = f0" by (rule frame_all_gone [OF s1(3) assms(2)]) (simp add: s1(2) gone_fold)
  with s1(1) quiet_all_nf [OF assms(1) cleanup_commands_ip] show ?thesis by (simp add: cleanupRouting_def)
qed

subsection \<open>Cleaning up from any state\<close>

text \<open>Without any assumption on the filter, deleting ends and leaves no jump to the chains.\<close>

definition no_jump :: "firewall \<Rightarrow> string \<times> string \<times> string \<Rightarrow> bool" where
  "no_jump f x = (case x of (t, h, cu) \<Rightarrow> pred_option (\<lambda>rs. [''-j'', cu] \<notin> set rs) (f (t, h)))"

lemma shrink_no_jump:
  assumes "no_jump f x" "\<And>k. pred_option (\<lambda>rs. \<exists>rs0. f k = Some rs0 \<and> set rs \<subseteq> set rs0) (f' k)"
  shows "no_jump f' x"
proof -
  obtain t h cu where x: "x = (t, h, cu)" by (cases x)
  show ?thesis using assms(1) assms(2) [of "(t, h)"] by (cases "f' (t, h)") (auto simp: no_jump_def x)
qed

lemma flush_delete_shrinks:
  assumes "netfilter exec nf" "op = ''-F'' \<or> op = ''-X''"
  shows "pred_option (\<lambda>rs. \<exists>rs0. nf s k = Some rs0 \<and> set rs \<subseteq> set rs0) (nf (snd (exec (ipt_cmd t [op, cu]) s)) k)"
proof -
  have "reliable [''-t'', t, op, cu]" using assms(2) by (auto simp: reliable_def)
  from netfilter_reliable(1) [OF assms(1) this, of s] assms(2) show ?thesis
    by (cases "nf s k") (auto simp: ipt_cmd_def ipt_effect_def chain_effect_def option.pred_set elem_set split: option.splits if_splits)
qed

lemma deleteChain_terminates:
  assumes "netfilter exec nf"
  shows "\<exists>s'. deleteChain exec x s = Some s' \<and> no_jump (nf s') x \<and> (\<forall>y. no_jump (nf s) y \<longrightarrow> no_jump (nf s') y)"
proof -
  obtain t h cu where x: "x = (t, h, cu)" by (cases x)
  obtain s1 where s1: "unhook exec t h cu s = Some s1"
    "nf s1 = (nf s)((t, h) := map_option (removeAll [''-j'', cu]) (nf s (t, h)))"
    using unhook_effect [OF assms] by blast
  have one: "no_jump (nf s1) x" by (cases "nf s (t, h)") (simp_all add: s1(2) x no_jump_def)
  have keep: "no_jump (nf s1) y" if "no_jump (nf s) y" for y
    by (rule shrink_no_jump [OF that]) (auto simp: s1(2) option.pred_set elem_set)
  let ?s2 = "runQuiet exec (ipt_cmd t [''-F'', cu]) s1" let ?s3 = "runQuiet exec (ipt_cmd t [''-X'', cu]) ?s2"
  have "no_jump (nf ?s3) y" if "no_jump (nf s1) y" for y
    unfolding runQuiet_def
    by (rule shrink_no_jump [OF shrink_no_jump [OF that]]; rule flush_delete_shrinks [OF assms]; simp)
  moreover have "deleteChain exec x s = Some ?s3" by (simp add: deleteChain_def s1 x)
  ultimately show ?thesis using one keep by blast
qed

lemma delete_chains_terminates:
  assumes "netfilter exec nf"
  shows "\<exists>s'. delete_chains exec xs s = Some s' \<and> (\<forall>y. y \<in> set xs \<or> no_jump (nf s) y \<longrightarrow> no_jump (nf s') y)"
proof (induction xs arbitrary: s)
  case (Cons x xs)
  obtain s1 where s1: "deleteChain exec x s = Some s1" "no_jump (nf s1) x" "\<forall>y. no_jump (nf s) y \<longrightarrow> no_jump (nf s1) y"
    using deleteChain_terminates [OF assms] by blast
  with Cons.IH [of s1] show ?case by auto
qed simp

end
