(* ===== verification/Config_Sound.thy ===== *)
theory Config_Sound
  imports Config
begin

text \<open>
  What an accepted configuration guarantees: \<open>loadConfig\<close> is a fixed point on its results, all
  values the daemon uses are in range, and no service port collides with another, with the
  carrier or with the probe.
\<close>

subsection \<open>The parts of loadConfig on completed configurations\<close>

definition basics_ok :: "Config \<Rightarrow> bool" where
  "basics_ok c \<longleftrightarrow>
     Role c \<in> {''iran'', ''kharej''} \<and> Mode c \<in> {''full'', ''direct-return''} \<and>
     t_Type (c_Transport c) \<in> {''udp'', ''tcp'', ''kcp''} \<and>
     Name (Tun c) \<noteq> '''' \<and> length (Name (Tun c)) \<le> 15 \<and>
     900 \<le> MTU (Tun c) \<and> MTU (Tun c) \<le> 1400 \<and>
     2 \<le> KeepaliveSeconds (c_Transport c) \<and> KeepaliveSeconds (c_Transport c) \<le> 60 \<and>
     2 * KeepaliveSeconds (c_Transport c) \<le> SessionTimeoutSeconds (c_Transport c) \<and>
     5 \<le> RekeyMinutes (c_Transport c) \<and> RekeyMinutes (c_Transport c) \<le> 1440"

definition tuning_ok :: "load_env \<Rightarrow> Config \<Rightarrow> bool" where
  "tuning_ok env c \<longleftrightarrow>
     load_section (applyPerformanceDefaults (env_unicode env) (env_numCPU env)) validatePerformance
       (c_Performance c) = Inr (c_Performance c) \<and>
     (t_Type (c_Transport c) = ''kcp'' \<longrightarrow>
        load_section applyKCPDefaults validateKCP (KCP (c_Transport c)) = Inr (KCP (c_Transport c)))"

definition smart_ok :: "Config \<Rightarrow> bool" where
  "smart_ok c \<longleftrightarrow>
     (Enabled (SmartReturn c) \<longrightarrow>
        Mode c = ''direct-return'' \<and> Ports c \<noteq> [] \<and>
        load_section applySmartReturnDefaults validateSmartReturn (SmartReturn c) = Inr (SmartReturn c))"

lemma check_basics_None:
  "check_basics c = None \<longleftrightarrow>
     t_Type (c_Transport c) \<in> {''udp'', ''tcp'', ''kcp''} \<and> length (Name (Tun c)) \<le> 15 \<and>
     900 \<le> MTU (Tun c) \<and> MTU (Tun c) \<le> 1400 \<and>
     2 \<le> KeepaliveSeconds (c_Transport c) \<and> KeepaliveSeconds (c_Transport c) \<le> 60 \<and>
     2 * KeepaliveSeconds (c_Transport c) \<le> SessionTimeoutSeconds (c_Transport c) \<and>
     5 \<le> RekeyMinutes (c_Transport c) \<and> RekeyMinutes (c_Transport c) \<le> 1440"
  by (simp add: check_basics_def Let_def not_less mult.commute conj_ac)

lemma basic_defaults_simps:
  "Role (apply_basic_defaults c) = Role c" "Mode (apply_basic_defaults c) = Mode c"
  "Name (Tun (apply_basic_defaults c)) \<noteq> ''''"
  by (simp_all add: apply_basic_defaults_def Let_def)

lemma basic_defaults_id:
  "t_Type (c_Transport c) \<noteq> '''' \<Longrightarrow> Name (Tun c) \<noteq> '''' \<Longrightarrow> MTU (Tun c) \<noteq> 0 \<Longrightarrow>
     KeepaliveSeconds (c_Transport c) \<noteq> 0 \<Longrightarrow> SessionTimeoutSeconds (c_Transport c) \<noteq> 0 \<Longrightarrow>
     RekeyMinutes (c_Transport c) \<noteq> 0 \<Longrightarrow> apply_basic_defaults c = c"
  by (simp add: apply_basic_defaults_def Let_def)

lemma basics_ok_alt:
  "basics_ok c \<longleftrightarrow> Role c \<in> {''iran'', ''kharej''} \<and> Mode c \<in> {''full'', ''direct-return''} \<and>
     Name (Tun c) \<noteq> '''' \<and> check_basics c = None"
  unfolding basics_ok_def check_basics_None by blast

lemma load_basics_ok: "load_basics c = Inr d \<Longrightarrow> basics_ok d"
  unfolding load_basics_def load_section_def basics_ok_alt Let_def
  by (clarsimp simp: basic_defaults_simps split: if_splits option.splits)

lemma load_basics_fix:
  assumes "basics_ok c"
  shows "load_basics c = Inr c"
proof -
  have "apply_basic_defaults c = c"
    using assms by (intro basic_defaults_id) (auto simp: basics_ok_def)
  with assms show ?thesis
    by (auto simp: basics_ok_alt load_basics_def load_section_def)
qed

lemma load_tuningE:
  assumes "load_tuning env c = Inr d"
  obtains perf k where "d = c\<lparr>c_Performance := perf, c_Transport := (c_Transport c)\<lparr>KCP := k\<rparr>\<rparr>"
    "load_section (applyPerformanceDefaults (env_unicode env) (env_numCPU env)) validatePerformance (c_Performance c) = Inr perf"
    "t_Type (c_Transport c) = ''kcp'' \<longrightarrow> load_section applyKCPDefaults validateKCP (KCP (c_Transport c)) = Inr k"
proof (cases "t_Type (c_Transport c) = ''kcp''")
  case True
  with assms that show ?thesis by (clarsimp simp: load_tuning_def Let_def)
next
  case False
  with assms that [of "KCP (c_Transport c)"] show ?thesis by (clarsimp simp: load_tuning_def Let_def)
qed

lemma load_tuning_ok: "load_tuning env c = Inr d \<Longrightarrow> tuning_ok env d"
  by (erule load_tuningE) (auto simp: tuning_ok_def performance.load_fixpoint kcp.load_fixpoint)

lemma load_tuning_basics: "load_tuning env c = Inr d \<Longrightarrow> basics_ok c \<Longrightarrow> basics_ok d"
  by (erule load_tuningE) (simp add: basics_ok_def)

lemma load_tuning_fix: "tuning_ok env c \<Longrightarrow> load_tuning env c = Inr c"
  by (simp add: load_tuning_def tuning_ok_def Let_def)

lemma Enabled_defaults [simp]: "Enabled (applySmartReturnDefaults s) = Enabled s"
  by (simp add: applySmartReturnDefaults_def)

lemma load_section_Enabled:
  "load_section applySmartReturnDefaults v s = Inr s' \<Longrightarrow> Enabled s' = Enabled s"
  by (auto simp: load_section_def Let_def split: option.splits)

lemma load_smart_returnE:
  assumes "load_smart_return c = Inr d"
  obtains "\<not> Enabled (SmartReturn c)" "d = c"
  | s where "Enabled (SmartReturn c)" "Mode c = ''direct-return''" "Ports c \<noteq> []"
      "load_section applySmartReturnDefaults validateSmartReturn (SmartReturn c) = Inr s" "d = c\<lparr>SmartReturn := s\<rparr>"
  using assms by (auto simp: load_smart_return_def split: if_splits)

lemma load_smart_ok: "load_smart_return c = Inr d \<Longrightarrow> smart_ok d"
  by (erule load_smart_returnE) (simp_all add: smart_ok_def smart_return.load_fixpoint)

lemma load_smart_fix: "smart_ok c \<Longrightarrow> load_smart_return c = Inr c"
  by (simp add: load_smart_return_def smart_ok_def)

lemma load_smart_keeps:
  "load_smart_return c = Inr d \<Longrightarrow> basics_ok d = basics_ok c \<and> tuning_ok env d = tuning_ok env c \<and>
     check_addresses res d = check_addresses res c"
  by (erule load_smart_returnE)
    (simp_all add: basics_ok_def tuning_ok_def check_addresses_def Let_def split del: if_split cong: if_cong)

definition config_ok :: "load_env \<Rightarrow> Config \<Rightarrow> bool" where
  "config_ok env c \<longleftrightarrow> basics_ok c \<and> tuning_ok env c \<and> check_addresses (env_resolver env) c = None \<and>
     smart_ok c \<and> check_services c = None"

lemma loadConfig_ok:
  assumes "loadConfig env file = Inr c"
  shows "config_ok env c"
proof -
  obtain c0 c1 c2 where l: "load_basics c0 = Inr c1" "load_tuning env c1 = Inr c2"
    "check_addresses (env_resolver env) c2 = None" "load_smart_return c2 = Inr c" "check_services c = None"
    using assms by (auto simp: loadConfig_def split: config_file.splits)
  then show ?thesis
    using load_tuning_basics [OF l(2) load_basics_ok [OF l(1)]] load_tuning_ok [OF l(2)]
      load_smart_keeps [OF l(4)] load_smart_ok [OF l(4)]
    by (auto simp: config_ok_def)
qed

lemma loadConfig_fix: "config_ok env c \<Longrightarrow> loadConfig env (Decoded c) = Inr c"
  by (simp add: config_ok_def loadConfig_def load_basics_fix load_tuning_fix load_smart_fix)

subsection \<open>Service ports\<close>

lemma slash_not_in_itoa: "CHR ''/'' \<notin> set (itoa i)"
  using itoa_chars [of "CHR ''/''" i] by (auto simp: is_digit_def)

lemma port_key_inject [simp]: "port_key p = port_key q \<longleftrightarrow> p = q"
proof
  assume "port_key p = port_key q"
  then have "p_Port p = p_Port q \<and> p_Protocol p = p_Protocol q"
    using append_sep_inject [OF slash_not_in_itoa slash_not_in_itoa, of "p_Port p" "p_Protocol p" "p_Port q" "p_Protocol q"]
    by (simp add: port_key_def)
  then show "p = q" by simp
qed simp

lemma check_ports_None:
  "check_ports seen ps = None \<Longrightarrow>
     distinct ps \<and> (\<forall>p\<in>set ps. port_key p \<notin> set seen \<and> 1 \<le> p_Port p \<and> p_Port p \<le> 65535 \<and>
       p_Protocol p \<in> {''tcp'', ''udp'', ''both''})"
  by (induction seen ps rule: check_ports.induct) (auto split: if_splits)

lemma check_conflicts_None:
  "check_conflicts c port proto ps = None \<Longrightarrow> p \<in> set ps \<Longrightarrow>
     \<not> (p_Port p = port \<and> protocolIncludes (p_Protocol p) proto) \<and>
     \<not> (Enabled (SmartReturn c) \<and> p_Port p = ProbePort (SmartReturn c) \<and> protocolIncludes (p_Protocol p) ''udp'')"
  by (induction c port proto ps rule: check_conflicts.induct) (auto simp: protocolIncludes_def split: if_splits)

lemma check_services_None:
  assumes "check_services c = None" "Ports c \<noteq> []"
  obtains port where "check_ports [] (Ports c) = None" "listenPort (Listen (c_Transport c)) = Inr port"
    "check_conflicts c port (transportNetwork (t_Type (c_Transport c))) (Ports c) = None"
    "\<not> (Enabled (SmartReturn c) \<and> transportNetwork (t_Type (c_Transport c)) = ''udp'' \<and> port = ProbePort (SmartReturn c))"
    "is_ipv4 (PublicIP (Network c))" "is_ipv4 (ForeignPublicIP (Network c))" "is_ipv4 (IranPublicIP (Network c))"
    "PublicInterface (Network c) \<noteq> ''''"
  using assms
  by (auto simp: check_services_def Let_def split: if_splits option.splits sum.splits)

subsection \<open>A concrete configuration\<close>

definition demo_env :: load_env where
  "demo_env = \<lparr>env_unicode = \<lparr>uni_trim_space = id, uni_to_lower = id\<rparr>, env_numCPU = 4,
     env_resolver = \<lparr>dns_lookup = (\<lambda>_. None), service_port = (\<lambda>_ _. None)\<rparr>\<rparr>"

definition demo_config :: "string \<Rightarrow> int \<Rightarrow> Config" where
  "demo_config typ timeout =
     \<lparr>Role = ''kharej'', Mode = ''direct-return'',
      c_Transport = \<lparr>t_Type = typ, Listen = ''0.0.0.0:9000'', Peer = '''', Key = b64_encode (replicate 32 1),
        KeepaliveSeconds = 5, SessionTimeoutSeconds = timeout, RekeyMinutes = 30, KCP = applyKCPDefaults zero_kcp\<rparr>,
      SmartReturn = applySmartReturnDefaults (zero_smart_return\<lparr>Enabled := True\<rparr>),
      c_Performance = applyPerformanceDefaults (env_unicode demo_env) 4 zero_performance,
      Tun = \<lparr>Name = ''hsh0'', LocalCIDR = ''10.66.0.2/30'', PeerIP = ''10.66.0.1'', MTU = 1320\<rparr>,
      Network = \<lparr>PublicInterface = ''eth0'', PublicIP = ''192.0.2.7'', PublicGateway = '''',
        ForeignPublicIP = ''192.0.2.7'', IranPublicIP = ''198.51.100.9'', LockServicePorts = True\<rparr>,
      Ports = [\<lparr>p_Port = 443, p_Protocol = ''tcp''\<rparr>, \<lparr>p_Port = 53, p_Protocol = ''both''\<rparr>]\<rparr>"

lemma demo_addresses:
  "resolveAddr4 \<lparr>dns_lookup = (\<lambda>_. None), service_port = (\<lambda>_ _. None)\<rparr> ''udp4'' ''0.0.0.0:9000'' = Some (Some [0, 0, 0, 0], 9000)"
  "ParseCIDR ''10.66.0.2/30'' = Some (v4prefix @ [10, 66, 0, 2], 30)"
  "is_ipv4 ''10.66.0.1''" "is_ipv4 ''192.0.2.7''" "is_ipv4 ''198.51.100.9''"
  "listenPort ''0.0.0.0:9000'' = Inr 9000"
  by code_simp+

lemma demo_config_ok:
  assumes "10 \<le> timeout" "typ = ''udp'' \<or> typ = ''kcp''"
  shows "config_ok demo_env (demo_config typ timeout)"
proof -
  have sr: "load_section applySmartReturnDefaults validateSmartReturn (SmartReturn (demo_config typ timeout))
      = Inr (SmartReturn (demo_config typ timeout))"
    by (simp add: demo_config_def zero_smart_return_def load_section_def applySmartReturnDefaults_def validateSmartReturn_def)
  have "basics_ok (demo_config typ timeout)"
    using assms by (auto simp: basics_ok_def demo_config_def)
  moreover have "tuning_ok demo_env (demo_config typ timeout)"
    using performance.load_fixpoint [OF performance.load_zero, of "env_unicode demo_env" 4]
      kcp.load_fixpoint [OF kcp.load_zero]
    by (simp add: tuning_ok_def demo_config_def) (simp add: demo_env_def)
  moreover have "check_addresses (env_resolver demo_env) (demo_config typ timeout) = None"
    using assms(2)
    by (auto simp: check_addresses_def demo_config_def demo_env_def b64_decode_encode validateTransportAddress_def
        ResolveUDPAddr_def demo_addresses)
  moreover have "smart_ok (demo_config typ timeout)"
    using sr by (simp add: smart_ok_def) (simp add: demo_config_def)
  moreover have "check_services (demo_config typ timeout) = None"
    using assms(2)
    by (auto simp: check_services_def demo_config_def demo_addresses transportNetwork_def protocolIncludes_def
        applySmartReturnDefaults_def zero_smart_return_def port_key_def [symmetric])
  ultimately show ?thesis by (simp add: config_ok_def)
qed

lemma demo_config_loaded:
  "10 \<le> timeout \<Longrightarrow> typ = ''udp'' \<or> typ = ''kcp'' \<Longrightarrow> loadConfig demo_env (Decoded (demo_config typ timeout)) = Inr (demo_config typ timeout)"
  by (intro loadConfig_fix demo_config_ok)

subsection \<open>Properties\<close>

text \<open>C34: \<open>loadConfig\<close> is a fixed point on its own results: an accepted configuration, written back
  and loaded again, is accepted and unchanged.\<close>

theorem loadConfig_idempotent:
  assumes "loadConfig env file = Inr c"
  shows "loadConfig env (Decoded c) = Inr c"
  using loadConfig_fix [OF loadConfig_ok [OF assms]] .

theorem loadConfig_idempotent_witness:
  "loadConfig demo_env (Decoded (demo_config ''udp'' 25)) = Inr (demo_config ''udp'' 25)"
  using loadConfig_idempotent [OF demo_config_loaded [of 25 "''udp''"]] by simp

text \<open>C35: what the daemon relies on of an accepted configuration: the key decodes to 32 bytes, every
  ticker interval is a positive duration (so \<open>time.NewTicker\<close> does not panic), the rekey interval
  does not overflow, and the probe timeout is shorter than the probe interval.\<close>

theorem loadConfig_sound:
  assumes "loadConfig env file = Inr c"
  shows "(\<exists>key. b64_decode (Key (c_Transport c)) = Some key \<and> length key = 32) \<and>
    0 < seconds (KeepaliveSeconds (c_Transport c)) \<and>
    0 < seconds (StatsIntervalSeconds (c_Performance c)) \<and>
    minutes (RekeyMinutes (c_Transport c)) = RekeyMinutes (c_Transport c) * minute \<and>
    (Enabled (SmartReturn c) \<longrightarrow>
       0 < seconds (TimeoutSeconds (SmartReturn c)) \<and>
       seconds (TimeoutSeconds (SmartReturn c)) < seconds (IntervalSeconds (SmartReturn c)))"
proof -
  from loadConfig_ok [OF assms] have b: "basics_ok c" and t: "tuning_ok env c" and s: "smart_ok c"
    and a: "check_addresses (env_resolver env) c = None"
    by (simp_all add: config_ok_def)
  have "\<exists>key. b64_decode (Key (c_Transport c)) = Some key \<and> length key = 32"
    using a by (auto simp: check_addresses_def Let_def split: option.splits if_splits)
  moreover have "0 < seconds (KeepaliveSeconds (c_Transport c))"
    "minutes (RekeyMinutes (c_Transport c)) = RekeyMinutes (c_Transport c) * minute"
    using b by (simp_all add: basics_ok_def time_defs fits64_def)
  moreover have "validatePerformance (c_Performance c) = None"
    using t performance.load_valid by (auto simp: tuning_ok_def)
  then have "0 < seconds (StatsIntervalSeconds (c_Performance c))"
    by (simp add: validatePerformance_def time_defs fits64_def split: if_splits)
  moreover have "Enabled (SmartReturn c) \<longrightarrow> validateSmartReturn (SmartReturn c) = None"
    using s smart_return.load_valid by (auto simp: smart_ok_def)
  then have "Enabled (SmartReturn c) \<longrightarrow> 0 < seconds (TimeoutSeconds (SmartReturn c)) \<and>
       seconds (TimeoutSeconds (SmartReturn c)) < seconds (IntervalSeconds (SmartReturn c))"
    by (auto simp: validateSmartReturn_def time_defs fits64_def split: if_splits)
  ultimately show ?thesis by blast
qed

theorem loadConfig_sound_witness:
  "seconds (TimeoutSeconds (SmartReturn (demo_config ''udp'' 25))) < seconds (IntervalSeconds (SmartReturn (demo_config ''udp'' 25)))"
  using loadConfig_sound [OF demo_config_loaded [of 25 "''udp''"]]
  by (simp add: demo_config_def zero_smart_return_def)

text \<open>C36: the services of an accepted configuration are listed once, their ports are valid, and none
  of them takes the port and protocol of the carrier socket or of the smart-return probe; nor does
  the probe take the port of a UDP carrier.\<close>

theorem loadConfig_ports:
  assumes "loadConfig env file = Inr c" "Ports c \<noteq> []"
  shows "distinct (Ports c) \<and>
    (\<exists>port. listenPort (Listen (c_Transport c)) = Inr port \<and>
      (\<forall>p\<in>set (Ports c). 1 \<le> p_Port p \<and> p_Port p \<le> 65535 \<and>
         (p_Port p = port \<longrightarrow> \<not> protocolIncludes (p_Protocol p) (transportNetwork (t_Type (c_Transport c)))) \<and>
         (Enabled (SmartReturn c) \<and> p_Port p = ProbePort (SmartReturn c) \<longrightarrow> \<not> protocolIncludes (p_Protocol p) ''udp'')) \<and>
      (Enabled (SmartReturn c) \<and> ProbePort (SmartReturn c) = port \<longrightarrow> transportNetwork (t_Type (c_Transport c)) = ''tcp''))"
proof -
  have "check_services c = None"
    using loadConfig_ok [OF assms(1)] by (simp add: config_ok_def)
  then obtain port where s: "check_ports [] (Ports c) = None" "listenPort (Listen (c_Transport c)) = Inr port"
    "check_conflicts c port (transportNetwork (t_Type (c_Transport c))) (Ports c) = None"
    "\<not> (Enabled (SmartReturn c) \<and> transportNetwork (t_Type (c_Transport c)) = ''udp'' \<and> port = ProbePort (SmartReturn c))"
    using assms(2) by (rule check_services_None)
  show ?thesis
    using check_ports_None [OF s(1)] s(2,4) check_conflicts_None [OF s(3)]
      transportNetwork_cases [of "t_Type (c_Transport c)"]
    by blast
qed

theorem loadConfig_ports_witness:
  "distinct (Ports (demo_config ''udp'' 25))"
  using loadConfig_ports [OF demo_config_loaded [of 25 "''udp''"]] by (simp add: demo_config_def)

text \<open>Two entries for the same port are accepted when one of them says \<open>both\<close>.\<close>

lemma overlapping_ports_accepted:
  "check_ports [] [\<lparr>p_Port = 80, p_Protocol = ''tcp''\<rparr>, \<lparr>p_Port = 80, p_Protocol = ''both''\<rparr>] = None"
  by simp

text \<open>Zero is not a possible value of the KCP flags: whatever the configuration says, an accepted
  KCP section runs with \<open>nodelay = 1\<close>, \<open>nc = 1\<close> and a fast-resend of 1 or 2.\<close>

lemma kcp_flags_fixed:
  assumes "loadConfig env file = Inr c" "t_Type (c_Transport c) = ''kcp''"
  shows "NoDelay (KCP (c_Transport c)) = 1 \<and> NoCongestion (KCP (c_Transport c)) = 1 \<and>
    Resend (KCP (c_Transport c)) \<in> {1, 2}"
proof -
  let ?k = "KCP (c_Transport c)"
  have l: "load_section applyKCPDefaults validateKCP ?k = Inr ?k"
    using loadConfig_ok [OF assms(1)] assms(2) by (simp add: config_ok_def tuning_ok_def)
  then have "applyKCPDefaults ?k = ?k" by (auto simp: load_section_def Let_def split: option.splits)
  then have "NoDelay ?k \<noteq> 0" "NoCongestion ?k \<noteq> 0" "Resend ?k \<noteq> 0" using kcp_defaults_nonzero [of ?k] by simp_all
  with kcp.load_valid [OF l] show ?thesis by (auto simp: validateKCP_def split: if_splits)
qed

end
