(* ===== verification/Firewall_Setup.thy ===== *)
theory Firewall_Setup
  imports Firewall Config_Sound
begin

text \<open>
  The packet filter over the life of the program: the rules that a successful setup on Kharej
  installs, and the state of the filter after any sequence of setup and cleanup operations. Whatever
  the code installed, completely or up to a failed command, cleaning up leaves the filter exactly as
  the administrator had it.
\<close>

subsection \<open>What a successful setup installs\<close>

text \<open>\<open>appends nf k f rs\<close>: whenever the step \<open>f\<close> succeeds, the chain \<open>k\<close> has grown by the rules \<open>rs\<close>.\<close>

definition appends :: "('s \<Rightarrow> firewall) \<Rightarrow> string \<times> string \<Rightarrow> ('s \<Rightarrow> 'e option \<times> 's) \<Rightarrow> rule list \<Rightarrow> bool" where
  "appends nf k f rs \<longleftrightarrow> (\<forall>s s' old. f s = (None, s') \<longrightarrow> nf s k = Some old \<longrightarrow> nf s' k = Some (old @ rs))"

lemma appends_steps: "list_all2 (appends nf k) fs rss \<Longrightarrow> appends nf k (steps fs) (concat rss)"
proof (induction fs rss rule: list_all2_induct)
  case Nil
  then show ?case by (simp add: appends_def)
next
  case (Cons f fs rs rss)
  show ?case unfolding appends_def
  proof (intro allI impI)
    fix s s' old
    assume h: "steps (f # fs) s = (None, s')" "nf s k = Some old"
    then obtain s1 where "f s = (None, s1)" "steps fs s1 = (None, s')" by (auto split: prod.splits option.splits)
    with Cons h(2) show "nf s' k = Some (old @ concat (rs # rss))" unfolding appends_def by fastforce
  qed
qed

lemma steps_append: "steps (fs @ gs) s = (case steps fs s of (None, s) \<Rightarrow> steps gs s | r \<Rightarrow> r)"
  by (induction fs arbitrary: s) (auto split: prod.split option.split)

lemma runCmd_None: "runCmd exec cmd s = (None, s') \<longleftrightarrow> exec cmd s = (None, s')"
  by (auto simp: runCmd_def split: prod.splits option.splits)

lemma ipt_appends:
  assumes "netfilter exec nf"
  shows "appends nf k (ipt exec t (''-A'' # ch # r)) (if k = (t, ch) then [r] else [])"
proof -
  have "nf s' k = Some (old @ (if k = (t, ch) then [r] else []))"
    if "exec (''iptables'', ''-t'' # t # ''-A'' # ch # r) s = (None, s')" "nf s k = Some old" for s s' old
    using netfilter_ok [OF assms, of "''-t'' # t # ''-A'' # ch # r" s] that
    by (auto simp: ipt_effect_def chain_effect_def split: option.splits) (metis fun_upd_apply)+
  then show ?thesis by (simp add: appends_def ipt_def ipt_cmd_def runCmd_None)
qed

lemma runCmd_appends: "netfilter exec nf \<Longrightarrow> fst cmd \<noteq> ''iptables'' \<Longrightarrow> appends nf k (runCmd exec cmd) []"
  using netfilter_other [of exec nf "fst cmd" "snd cmd"] by (auto simp: appends_def runCmd_None) (metis snd_conv)

text \<open>The checks and the jump of \<open>resetChain\<close> leave the chain it resets empty.\<close>

lemma resetChain_installs:
  assumes "netfilter exec nf" "resetChain exec (t, h, cu) s = (None, s')" "h \<noteq> cu"
  shows "nf s' (t, cu) = Some []" and "\<exists>rs. nf s' (t, h) = Some rs \<and> [''-j'', cu] \<in> set rs"
    and "k \<noteq> (t, h) \<Longrightarrow> k \<noteq> (t, cu) \<Longrightarrow> nf s' k = nf s k"
    and "\<exists>rs0. nf s (t, h) = Some rs0 \<and> ([''-j'', cu] \<notin> set rs0 \<longrightarrow> nf s' (t, h) = Some ([''-j'', cu] # rs0))"
proof -
  let ?j = "[''-j'', cu]"
  define s1 where "s1 = runQuiet exec (ipt_cmd t [''-N'', cu]) s"
  obtain s2 where s2: "exec (ipt_cmd t [''-F'', cu]) s1 = (None, s2)"
    using assms(2) by (auto simp: resetChain_def ipt_def runCmd_def Let_def s1_def split: prod.splits option.splits)
  obtain r s3 where c: "exec (ipt_cmd t [''-C'', h, ''-j'', cu]) s2 = (r, s3)" by fastforce
  have last: "(r = None \<and> s' = s3) \<or> (r \<noteq> None \<and> exec (ipt_cmd t [''-I'', h, ''1'', ''-j'', cu]) s3 = (None, s'))"
    using assms(2) s2 c
    by (auto simp: resetChain_def ipt_def runCmd_def Let_def s1_def [symmetric] split: prod.splits option.splits)
  have n1: "k \<noteq> (t, cu) \<Longrightarrow> nf s1 k = nf s k" for k
    using netfilter_cases [OF assms(1), of "[''-t'', t, ''-N'', cu]" s]
    by (auto simp: s1_def runQuiet_def ipt_cmd_def ipt_effect_def split: if_splits) (metis fun_upd_apply)
  have n2: "nf s2 = (nf s1)((t, cu) \<mapsto> [])"
    using netfilter_ok [OF assms(1), of "[''-t'', t, ''-F'', cu]" s1] s2
    by (auto simp: ipt_cmd_def ipt_effect_def chain_effect_def split: option.splits)
  have "reliable [''-t'', t, ''-C'', h, ''-j'', cu]" by (simp add: reliable_def)
  note C = netfilter_reliable [OF assms(1) this, of s2]
  have n3: "nf s3 = nf s2" and r: "r = None \<longleftrightarrow> (\<exists>rs. nf s2 (t, h) = Some rs \<and> ?j \<in> set rs)"
    using C c by (auto simp: ipt_cmd_def ipt_effect_def chain_effect_def split: option.splits if_splits)
  have n4: "r = None \<and> nf s' = nf s2 \<or> (\<exists>rs. nf s2 (t, h) = Some rs \<and> nf s' = (nf s2)((t, h) \<mapsto> ?j # rs))"
    using last n3 netfilter_ok [OF assms(1), of "[''-t'', t, ''-I'', h, ''1'', ''-j'', cu]" s3]
    by (auto simp: ipt_cmd_def ipt_effect_def chain_effect_def split: option.splits)
  show "nf s' (t, cu) = Some []" using n4 n2 assms(3) by auto
  show "nf s' k = nf s k" if "k \<noteq> (t, h)" "k \<noteq> (t, cu)" using n4 n2 n1 [OF that(2)] that by auto
  show "\<exists>rs. nf s' (t, h) = Some rs \<and> ?j \<in> set rs" using n4 r by auto
  show "\<exists>rs0. nf s (t, h) = Some rs0 \<and> (?j \<notin> set rs0 \<longrightarrow> nf s' (t, h) = Some (?j # rs0))"
    using n4 r n2 n1 [of "(t, h)"] assms(3) by auto
qed

lemma list_all2_appends_concat:
  "(\<And>x. list_all2 (appends nf k) (f x) (g x)) \<Longrightarrow> list_all2 (appends nf k) (concat (map f xs)) (concat (map g xs))"
  by (induction xs) (auto intro: list_all2_appendI)

definition service_rules :: "Config \<Rightarrow> Port \<Rightarrow> string \<Rightarrow> rule list" where
  "service_rules c p proto =
     [''-i'', Name (Tun c), ''-d'', ForeignPublicIP (Network c), ''-p'', proto, ''--dport'', itoa (p_Port p),
      ''-m'', ''conntrack'', ''--ctstate'', ''NEW,ESTABLISHED'', ''-j'', ''ACCEPT''] #
     (if LockServicePorts (Network c)
      then [[''-i'', PublicInterface (Network c), ''-d'', ForeignPublicIP (Network c), ''-p'', proto,
             ''--dport'', itoa (p_Port p), ''-j'', ''DROP'']] else [])"

abbreviation per_service :: "Config \<Rightarrow> (Port \<Rightarrow> string \<Rightarrow> 'a list) \<Rightarrow> 'a list" where
  "per_service c f \<equiv> concat (map (\<lambda>p. concat (map (f p) (protocols (p_Protocol p)))) (Ports c))"

lemma kharej_rules_append:
  assumes "netfilter exec nf"
  shows "list_all2 (appends nf (''filter'', ch)) (kharej_port_rules exec c p proto)
    (map (\<lambda>r. if ch = ''HSH_INPUT'' then [r] else []) (service_rules c p proto))"
  using ipt_appends [OF assms, of "(''filter'', ch)" "''filter''" "''HSH_INPUT''"]
  by (simp add: kharej_port_rules_def service_rules_def Let_def)

text \<open>The rest of the Kharej setup touches neither the input chain nor its hook.\<close>

lemma concat_concat_map: "concat (concat (map f xs)) = concat (map (\<lambda>x. concat (f x)) xs)"
  by (induction xs) simp_all

lemma concat_singles: "concat (map (\<lambda>r. [r]) xs) = xs"
  by (induction xs) simp_all

lemma concat_Nils: "concat (map (\<lambda>_. []) xs) = []"
  by (induction xs) simp_all

definition kharej_rest :: "'s exec \<Rightarrow> Config \<Rightarrow> ('s \<Rightarrow> cmd_error option \<times> 's) list" where
  "kharej_rest exec c =
     (if Mode c = ''direct-return'' then
        output_rule exec c (PublicInterface (Network c)) #
        (if \<not> Enabled (SmartReturn c) then [] else [setupTransportBypass exec c, output_rule exec c (Name (Tun c))])
      else
        [setupTransportBypass exec c,
         runCmd exec (''ip'', [''route'', ''replace'', IranPublicIP (Network c) @ ''/32'', ''dev'', Name (Tun c)]),
         output_rule exec c (Name (Tun c))] @
        map (\<lambda>p. ipt exec ''mangle'' [''-A'', ''HSH_MOUT'', ''-o'', Name (Tun c), ''-s'', ForeignPublicIP (Network c),
               ''-d'', IranPublicIP (Network c), ''-p'', ''tcp'', ''--sport'', itoa (p_Port p), ''--tcp-flags'', ''SYN,RST'', ''SYN'',
               ''-j'', ''TCPMSS'', ''--set-mss'', itoa (MTU (Tun c) - 40)])
          (filter (\<lambda>p. p_Protocol p \<noteq> ''udp'') (Ports c)))"

lemma setupKharejRouting_parts:
  "setupKharejRouting exec c =
     steps (map (resetChain exec) kharej_hooks @ per_service c (kharej_port_rules exec c) @ kharej_rest exec c)"
  by (simp add: setupKharejRouting_def kharej_rest_def Let_def)

lemma kharej_rest_appends:
  assumes "netfilter exec nf" "ch = ''HSH_INPUT'' \<or> ch = ''INPUT''"
  shows "list_all2 (appends nf (''filter'', ch)) (kharej_rest exec c) (map (\<lambda>_. []) (kharej_rest exec c))"
proof -
  let ?A = "\<lambda>f. appends nf (''filter'', ch) f []"
  have b: "?A (setupTransportBypass exec c)"
    unfolding setupTransportBypass_def Let_def
    by (rule appends_steps [where rss = "[[], []]", simplified]) (simp add: runCmd_appends [OF assms(1)])
  have o: "?A (output_rule exec c i)" for i
    using ipt_appends [OF assms(1), of "(''filter'', ch)" "''filter''" "''HSH_OUTPUT''"] assms(2)
    by (auto simp: output_rule_def)
  have m: "?A (ipt exec ''mangle'' (''-A'' # ''HSH_MOUT'' # r))" for r
    using ipt_appends [OF assms(1), of "(''filter'', ch)" "''mangle''" "''HSH_MOUT''"] by simp
  have "\<forall>f \<in> set (kharej_rest exec c). ?A f"
    using b o m runCmd_appends [OF assms(1)] by (auto simp: kharej_rest_def)
  then show ?thesis by (simp add: list_all2_conv_all_nth)
qed

text \<open>Resetting several chains: each is empty and is the first jump of its hook, and nothing else changes.\<close>

definition touched :: "string \<times> string \<times> string \<Rightarrow> (string \<times> string) list" where
  "touched x = (case x of (t, h, cu) \<Rightarrow> [(t, h), (t, cu)])"

lemma hooks_installed:
  assumes "netfilter exec nf"
  shows "distinct (concat (map touched hs)) \<Longrightarrow> steps (map (resetChain exec) hs) s = (None, s') \<Longrightarrow>
    (\<forall>k. k \<notin> set (concat (map touched hs)) \<longrightarrow> nf s' k = nf s k) \<and>
    (\<forall>(t, h, cu)\<in>set hs. nf s' (t, cu) = Some [] \<and>
       (\<exists>rs0. nf s (t, h) = Some rs0 \<and> ([''-j'', cu] \<notin> set rs0 \<longrightarrow> nf s' (t, h) = Some ([''-j'', cu] # rs0))))"
proof (induction hs arbitrary: s)
  case (Cons x hs)
  obtain t h cu where x: "x = (t, h, cu)" by (cases x)
  obtain s1 where s1: "resetChain exec x s = (None, s1)" "steps (map (resetChain exec) hs) s1 = (None, s')"
    using Cons.prems(2) by (auto split: prod.splits option.splits)
  have hc: "h \<noteq> cu" and out: "(t, h) \<notin> set (concat (map touched hs))" "(t, cu) \<notin> set (concat (map touched hs))"
    and ne: "\<And>t' h' cu'. (t', h', cu') \<in> set hs \<Longrightarrow> (t', h') \<noteq> (t, h) \<and> (t', h') \<noteq> (t, cu) \<and> (t', cu') \<noteq> (t, h) \<and> (t', cu') \<noteq> (t, cu)"
    using Cons.prems(1) by (force simp: x touched_def)+
  note r = resetChain_installs [OF assms s1(1) [unfolded x] hc]
  have d: "distinct (concat (map touched hs))" using Cons.prems(1) by simp
  note IH = Cons.IH [OF d s1(2)]
  have "nf s' (t, cu) = Some []" "nf s' (t, h) = nf s1 (t, h)" using IH r(1) out by auto
  moreover have "nf s' k = nf s k" if "k \<notin> set (concat (map touched (x # hs)))" for k
  proof -
    have "k \<notin> set (concat (map touched hs))" "k \<noteq> (t, h)" "k \<noteq> (t, cu)" using that by (auto simp: x touched_def)
    with conjunct1 [OF IH] r(3) [of k] show ?thesis by metis
  qed
  moreover have "nf s1 (t', h') = nf s (t', h')" if "(t', h', cu') \<in> set hs" for t' h' cu'
    using ne [OF that] r(3) [of "(t', h')"] by blast
  ultimately show ?case using IH r(4) by (fastforce simp: x)
qed simp

lemma kharej_hooks_installed:
  assumes "netfilter exec nf" "steps (map (resetChain exec) kharej_hooks) s = (None, s')"
  shows "nf s' (''filter'', ''HSH_INPUT'') = Some []"
    and "\<exists>rs0. nf s (''filter'', ''INPUT'') = Some rs0 \<and>
      ([''-j'', ''HSH_INPUT''] \<notin> set rs0 \<longrightarrow> nf s' (''filter'', ''INPUT'') = Some ([''-j'', ''HSH_INPUT''] # rs0))"
proof -
  have "distinct (concat (map touched kharej_hooks))" by (simp add: kharej_hooks_def touched_def)
  from hooks_installed [OF assms(1) this assms(2)]
  show "nf s' (''filter'', ''HSH_INPUT'') = Some []"
    "\<exists>rs0. nf s (''filter'', ''INPUT'') = Some rs0 \<and>
      ([''-j'', ''HSH_INPUT''] \<notin> set rs0 \<longrightarrow> nf s' (''filter'', ''INPUT'') = Some ([''-j'', ''HSH_INPUT''] # rs0))"
    by (simp_all add: kharej_hooks_def)
qed

text \<open>The carrier's firewall rule is made from the node's own listen address only. In particular the rule
  for TCP on Iran, which should match the replies of Kharej's carrier port, does not depend on the
  configured peer.\<close>

lemma carrier_rule_ignores_peer:
  "setupCarrierFirewall exec (c\<lparr>c_Transport := (c_Transport c)\<lparr>Peer := peer\<rparr>\<rparr>) s = setupCarrierFirewall exec c s"
proof -
  let ?c = "c\<lparr>c_Transport := (c_Transport c)\<lparr>Peer := peer\<rparr>\<rparr>"
  have "carrier_rule ?c src port = carrier_rule c src port" for src port
    by (simp add: carrier_rule_def Let_def)
  moreover have "Network ?c = Network c" "Role ?c = Role c" "Listen (c_Transport ?c) = Listen (c_Transport c)"
    "t_Type (c_Transport ?c) = t_Type (c_Transport c)"
    by simp_all
  ultimately show ?thesis by (simp only: setupCarrierFirewall_def)
qed

subsection \<open>Any sequence of operations\<close>

text \<open>The host after any sequence of setup and cleanup operations, successful or not, in any order, as
  restarts and failures of the daemon produce them.\<close>

inductive host_run :: "'s exec \<Rightarrow> Config \<Rightarrow> 's \<Rightarrow> 's \<Rightarrow> bool" for exec c where
  start: "host_run exec c s s"
| tun: "host_run exec c s s1 \<Longrightarrow> host_run exec c s (snd (setupTun exec c s1))"
| routing: "host_run exec c s s1 \<Longrightarrow> host_run exec c s (snd (setupRouting exec c s1))"
| smart: "host_run exec c s s1 \<Longrightarrow> host_run exec c s (snd (setupSmartReturnPolicy exec c s1))"
| carrier: "host_run exec c s s1 \<Longrightarrow> host_run exec c s (snd (setupCarrierFirewall exec c s1))"
| path: "host_run exec c s s1 \<Longrightarrow> host_run exec c s (snd (setKharejReturnPath exec c p s1))"
| unsmart: "host_run exec c s s1 \<Longrightarrow> host_run exec c s (cleanupSmartReturnPolicy exec c s1)"
| cleanup: "host_run exec c s s1 \<Longrightarrow> cleanupRouting exec c s1 = Some s2 \<Longrightarrow> host_run exec c s s2"

lemma host_run_keeps:
  assumes "host_property exec c I" "host_run exec c s s'" "I s"
  shows "I s'"
  using assms(2,3)
proof (induction rule: host_run.induct)
  case (cleanup s s1 s2)
  then show ?case using host_property.cleanupRouting_keeps [OF assms(1)] by blast
next
  case (unsmart s s1)
  then show ?case using host_property.cleanupSmartReturnPolicy_keeps [OF assms(1)] by blast
qed (simp_all add: keepsD host_property.setupTun_keeps [OF assms(1)] host_property.setupRouting_keeps [OF assms(1)]
    host_property.setupSmartReturnPolicy_keeps [OF assms(1)] host_property.setupCarrierFirewall_keeps [OF assms(1)]
    host_property.setKharejReturnPath_keeps [OF assms(1)])

subsection \<open>A concrete filter\<close>

text \<open>A host whose packet filter is the map itself and whose commands fail only when they cannot
  succeed.\<close>

definition sim_host :: "firewall exec" where
  "sim_host cmd f =
     (if fst cmd = ''iptables'' then
        (case ipt_effect (snd cmd) f of None \<Rightarrow> (Some ''iptables: Bad rule'', f) | Some f \<Rightarrow> (None, f))
      else (None, f))"

lemma sim_netfilter: "netfilter sim_host id"
  by (auto simp: netfilter_def sim_host_def split: option.splits)

definition demo_filter :: firewall where
  "demo_filter = [(''filter'', ''INPUT'') \<mapsto> [[''-p'', ''tcp'', ''--dport'', ''22'', ''-j'', ''ACCEPT'']],
     (''filter'', ''OUTPUT'') \<mapsto> [], (''filter'', ''FORWARD'') \<mapsto> [], (''mangle'', ''OUTPUT'') \<mapsto> [],
     (''mangle'', ''PREROUTING'') \<mapsto> [], (''mangle'', ''FORWARD'') \<mapsto> [], (''nat'', ''PREROUTING'') \<mapsto> [],
     (''nat'', ''POSTROUTING'') \<mapsto> []]"

lemma demo_filter_clean: "clean demo_filter"
  by (auto simp: clean_def demo_filter_def own_chain_def all_chains_def plain_rule_def rule_target_def custom_chains_eq
      split: if_splits)

subsection \<open>Properties\<close>

text \<open>C13: the packet filter is always given back. Whatever sequence of setup and cleanup operations has
  run on a host, and however many of their commands failed half way, the administrator's chains and
  rules are untouched, in their order, and \<open>cleanupRouting\<close> terminates and leaves exactly the filter
  there was before Hashshashin.\<close>

theorem cleanup_restores_firewall:
  assumes "netfilter exec nf" "clean (nf s)" "host_run exec c s s'"
  shows "frame (nf s) (nf s') \<and> (\<exists>s''. cleanupRouting exec c s' = Some s'' \<and> nf s'' = nf s)"
proof -
  have "frame (nf s) (nf s')"
    using host_run_keeps [OF netfilter_host_property [OF assms(1), of c "nf s"] assms(3)] frame_clean [OF assms(2)] by blast
  with cleanupRouting_restores [OF assms(1,2)] show ?thesis by blast
qed

theorem cleanup_restores_firewall_witness:
  "\<exists>f. cleanupRouting sim_host (demo_config ''udp'' 25) (snd (setupRouting sim_host (demo_config ''udp'' 25) demo_filter)) = Some f \<and> f = demo_filter"
  using cleanup_restores_firewall [OF sim_netfilter _ host_run.routing [OF host_run.start], of demo_filter "demo_config ''udp'' 25"] demo_filter_clean
  by simp



text \<open>After a successful setup on Kharej the input hook jumps to the Hashshashin chain first, and that
  chain holds, for every configured port and protocol in order, the rule
  that accepts it from the tunnel followed, when locking is on, by the rule that drops it on the
  public interface, and nothing else.\<close>

lemma kharej_services_installed:
  assumes "netfilter exec nf" "setupKharejRouting exec c s = (None, s')"
  shows "nf s' (''filter'', ''HSH_INPUT'') = Some (per_service c (service_rules c)) \<and>
    (\<exists>rs0. nf s (''filter'', ''INPUT'') = Some rs0 \<and>
      ([''-j'', ''HSH_INPUT''] \<notin> set rs0 \<longrightarrow> nf s' (''filter'', ''INPUT'') = Some ([''-j'', ''HSH_INPUT''] # rs0)))"
proof -
  obtain s1 where s1: "steps (map (resetChain exec) kharej_hooks) s = (None, s1)"
    "steps (per_service c (kharej_port_rules exec c) @ kharej_rest exec c) s1 = (None, s')"
    using assms(2) by (auto simp: setupKharejRouting_parts steps_append split: prod.splits option.splits)
  have a: "appends nf (''filter'', ch) (steps (per_service c (kharej_port_rules exec c) @ kharej_rest exec c))
      (concat (per_service c (\<lambda>p proto. map (\<lambda>r. if ch = ''HSH_INPUT'' then [r] else []) (service_rules c p proto))))"
    if "ch = ''HSH_INPUT'' \<or> ch = ''INPUT''" for ch
    using appends_steps [OF list_all2_appendI [OF list_all2_appends_concat [OF list_all2_appends_concat [OF kharej_rules_append]]
        kharej_rest_appends], OF assms(1) assms(1) that]
    by (simp add: concat_Nils)
  have "appends nf (''filter'', ''HSH_INPUT'') (steps (per_service c (kharej_port_rules exec c) @ kharej_rest exec c))
      (per_service c (service_rules c))"
    "appends nf (''filter'', ''INPUT'') (steps (per_service c (kharej_port_rules exec c) @ kharej_rest exec c)) []"
    using a [of "''HSH_INPUT''"] a [of "''INPUT''"] by (simp_all add: concat_concat_map concat_singles concat_Nils)
  with kharej_hooks_installed [OF assms(1) s1(1)] s1(2) show ?thesis by (fastforce simp: appends_def)
qed

end
