(* ===== verification/Packet_Filter.thy ===== *)
theory Packet_Filter
  imports Firewall_Setup
begin

text \<open>
  What the installed rules do to packets. How the kernel matches a packet against the options of a rule
  is outside the repository: it is the parameter \<open>m\<close>, constrained by \<open>match_laws\<close> to the documented
  meaning of the options the program uses. A chain is walked rule by rule; the first matching rule with
  a final target decides, a \<open>MARK\<close> rule changes the packet and lets it continue, a jump walks another
  chain and continues behind the jump when that did not decide.

  Addresses and marks are in the textual form in which \<open>iptables\<close> lists them, ports are numbers.
\<close>

subsection \<open>Packets and matches\<close>

record packet =
  pk_in :: string
  pk_out :: string
  pk_src :: string
  pk_dst :: string
  pk_proto :: string
  pk_sport :: int
  pk_dport :: int
  pk_ct :: string
  pk_mark :: string

fun commas :: "string \<Rightarrow> string list" where
  "commas [] = [[]]"
| "commas (x # xs) = (case commas xs of [] \<Rightarrow> [[x]] | y # ys \<Rightarrow> if x = CHR '','' then [] # y # ys else (x # y) # ys)"

text \<open>An interface name that ends in \<open>+\<close> is a wildcard.\<close>

definition exact_iface :: "string \<Rightarrow> bool" where
  "exact_iface i \<longleftrightarrow> i \<noteq> '''' \<and> last i \<noteq> CHR ''+''"

type_synonym matcher = "rule \<Rightarrow> packet \<Rightarrow> bool"

definition match_laws :: "matcher \<Rightarrow> bool" where
  "match_laws m \<longleftrightarrow>
     (\<forall>r pk. m (''-j'' # r) pk) \<and>
     (\<forall>i r pk. exact_iface i \<longrightarrow> m (''-i'' # i # r) pk = (pk_in pk = i \<and> m r pk)) \<and>
     (\<forall>i r pk. exact_iface i \<longrightarrow> m (''-o'' # i # r) pk = (pk_out pk = i \<and> m r pk)) \<and>
     (\<forall>a r pk. is_ipv4 a \<longrightarrow> m (''-s'' # a # r) pk = (pk_src pk = a \<and> m r pk)) \<and>
     (\<forall>a r pk. is_ipv4 a \<longrightarrow> m (''-d'' # a # r) pk = (pk_dst pk = a \<and> m r pk)) \<and>
     (\<forall>t r pk. t \<in> {''tcp'', ''udp''} \<longrightarrow> m (''-p'' # t # r) pk = (pk_proto pk = t \<and> m r pk)) \<and>
     (\<forall>n r pk. m (''--sport'' # itoa n # r) pk = (pk_sport pk = n \<and> m r pk)) \<and>
     (\<forall>n r pk. m (''--dport'' # itoa n # r) pk = (pk_dport pk = n \<and> m r pk)) \<and>
     (\<forall>e r pk. m (''-m'' # e # r) pk = m r pk) \<and>
     (\<forall>l r pk. m (''--ctstate'' # l # r) pk = (pk_ct pk \<in> set (commas l) \<and> m r pk)) \<and>
     (\<forall>h r pk. m (''--mark'' # h # r) pk = (pk_mark pk = h \<and> m r pk))"

lemma match_target: "match_laws m \<Longrightarrow> m (''-j'' # r) pk"
  and match_in: "match_laws m \<Longrightarrow> exact_iface i \<Longrightarrow> m (''-i'' # i # r) pk = (pk_in pk = i \<and> m r pk)"
  and match_out: "match_laws m \<Longrightarrow> exact_iface i \<Longrightarrow> m (''-o'' # i # r) pk = (pk_out pk = i \<and> m r pk)"
  and match_src: "match_laws m \<Longrightarrow> is_ipv4 a \<Longrightarrow> m (''-s'' # a # r) pk = (pk_src pk = a \<and> m r pk)"
  and match_dst: "match_laws m \<Longrightarrow> is_ipv4 a \<Longrightarrow> m (''-d'' # a # r) pk = (pk_dst pk = a \<and> m r pk)"
  and match_proto: "match_laws m \<Longrightarrow> t \<in> {''tcp'', ''udp''} \<Longrightarrow> m (''-p'' # t # r) pk = (pk_proto pk = t \<and> m r pk)"
  and match_sport: "match_laws m \<Longrightarrow> m (''--sport'' # itoa n # r) pk = (pk_sport pk = n \<and> m r pk)"
  and match_dport: "match_laws m \<Longrightarrow> m (''--dport'' # itoa n # r) pk = (pk_dport pk = n \<and> m r pk)"
  and match_module: "match_laws m \<Longrightarrow> m (''-m'' # e # r) pk = m r pk"
  and match_ct: "match_laws m \<Longrightarrow> m (''--ctstate'' # l # r) pk = (pk_ct pk \<in> set (commas l) \<and> m r pk)"
  and match_mark: "match_laws m \<Longrightarrow> m (''--mark'' # h # r) pk = (pk_mark pk = h \<and> m r pk)"
  by (auto simp add: match_laws_def)

lemmas match_rules = match_target match_in match_out match_src match_dst match_proto match_sport match_dport match_module
  match_ct match_mark

subsection \<open>Walking a chain\<close>

datatype verdict = Accepts | Drops | Redirects string

text \<open>The target of a rule with its options, what a final target decides, and what a rule that does not
  decide does to the packet.\<close>

definition target_args :: "rule \<Rightarrow> string list" where
  "target_args r = rev (takeWhile (\<lambda>w. w \<noteq> ''-j'') (rev r))"

definition decision :: "rule \<Rightarrow> verdict option" where
  "decision r =
     (case target_args r of
        [t] \<Rightarrow> if t = ''ACCEPT'' then Some Accepts else if t = ''DROP'' then Some Drops else None
      | [t, o1, a] \<Rightarrow> if t = ''DNAT'' \<and> o1 = ''--to-destination'' then Some (Redirects a) else None
      | _ \<Rightarrow> None)"

definition marks :: "rule \<Rightarrow> packet \<Rightarrow> packet" where
  "marks r pk =
     (case target_args r of
        [t, o1, h] \<Rightarrow> if t = ''MARK'' \<and> o1 = ''--set-mark'' then pk\<lparr>pk_mark := h\<rparr> else pk
      | _ \<Rightarrow> pk)"

text \<open>\<open>d\<close> bounds the depth of jumps, as the kernel does.\<close>

fun walk :: "nat \<Rightarrow> matcher \<Rightarrow> firewall \<Rightarrow> string \<Rightarrow> packet \<Rightarrow> rule list \<Rightarrow> verdict option \<times> packet" where
  "walk 0 m f t pk rs = (None, pk)"
| "walk (Suc d) m f t pk [] = (None, pk)"
| "walk (Suc d) m f t pk (r # rs) =
     (if \<not> m r pk then walk (Suc d) m f t pk rs
      else case decision r of
        Some v \<Rightarrow> (Some v, pk)
      | None \<Rightarrow>
          (case target_args r of
             [ch] \<Rightarrow>
               (case f (t, ch) of
                  None \<Rightarrow> walk (Suc d) m f t pk rs
                | Some rs' \<Rightarrow>
                    (case walk d m f t pk rs' of
                       (Some v, pk') \<Rightarrow> (Some v, pk')
                     | (None, pk') \<Rightarrow> walk (Suc d) m f t pk' rs))
           | _ \<Rightarrow> walk (Suc d) m f t (marks r pk) rs))"

text \<open>If the matching rules of a chain all decide the same, that is the verdict.\<close>

lemma walk_agreed:
  assumes "\<And>r. r \<in> set rs \<Longrightarrow> m r pk \<Longrightarrow> decision r = Some v" "\<exists>r\<in>set rs. m r pk"
  shows "walk (Suc d) m f t pk rs = (Some v, pk)"
  using assms
proof (induction rs)
  case (Cons r rs)
  then show ?case by (cases "m r pk") auto
qed simp

text \<open>The same behind the jump of a hook to the chain.\<close>

lemma decision_jump: "ch \<notin> {''ACCEPT'', ''DROP'', ''-j''} \<Longrightarrow> decision [''-j'', ch] = None \<and> target_args [''-j'', ch] = [ch]"
  by (simp add: decision_def target_args_def)

lemma walk_hook:
  assumes "match_laws m" "f (t, ch) = Some rs" "ch \<notin> {''ACCEPT'', ''DROP'', ''-j''}"
    and "\<And>r. r \<in> set rs \<Longrightarrow> m r pk \<Longrightarrow> decision r = Some v" "\<exists>r\<in>set rs. m r pk"
  shows "walk (Suc (Suc d)) m f t pk ([''-j'', ch] # rest) = (Some v, pk)"
  using walk_agreed [of rs m pk v d f t] assms(4,5) match_target [OF assms(1), of "[ch]" pk]
  by (simp add: decision_jump [OF assms(3)] assms(2))

text \<open>Rules that all set the same mark, and do not look at it, mark the packet if one of them matches and
  decide nothing.\<close>

lemma walk_marked:
  assumes "\<And>r. r \<in> set rs \<Longrightarrow> target_args r = [''MARK'', ''--set-mark'', h]"
    and "\<And>r x. r \<in> set rs \<Longrightarrow> m r (pk\<lparr>pk_mark := x\<rparr>) = m r pk"
  shows "walk (Suc d) m f t pk rs = (None, if \<exists>r\<in>set rs. m r pk then pk\<lparr>pk_mark := h\<rparr> else pk)"
  using assms
proof (induction rs arbitrary: pk)
  case (Cons r rs)
  have r: "decision r = None" "marks r pk = pk\<lparr>pk_mark := h\<rparr>" using Cons.prems(1) [of r] by (simp_all add: decision_def marks_def)
  have "walk (Suc d) m f t (pk\<lparr>pk_mark := h\<rparr>) rs = (None, pk\<lparr>pk_mark := h\<rparr>)"
  proof -
    have "walk (Suc d) m f t (pk\<lparr>pk_mark := h\<rparr>) rs =
        (None, if \<exists>r\<in>set rs. m r (pk\<lparr>pk_mark := h\<rparr>) then (pk\<lparr>pk_mark := h\<rparr>)\<lparr>pk_mark := h\<rparr> else pk\<lparr>pk_mark := h\<rparr>)"
      by (rule Cons.IH) (simp_all add: Cons.prems)
    then show ?thesis by simp
  qed
  moreover have "walk (Suc d) m f t pk rs = (None, if \<exists>r\<in>set rs. m r pk then pk\<lparr>pk_mark := h\<rparr> else pk)"
    by (rule Cons.IH) (simp_all add: Cons.prems)
  ultimately show ?case using Cons.prems(1) [of r] r by simp
qed simp

subsection \<open>A concrete matcher\<close>

fun sim_matches :: matcher where
  "sim_matches [] pk = True"
| "sim_matches [w] pk = (w = ''-j'')"
| "sim_matches (w # x # r) pk =
     (if w = ''-j'' then True
      else
        (if w = ''-i'' then pk_in pk = x else if w = ''-o'' then pk_out pk = x else if w = ''-s'' then pk_src pk = x
         else if w = ''-d'' then pk_dst pk = x else if w = ''-p'' then pk_proto pk = x
         else if w = ''--sport'' then itoa (pk_sport pk) = x else if w = ''--dport'' then itoa (pk_dport pk) = x
         else if w = ''--ctstate'' then pk_ct pk \<in> set (commas x) else if w = ''--mark'' then pk_mark pk = x
         else w = ''-m'') \<and> sim_matches r pk)"

lemma sim_match_laws: "match_laws sim_matches"
proof -
  have "sim_matches (''-j'' # r) pk" for r pk by (cases r) simp_all
  then show ?thesis by (simp add: match_laws_def)
qed

end
