(* ===== verification/Data_Plane.thy ===== *)
theory Data_Plane
  imports Transport
begin

text \<open>
  Properties of the encrypted data plane: what \<open>sendEncrypted\<close> puts on the carrier, what
  \<open>handleEncrypted\<close> delivers to the TUN device, and that both keep the node well-formed. The
  facts about senders are proved once for every carrier that satisfies \<open>packet_carrier\<close>.
\<close>

subsection \<open>Sending\<close>

definition tx_session :: "session \<Rightarrow> session" where
  "tx_session s = s\<lparr>s_tx := s_tx s + 1\<rparr>"

lemma sendEncrypted_eq:
  assumes "heap (n_st n) i = Some s"
  shows "sendEncrypted ops i typ pl n =
    (let (backing, pool) = pool_get (n_pool n);
         (err, c) = WritePacket ops (packet_of (txAEAD s) typ (s_tx s + 1) pl) (s_peer s) (n_carrier n)
     in (err, n\<lparr>n_carrier := c,
          n_st := account_send i typ (length pl) err (update_session i tx_session (n_st n)),
          n_pool := pool_put (snd (buildPacket (txAEAD s) typ (s_tx s + 1) pl backing)) pool\<rparr>))"
  using assms
  by (simp add: sendEncrypted_def next_counter_def Let_def case_prod_beta fst_buildPacket
      write_packet_def tx_session_def [abs_def])

text \<open>The packet that reaches the carrier does not depend on the bytes left in the pooled buffer.\<close>

lemma sendEncrypted_pool:
  assumes "heap (n_st n) i = Some s"
  shows "fst (sendEncrypted ops i typ pl (n\<lparr>n_pool := pool\<rparr>)) = fst (sendEncrypted ops i typ pl n)"
    and "n_carrier (snd (sendEncrypted ops i typ pl (n\<lparr>n_pool := pool\<rparr>))) = n_carrier (snd (sendEncrypted ops i typ pl n))"
    and "n_st (snd (sendEncrypted ops i typ pl (n\<lparr>n_pool := pool\<rparr>))) = n_st (snd (sendEncrypted ops i typ pl n))"
  using assms by (simp_all add: sendEncrypted_eq Let_def case_prod_beta)

lemma account_send_heap:
  "heap (account_send i typ len err st) j
    = (if j = i \<and> err = None then map_option (\<lambda>s. s\<lparr>txBytes := txBytes s + of_nat len\<rparr>) (heap st i) else heap st j)"
  by (simp add: account_send_def update_session_def update_metrics_def Let_def split: option.splits)

lemma account_send_session [simp]:
  "st_session (account_send i typ len err st) = st_session st"
  "hellos (account_send i typ len err st) = hellos st"
  "probeAck (account_send i typ len err st) = probeAck st"
  "next_sid (account_send i typ len err st) = next_sid st"
  by (simp_all add: account_send_def update_session_def update_metrics_def Let_def split: option.splits)

lemma wf_account_send: "wf_state st \<Longrightarrow> wf_state (account_send i typ len err st)"
  unfolding account_send_def Let_def
  by (auto split: option.splits intro!: wf_update_session simp: good_session_def)

lemma sendEncrypted_wf: "wf_state (n_st n) \<Longrightarrow> wf_state (n_st (snd (sendEncrypted ops i typ pl n)))"
proof (cases "heap (n_st n) i")
  case None
  then show "wf_state (n_st n) \<Longrightarrow> ?thesis" by (simp add: sendEncrypted_def)
next
  case (Some s)
  then show "wf_state (n_st n) \<Longrightarrow> ?thesis"
    by (auto simp: sendEncrypted_eq Let_def case_prod_beta tx_session_def good_session_def
        intro!: wf_account_send wf_update_session)
qed

context packet_carrier
begin

lemma send_ok_sent:
  assumes "carrier_ok (n_carrier n)" "heap (n_st n) i = Some s"
    and "sendEncrypted ops i typ pl n = (None, n')"
  shows "sent (n_carrier n') = sent (n_carrier n) @ [packet_of (txAEAD s) typ (s_tx s + 1) pl]"
  using assms write_sent [OF assms(1)]
  by (auto simp: sendEncrypted_eq Let_def case_prod_beta prod_eq_iff)

lemma send_err_sent:
  assumes "carrier_ok (n_carrier n)" "heap (n_st n) i = Some s"
    and "sendEncrypted ops i typ pl n = (Some e, n')"
  shows "sent (n_carrier n') = sent (n_carrier n)"
  using assms write_failed [OF assms(1)]
  by (auto simp: sendEncrypted_eq Let_def case_prod_beta prod_eq_iff)

lemma send_carrier_ok:
  "carrier_ok (n_carrier n) \<Longrightarrow> carrier_ok (n_carrier (snd (sendEncrypted ops i typ pl n)))"
  by (cases "heap (n_st n) i")
    (auto simp: sendEncrypted_eq Let_def case_prod_beta write_ok, simp add: sendEncrypted_def)

end

subsection \<open>Receiving\<close>

lemma handleEncrypted_wf:
  assumes "wf_state (n_st n)"
  shows "wf_state (n_st (handleEncrypted tw peer p now n))"
proof (cases "receives n peer p")
  case None
  from handleEncrypted_drop [OF this, of tw now] assms show ?thesis by auto
next
  case (Some r)
  obtain i c plain where r: "r = (i, c, plain)" by (cases r) auto
  have "wf_state (update_session i (rx_session now c plain) (n_st n))"
    using assms by (intro wf_update_session good_rx_session) auto
  then show ?thesis
    by (auto simp: handleEncrypted_receive [OF Some [unfolded r]] Let_def wf_notifyProbeAck)
qed

lemma handleEncrypted_tun:
  "n_tun (handleEncrypted tw peer p now n) =
     (case receives n peer p of
        Some (i, c, plain) \<Rightarrow> if p ! 4 = msgData \<and> plain \<noteq> [] then tw plain (n_tun n) else n_tun n
      | None \<Rightarrow> n_tun n)"
proof (cases "receives n peer p")
  case None
  from handleEncrypted_drop [OF this, of tw now] None show ?thesis by auto
next
  case (Some r)
  then show ?thesis
    by (cases r) (simp add: handleEncrypted_receive Let_def)
qed

lemma receives_packet_of:
  assumes "st_session (n_st n) = Some i" "heap (n_st n) i = Some ss" "good_session ss"
    and "fst (accept c (s_replay ss))"
  shows "receives n (s_peer ss) (packet_of (rxAEAD ss) typ c pl) = Some (i, c, pl)"
  using assms
  by (simp add: receives_def loadSession_def good_session_def gcm.open_seal)

text \<open>Only a packet sealed under the current session's receive key passes.\<close>

lemma receives_authentic:
  assumes "wf_state (n_st n)" "receives n peer p = Some (i, c, plain)" "take 4 p = bytes_of magic"
  shows "\<exists>ss. st_session (n_st n) = Some i \<and> heap (n_st n) i = Some ss \<and> peer = s_peer ss \<and>
    fst (accept c (s_replay ss)) \<and> p = packet_of (rxAEAD ss) (p ! 4) c plain"
proof -
  obtain ss where ss: "st_session (n_st n) = Some i" "heap (n_st n) i = Some ss" "peer = s_peer ss"
    "29 \<le> length p" "c = get64 (gslice 5 13 p)"
    "Open (rxAEAD ss) (makeNonce c) (drop 13 p) (take 13 p) = Some plain"
    "fst (accept c (s_replay ss))"
    using assms(2) by (rule receives_SomeD)
  have good: "good_aead (rxAEAD ss)"
    using assms(1) ss(2) by (auto simp: wf_state_def good_session_def)
  have hd: "take 13 p = header (p ! 4) c"
    using packet_split [OF _ assms(3)] ss(4,5) by simp
  have "drop 13 p = Seal (rxAEAD ss) (makeNonce c) plain (take 13 p)"
    using ss(6) gcm.open_SomeD [OF good] by blast
  then have "p = take 13 p @ Seal (rxAEAD ss) (makeNonce c) plain (take 13 p)"
    by (metis append_take_drop_id)
  with hd ss show ?thesis by (auto simp: packet_of_def)
qed

text \<open>After a packet has been received, its counter is no longer accepted.\<close>

lemma receives_once:
  assumes "wf_state (n_st n)" "receives n peer p = Some (i, c, plain)"
  shows "receives (handleEncrypted tw peer p now n) peer p = None"
proof -
  obtain ss where heap: "heap (n_st n) i = Some ss" and st: "st_session (n_st n) = Some i"
    and c: "c = get64 (gslice 5 13 p)" and acc: "fst (accept c (s_replay ss))"
    using assms(2) by (rule receives_SomeD)
  then obtain A where A: "window_rel (s_replay ss) A"
    using wf_state_heap [OF assms(1) heap] by (auto simp: good_session_def)
  let ?n = "handleEncrypted tw peer p now n"
  have "st_session (n_st ?n) = Some i"
    using st by (simp add: handleEncrypted_receive [OF assms(2)] Let_def update_session_def
        update_metrics_def notifyProbeAck_def split: option.splits)
  moreover have "heap (n_st ?n) i = Some (rx_session now c plain ss)"
    using heap by (simp add: handleEncrypted_receive [OF assms(2)] Let_def update_session_def
        update_metrics_def notifyProbeAck_def split: option.splits)
  moreover have "\<not> fst (accept c (snd (accept c (s_replay ss))))"
    using accept_refines_step [OF A, of c] acc
      accept_refines_step [of "snd (accept c (s_replay ss))" "insert c A" c]
    by (auto simp: spec_accept_def)
  ultimately show ?thesis
    using c by (auto simp: receives_def loadSession_def Let_def split: option.splits)
qed

subsection \<open>A concrete pair of nodes\<close>

text \<open>
  Two nodes with a shared session, a carrier that records what is written to it (the
  \<open>captureCarrier\<close> of the repository's tests) and a TUN device that records packets. They are the
  concrete inputs of the witnesses.
\<close>

definition capture_ops :: "(bytes \<times> string) list packetCarrier" where
  "capture_ops =
     \<lparr>ReadPacket = (\<lambda>len c. (Inl (NetError ''EOF''), c)),
      WritePacket = (\<lambda>p peer c. (None, c @ [(p, peer)])),
      DefaultPeer = (\<lambda>c. ''peer''),
      CarrierName = (\<lambda>c. ''capture''),
      CloseCarrier = (\<lambda>c. (None, c))\<rparr>"

definition tun_log :: "bytes \<Rightarrow> bytes list \<Rightarrow> bytes list" where
  "tun_log p t = t @ [p]"

definition demo_now :: instant where
  "demo_now = \<lparr>wall = 1700000000 * 1000000000, mono = 0\<rparr>"

lemma demo_now_simps [simp]:
  "wall demo_now = 1700000000000000000" "mono demo_now = 0" "unix_sec demo_now = 1700000000"
  "clock_ok demo_now"
  by (simp_all add: demo_now_def unix_sec_def second_def clock_ok_def)

lemma capture_write [simp]: "WritePacket capture_ops p peer c = (None, c @ [(p, peer)])"
  by (simp add: capture_ops_def)

definition demo_session :: "bool \<Rightarrow> session" where
  "demo_session initiator = (fresh_session [] [] [] ''peer'' initiator demo_now)\<lparr>s_metrics := True\<rparr>"

definition demo_node :: "bool \<Rightarrow> ((bytes \<times> string) list, bytes list) node" where
  "demo_node initiator =
     \<lparr>n_st = init_state\<lparr>heap := [0 \<mapsto> demo_session initiator], next_sid := 1, st_session := Some 0\<rparr>,
      n_carrier = [], n_tun = [], n_pool = []\<rparr>"

lemma demo_node_simps [simp]:
  "st_session (n_st (demo_node b)) = Some 0"
  "heap (n_st (demo_node b)) 0 = Some (demo_session b)"
  "n_tun (demo_node b) = []"
  by (simp_all add: demo_node_def)

lemma demo_session_simps [simp]:
  "s_peer (demo_session b) = ''peer''"
  "s_tx (demo_session b) = 0"
  "s_replay (demo_session b) = zero_window"
  "rxAEAD (demo_session b) = txAEAD (demo_session (\<not> b))"
  "good_session (demo_session b)"
  using good_fresh_session [of "[]" "[]" "[]" "''peer''" b demo_now]
  by (simp_all add: demo_session_def good_session_def) (simp add: fresh_session_def)

lemma demo_node_wf [simp]: "wf_state (n_st (demo_node b))"
  by (simp add: wf_state_def demo_node_def init_state_def) (simp add: demo_session_def)

lemma accept_first_counter [simp]: "fst (accept 1 zero_window)"
  by (simp add: accept_def zero_window_def)

definition demo_packet :: bytes where
  "demo_packet = packet_of (txAEAD (demo_session True)) msgData 1 [0x45]"

lemma demo_packet_received: "receives (demo_node False) ''peer'' demo_packet = Some (0, 1, [0x45])"
  using receives_packet_of [of "demo_node False" 0 "demo_session False" 1 msgData "[0x45]"]
  by (simp add: demo_packet_def)

subsection \<open>Properties\<close>

text \<open>What one node sends the other delivers. If the receiving node's current session opens
  what the sender's session seals, and the counter of the packet is fresh there, then the data
  packet that \<open>sendEncrypted\<close> hands to the carrier makes the receiver write exactly the payload
  to its TUN device.\<close>

lemma data_delivered:
  assumes snd: "heap (n_st a) i = Some s"
    and rcv: "st_session (n_st b) = Some j" "heap (n_st b) j = Some r" "wf_state (n_st b)"
    and keys: "rxAEAD r = txAEAD s"
    and fresh: "fst (accept (s_tx s + 1) (s_replay r))"
    and pl: "pl \<noteq> []"
  shows "\<exists>p. fst (sendEncrypted ops i msgData pl a) = fst (WritePacket ops p (s_peer s) (n_carrier a)) \<and>
    n_carrier (snd (sendEncrypted ops i msgData pl a)) = snd (WritePacket ops p (s_peer s) (n_carrier a)) \<and>
    n_tun (handleEncrypted tw (s_peer r) p now b) = tw pl (n_tun b)"
proof (intro exI conjI)
  let ?p = "packet_of (txAEAD s) msgData (s_tx s + 1) pl"
  show "fst (sendEncrypted ops i msgData pl a) = fst (WritePacket ops ?p (s_peer s) (n_carrier a))"
    "n_carrier (snd (sendEncrypted ops i msgData pl a)) = snd (WritePacket ops ?p (s_peer s) (n_carrier a))"
    using snd by (simp_all add: sendEncrypted_eq Let_def case_prod_beta)
  have "good_session r" using rcv by (auto simp: wf_state_def)
  then have "receives b (s_peer r) ?p = Some (j, s_tx s + 1, pl)"
    using receives_packet_of [OF rcv(1,2) _ fresh] keys by simp
  then show "n_tun (handleEncrypted tw (s_peer r) ?p now b) = tw pl (n_tun b)"
    using pl by (simp add: handleEncrypted_tun)
qed

text \<open>C2: nothing but a fresh packet sealed by the peer reaches the TUN device. When a packet with
  the HSH1 magic changes the TUN device, it is the sealed form, under the receive key of the
  current session and from that session's peer, of the data that is written, and its counter was
  not accepted before.\<close>

theorem tun_write_authentic:
  assumes "wf_state (n_st n)" "take 4 p = bytes_of magic"
    and "n_tun (handleEncrypted tw peer p now n) \<noteq> n_tun n"
  shows "\<exists>i ss c plain. st_session (n_st n) = Some i \<and> heap (n_st n) i = Some ss \<and>
    peer = s_peer ss \<and> fst (accept c (s_replay ss)) \<and> plain \<noteq> [] \<and>
    p = packet_of (rxAEAD ss) msgData c plain \<and>
    n_tun (handleEncrypted tw peer p now n) = tw plain (n_tun n)"
proof -
  obtain i c plain where r: "receives n peer p = Some (i, c, plain)"
    and d: "p ! 4 = msgData" "plain \<noteq> []"
    using assms(3) by (auto simp: handleEncrypted_tun split: option.splits if_splits)
  from receives_authentic [OF assms(1) r assms(2)] r d show ?thesis
    by (auto simp: handleEncrypted_tun)
qed

theorem tun_write_authentic_witness:
  "\<exists>i ss c plain. st_session (n_st (demo_node False)) = Some i \<and> heap (n_st (demo_node False)) i = Some ss \<and>
    ''peer'' = s_peer ss \<and> fst (accept c (s_replay ss)) \<and> plain \<noteq> [] \<and>
    demo_packet = packet_of (rxAEAD ss) msgData c plain \<and>
    n_tun (handleEncrypted tun_log ''peer'' demo_packet demo_now (demo_node False))
      = tun_log plain (n_tun (demo_node False))"
proof (rule tun_write_authentic)
  show "wf_state (n_st (demo_node False))" by simp
  show "take 4 demo_packet = bytes_of magic" by (simp add: demo_packet_def)
  have "demo_packet ! 4 = msgData" by (simp add: demo_packet_def)
  then show "n_tun (handleEncrypted tun_log ''peer'' demo_packet demo_now (demo_node False))
      \<noteq> n_tun (demo_node False)"
    by (simp add: handleEncrypted_tun demo_packet_received tun_log_def)
qed

text \<open>An encrypted packet takes effect at most once: handling the same bytes again changes
  neither the TUN device nor the current session's replay window.\<close>

lemma packet_replay_ignored:
  assumes "wf_state (n_st n)" "receives n peer p \<noteq> None"
  shows "n_tun (handleEncrypted tw peer p now' (handleEncrypted tw peer p now n))
      = n_tun (handleEncrypted tw peer p now n)
    \<and> heap (n_st (handleEncrypted tw peer p now' (handleEncrypted tw peer p now n)))
      = heap (n_st (handleEncrypted tw peer p now n))"
proof -
  obtain i c plain where "receives n peer p = Some (i, c, plain)"
    using assms(2) by auto
  then have none: "receives (handleEncrypted tw peer p now n) peer p = None"
    by (rule receives_once [OF assms(1)])
  show ?thesis
    using handleEncrypted_drop [OF none, of tw now'] none
    by (auto simp: handleEncrypted_tun update_metrics_def)
qed

text \<open>Buffers are recycled safely: whatever stale bytes the pooled buffers hold, the packet
  given to the carrier is the header followed by the sealed payload, and no bit of it depends on
  the pool.\<close>

lemma pooled_buffer_is_harmless:
  "fst (buildPacket a typ c pl stale) = packet_of a typ c pl"
  by (rule fst_buildPacket)

end
