(* ===== verification/Handshake.thy ===== *)
theory Handshake
  imports Data_Plane
begin

text \<open>
  Properties of the HSH1 handshake: the layout of hello and hello-ack messages, the server's
  bookkeeping of hellos it has answered, the client's single use of an acknowledgement, and the
  sessions both ends hold afterwards. Nonces are the \<open>[32]byte\<close> arrays of the program, that is
  byte strings of length 32.
\<close>

subsection \<open>Message layout\<close>

definition hello_body :: "bytes \<Rightarrow> instant \<Rightarrow> bytes" where
  "hello_body cn now = bytes_of magic @ msgHello # put64 (word_of_int (unix_sec now)) @ cn"

lemma makeHello_body: "makeHello key cn now = hello_body cn now @ hmac_sha256 key (hello_body cn now)"
  by (simp add: makeHello_def hello_body_def Let_def)

lemma length_hello_body [simp]: "length (hello_body cn now) = 13 + length cn"
  by (simp add: hello_body_def)

lemma hello_body_parts:
  "length cn = 32 \<Longrightarrow> gslice 5 13 (hello_body cn now) = put64 (word_of_int (unix_sec now))"
  "length cn = 32 \<Longrightarrow> gslice 13 45 (hello_body cn now) = cn"
  "take 4 (hello_body cn now) = bytes_of magic"
  "hello_body cn now ! 4 = msgHello"
  by (simp_all add: hello_body_def gslice_def nth_append)

lemma makeHello_parts [simp]:
  assumes "length cn = 32"
  shows "length (makeHello key cn now) = 77"
    and "take 45 (makeHello key cn now) = hello_body cn now"
    and "gslice 45 77 (makeHello key cn now) = hmac_sha256 key (hello_body cn now)"
    and "gslice 5 13 (makeHello key cn now) = put64 (word_of_int (unix_sec now))"
    and "gslice 13 45 (makeHello key cn now) = cn"
    and "take 4 (makeHello key cn now) = bytes_of magic"
    and "makeHello key cn now ! 4 = msgHello"
  using assms
  by (simp_all add: makeHello_body gslice_append_left gslice_append_right hello_body_parts nth_append)

lemma makeHelloAck_parts [simp]:
  assumes "length cn = 32" "length sn = 32"
  shows "length (makeHelloAck key cn sn) = 101"
    and "hmac_sha256 key (take 69 (makeHelloAck key cn sn)) = gslice 69 101 (makeHelloAck key cn sn)"
    and "gslice 5 37 (makeHelloAck key cn sn) = cn"
    and "gslice 37 69 (makeHelloAck key cn sn) = sn"
    and "take 4 (makeHelloAck key cn sn) = bytes_of magic"
    and "makeHelloAck key cn sn ! 4 = msgHelloAck"
  using assms by (simp_all add: makeHelloAck_def Let_def gslice_def nth_append)

lemma helloAck_valid_make: "length cn = 32 \<Longrightarrow> length sn = 32 \<Longrightarrow> helloAck_valid key (makeHelloAck key cn sn)"
  by (simp add: helloAck_valid_def)

text \<open>A hello is accepted while its timestamp is within 90 seconds of the server's clock.\<close>

lemma skew_ok_iff:
  "(let skew = since_wall now t in \<not> (skew > 90 * second \<or> skew < - 90 * second))
    \<longleftrightarrow> t - 90 * second \<le> wall now \<and> wall now \<le> t + 90 * second"
  by (auto simp: since_wall_def sat64_def second_def Let_def)

lemma hello_valid_make:
  assumes "length cn = 32" "clock_ok t0"
  shows "hello_valid key (makeHello key cn t0) now \<longleftrightarrow>
    unix_sec t0 * second - 90 * second \<le> wall now \<and> wall now \<le> unix_sec t0 * second + 90 * second"
proof -
  have b: "0 \<le> unix_sec t0" "unix_sec t0 < 2 ^ 62" using unix_sec_bounds [OF assms(2)] by auto
  then have "sint (word_of_int (unix_sec t0) :: u64) = unix_sec t0"
    by (intro sint_of_int_fits) (auto simp: fits64_def)
  then show ?thesis
    using assms(1) b by (simp add: hello_valid_def unix_ns_small Let_def skew_ok_iff [unfolded Let_def, simplified])
qed

subsection \<open>The server\<close>

definition after_hello :: "string \<Rightarrow> bytes \<Rightarrow> bytes \<Rightarrow> bytes \<Rightarrow> instant \<Rightarrow> tunnelState \<Rightarrow> tunnelState" where
  "after_hello peer key cn sn now st =
     (let st = st\<lparr>hellos := (expire_hellos now (hellos st))
            (cn \<mapsto> \<lparr>h_expires = time_add now (2 * minute), h_ack = makeHelloAck key cn sn\<rparr>)\<rparr>;
          (i, st) = new_session (fresh_session key cn sn peer False now) st
      in storeSession (Some i) st)"

lemma handleHello_invalid: "\<not> hello_valid key p now \<Longrightarrow> handleHello ops peer p key now rnd n = n"
  by (simp add: handleHello_def)

lemma handleHello_known:
  assumes "hello_valid key p now" "expire_hellos now (hellos (n_st n)) (gslice 13 45 p) = Some old"
  shows "handleHello ops peer p key now rnd n =
    snd (write_packet ops (h_ack old) peer
      (on_state (\<lambda>st. st\<lparr>hellos := expire_hellos now (hellos st)\<rparr>) n))"
  using assms by (simp add: handleHello_def)

lemma handleHello_new:
  assumes "hello_valid key p now" "expire_hellos now (hellos (n_st n)) (gslice 13 45 p) = None"
  shows "handleHello ops peer p key now (Some sn) n =
    snd (write_packet ops (makeHelloAck key (gslice 13 45 p) sn) peer
      (on_state (after_hello peer key (gslice 13 45 p) sn now) n))"
  using assms
  by (simp add: handleHello_def deriveSession_eq after_hello_def case_prod_beta Let_def)

lemma after_hello_simps [simp]:
  "st_session (after_hello peer key cn sn now st) = Some (next_sid st)"
  "heap (after_hello peer key cn sn now st) (next_sid st)
     = Some ((fresh_session key cn sn peer False now)\<lparr>s_metrics := True\<rparr>)"
  "next_sid (after_hello peer key cn sn now st) = Suc (next_sid st)"
  "hellos (after_hello peer key cn sn now st) cn
     = Some \<lparr>h_expires = time_add now (2 * minute), h_ack = makeHelloAck key cn sn\<rparr>"
  "st_metrics (after_hello peer key cn sn now st) = st_metrics st"
  by (simp_all add: after_hello_def state_ops)

lemma wf_hellos [simp]: "wf_state (st\<lparr>hellos := h\<rparr>) \<longleftrightarrow> wf_state st"
  by (simp add: wf_state_def)

lemma wf_pending [simp]:
  "wf_state (st\<lparr>pendingSet := b\<rparr>) \<longleftrightarrow> wf_state st" "wf_state (st\<lparr>pending := c\<rparr>) \<longleftrightarrow> wf_state st"
  by (simp_all add: wf_state_def)

lemma wf_after_hello: "wf_state st \<Longrightarrow> wf_state (after_hello peer key cn sn now st)"
  using wf_store_new [of "st\<lparr>hellos := (expire_hellos now (hellos st))
            (cn \<mapsto> \<lparr>h_expires = time_add now (2 * minute), h_ack = makeHelloAck key cn sn\<rparr>)\<rparr>"
      "fresh_session key cn sn peer False now"]
  by (simp add: after_hello_def case_prod_beta Let_def)

lemma handleHello_wf:
  assumes "wf_state (n_st n)"
  shows "wf_state (n_st (handleHello ops peer p key now rnd n))"
proof (cases "hello_valid key p now")
  case True
  then show ?thesis
  proof (cases "expire_hellos now (hellos (n_st n)) (gslice 13 45 p)")
    case None
    with True assms show ?thesis
      by (cases rnd) (auto simp: handleHello_new wf_after_hello, simp add: handleHello_def)
  next
    case (Some old)
    with True assms show ?thesis by (simp add: handleHello_known)
  qed
qed (use assms in \<open>simp add: handleHello_invalid\<close>)

subsection \<open>The client\<close>

lemma handleHelloAck_ignored:
  "\<not> (helloAck_valid key p \<and> pendingSet st \<and> pending st = gslice 5 37 p) \<Longrightarrow>
     handleHelloAck peer p key now st = st"
  by (auto simp: handleHelloAck_def Let_def)

lemma handleHelloAck_accepted:
  assumes "helloAck_valid key p" "pendingSet st" "pending st = gslice 5 37 p"
  shows "handleHelloAck peer p key now st =
    (let (i, st) = new_session (fresh_session key (gslice 5 37 p) (gslice 37 69 p) peer True now)
           (st\<lparr>pendingSet := False\<rparr>)
     in storeSession (Some i) st)"
  using assms by (simp add: handleHelloAck_def Let_def deriveSession_eq)

lemma handleHelloAck_wf: "wf_state st \<Longrightarrow> wf_state (handleHelloAck peer p key now st)"
proof (cases "helloAck_valid key p \<and> pendingSet st \<and> pending st = gslice 5 37 p")
  case True
  then show "wf_state st \<Longrightarrow> ?thesis"
    using wf_store_new [of "st\<lparr>pendingSet := False\<rparr>"
        "fresh_session key (gslice 5 37 p) (gslice 37 69 p) peer True now"]
    by (simp add: handleHelloAck_accepted case_prod_beta Let_def)
qed (simp add: handleHelloAck_ignored)

lemma handleHelloAck_clears:
  "handleHelloAck peer p key now st \<noteq> st \<Longrightarrow> \<not> pendingSet (handleHelloAck peer p key now st)"
  by (cases "helloAck_valid key p \<and> pendingSet st \<and> pending st = gslice 5 37 p")
    (auto simp: handleHelloAck_ignored handleHelloAck_accepted state_ops Let_def)

subsection \<open>Times at which a hello can be replayed\<close>

lemma expire_hellos_live:
  "m cn = Some v \<Longrightarrow> mono now \<le> mono (h_expires v) \<Longrightarrow> expire_hellos now m cn = Some v"
  by (simp add: expire_hellos_def time_after_def)

lemma expire_hellos_dead:
  "m cn = Some v \<Longrightarrow> mono (h_expires v) < mono now \<Longrightarrow> expire_hellos now m cn = None"
  by (simp add: expire_hellos_def time_after_def)

text \<open>A record written at \<open>t1\<close> covers every later instant at which a hello with a timestamp at most
  30 seconds ahead of \<open>t1\<close> is still valid.\<close>

lemma hello_covered:
  assumes "mono t2 - mono t1 = wall t2 - wall t1"
    and "unix_ns (sint (get64 (gslice 5 13 p))) \<le> wall t1 + 30 * second"
    and "hello_valid key p t2"
  shows "mono t2 \<le> mono (time_add t1 (2 * minute))"
proof -
  have "wall t2 \<le> unix_ns (sint (get64 (gslice 5 13 p))) + 90 * second"
    using assms(3) skew_ok_iff [of t2 "unix_ns (sint (get64 (gslice 5 13 p)))"]
    by (simp add: hello_valid_def Let_def)
  with assms(1,2) show ?thesis by (simp add: second_def minute_def)
qed

lemma expire_hellos_new [simp]: "expire_hellos now Map.empty = Map.empty"
  by (simp add: expire_hellos_def fun_eq_iff)

lemma handleHello_new_empty:
  assumes "hello_valid key p now" "hellos (n_st n) = Map.empty"
  shows "n_st (handleHello ops peer p key now (Some sn) n)
    = after_hello peer key (gslice 13 45 p) sn now (n_st n)"
  using assms by (simp add: handleHello_new)

text \<open>The sessions at the end of a handshake.\<close>

lemma handshake_sessions:
  assumes cn: "length cn = 32" and sn: "length sn = 32" and clk: "clock_ok t0"
    and skew: "unix_sec t0 * second - 90 * second \<le> wall t1" "wall t1 \<le> unix_sec t0 * second + 90 * second"
    and srv: "expire_hellos t1 (hellos (n_st b)) cn = None"
    and cli: "pendingSet st" "pending st = cn"
    and b'_def: "b' = handleHello ops pa (makeHello key cn t0) key t1 (Some sn) b"
    and ack_def: "ack = makeHelloAck key cn sn"
    and st'_def: "st' = handleHelloAck pb ack key t2 st"
  shows "n_carrier b' = snd (WritePacket ops ack pa (n_carrier b)) \<and>
    (\<exists>i j r s. st_session (n_st b') = Some j \<and> heap (n_st b') j = Some r \<and>
       st_session st' = Some i \<and> heap st' i = Some s \<and>
       rxAEAD r = txAEAD s \<and> rxAEAD s = txAEAD r \<and> s_peer r = pa \<and> s_peer s = pb \<and>
       s_tx r = 0 \<and> s_tx s = 0 \<and> s_replay r = zero_window \<and> s_replay s = zero_window)"
proof -
  have valid: "hello_valid key (makeHello key cn t0) t1"
    using hello_valid_make [OF cn clk] skew by simp
  have b': "b' = snd (write_packet ops ack pa (on_state (after_hello pa key cn sn t1) b))"
    using handleHello_new [OF valid, of b ops pa sn] srv cn by (simp add: b'_def ack_def)
  have st': "st' = (let (i, st) = new_session (fresh_session key cn sn pb True t2) (st\<lparr>pendingSet := False\<rparr>)
      in storeSession (Some i) st)"
    using handleHelloAck_accepted [OF helloAck_valid_make [OF cn sn, of key] cli(1)] cli(2) cn sn
    by (simp add: st'_def ack_def)
  have car: "n_carrier b' = snd (WritePacket ops ack pa (n_carrier b))"
    by (simp add: b' write_packet_def case_prod_beta Let_def)
  show ?thesis
    by (intro conjI car exI [of _ "next_sid st"] exI [of _ "next_sid (n_st b)"]
        exI [of _ "(fresh_session key cn sn pa False t1)\<lparr>s_metrics := True\<rparr>"]
        exI [of _ "(fresh_session key cn sn pb True t2)\<lparr>s_metrics := True\<rparr>"])
      (simp_all add: b' st' state_ops, simp_all add: fresh_session_def)
qed

subsection \<open>Properties\<close>

text \<open>C3: a complete handshake. The client's hello, handled by a server whose clock is within 90
  seconds and which has no live record of that client nonce, makes the server store a session and
  send an acknowledgement; handled by the client that is waiting for it, the acknowledgement makes
  the client store a session. The two sessions hold the same two keys, crossed, and start with
  counter zero and an empty replay window.\<close>

theorem handshake_establishes:
  assumes cn: "length cn = 32" and sn: "length sn = 32" and clk: "clock_ok t0"
    and skew: "unix_sec t0 * second - 90 * second \<le> wall t1" "wall t1 \<le> unix_sec t0 * second + 90 * second"
    and srv: "expire_hellos t1 (hellos (n_st b)) cn = None"
    and cli: "pendingSet st" "pending st = cn"
    and b'_def: "b' = handleHello ops pa (makeHello key cn t0) key t1 (Some sn) b"
    and ack_def: "ack = makeHelloAck key cn sn"
    and st'_def: "st' = handleHelloAck pb ack key t2 st"
  shows "n_carrier b' = snd (WritePacket ops ack pa (n_carrier b)) \<and>
    (\<exists>i j r s. st_session (n_st b') = Some j \<and> heap (n_st b') j = Some r \<and>
       st_session st' = Some i \<and> heap st' i = Some s \<and>
       rxAEAD r = txAEAD s \<and> rxAEAD s = txAEAD r \<and> s_peer r = pa \<and> s_peer s = pb \<and>
       s_tx r = 0 \<and> s_tx s = 0 \<and> s_replay r = zero_window \<and> s_replay s = zero_window)"
  using assms by (rule handshake_sessions)

definition demo_cn :: bytes where "demo_cn = replicate 32 7"
definition demo_sn :: bytes where "demo_sn = replicate 32 9"

definition demo_server :: "((bytes \<times> string) list, bytes list) node" where
  "demo_server = \<lparr>n_st = init_state, n_carrier = [], n_tun = [], n_pool = []\<rparr>"

lemma demo_handshake_simps [simp]:
  "length demo_cn = 32" "length demo_sn = 32"
  "hellos (n_st demo_server) = Map.empty" "next_sid (n_st demo_server) = 0"
  "heap (n_st demo_server) = Map.empty" "n_carrier demo_server = []"
  by (simp_all add: demo_cn_def demo_sn_def demo_server_def init_state_def)

lemma demo_hello_valid [simp]: "hello_valid key (makeHello key demo_cn demo_now) demo_now"
  by (simp add: hello_valid_make second_def)

theorem handshake_establishes_witness:
  "n_carrier (handleHello capture_ops ''a'' (makeHello [1] demo_cn demo_now) [1] demo_now (Some demo_sn) demo_server)
    = [(makeHelloAck [1] demo_cn demo_sn, ''a'')]"
  using handshake_establishes [of demo_cn demo_sn demo_now demo_now demo_server
      "init_state\<lparr>pendingSet := True, pending := demo_cn\<rparr>" _ capture_ops "''a''" "[1]" _ _ "''b''" demo_now, OF _ _ _ _ _ _ _ _ refl refl refl]
  by (simp add: second_def)

text \<open>C18: a retransmitted hello is answered, not obeyed. While the record of a hello is alive, the
  same hello makes the server send the recorded acknowledgement again and leaves its sessions and
  the current session as they are.\<close>

theorem hello_retransmission:
  assumes "hello_valid key p now" "hellos (n_st n) (gslice 13 45 p) = Some old"
    and "mono now \<le> mono (h_expires old)"
  shows "n_carrier (handleHello ops peer p key now rnd n) = snd (WritePacket ops (h_ack old) peer (n_carrier n)) \<and>
    st_session (n_st (handleHello ops peer p key now rnd n)) = st_session (n_st n) \<and>
    heap (n_st (handleHello ops peer p key now rnd n)) = heap (n_st n)"
  using handleHello_known [OF assms(1) expire_hellos_live [where m = "hellos (n_st n)", OF assms(2,3)], of ops peer rnd]
  by (simp, simp add: write_packet_def case_prod_beta Let_def)

theorem hello_retransmission_witness:
  "n_carrier (handleHello capture_ops ''a'' (makeHello [1] demo_cn demo_now) [1] demo_now None
      (on_state (\<lambda>st. st\<lparr>hellos := [demo_cn \<mapsto> \<lparr>h_expires = demo_now, h_ack = [5]\<rparr>]\<rparr>) demo_server))
    = [([5], ''a'')]"
  using hello_retransmission [OF demo_hello_valid, where rnd = None and ops = capture_ops and peer = "''a''" and key = "[1]"
      and n = "on_state (\<lambda>st. st\<lparr>hellos := [demo_cn \<mapsto> \<lparr>h_expires = demo_now, h_ack = [5]\<rparr>]\<rparr>) demo_server"]
  by simp



text \<open>C20: beyond 30 seconds the protection fails. The record lives 120 seconds but a hello from a
  clock 90 seconds ahead stays valid for 180: the same bytes, handled again after the record has
  expired, make the server create a second session and replace the current one.\<close>

theorem hello_replay_possible:
  assumes "length cn = 32" "clock_ok t0" "hellos (n_st n) = Map.empty"
    and "wall t1 = unix_sec t0 * second - 90 * second" "mono t2 - mono t1 = wall t2 - wall t1"
    and "wall t1 + 120 * second < wall t2" "wall t2 \<le> wall t1 + 180 * second"
    and n1_def: "n1 = handleHello ops peer (makeHello key cn t0) key t1 (Some sn) n"
    and n2_def: "n2 = handleHello ops peer' (makeHello key cn t0) key t2 (Some sn') n1"
  shows "st_session (n_st n1) = Some (next_sid (n_st n)) \<and>
    st_session (n_st n2) = Some (Suc (next_sid (n_st n)))"
proof -
  have v1: "hello_valid key (makeHello key cn t0) t1" and v2: "hello_valid key (makeHello key cn t0) t2"
    using hello_valid_make [OF assms(1,2)] assms(4-7) by (auto simp: second_def)
  have n1: "n_st n1 = after_hello peer key cn sn t1 (n_st n)"
    using handleHello_new_empty [OF v1 assms(3)] assms(1) by (simp add: n1_def)
  have "expire_hellos t2 (hellos (n_st n1)) cn = None"
    using assms(5,6) by (intro expire_hellos_dead) (simp add: n1, simp add: second_def minute_def)
  then have "n_st n2 = after_hello peer' key cn sn' t2 (n_st n1)"
    using handleHello_new [OF v2, of n1 ops peer' sn'] assms(1) by (simp add: n2_def)
  with n1 show ?thesis by simp
qed

theorem hello_replay_possible_witness:
  "st_session (n_st (handleHello capture_ops ''evil'' (makeHello [1] demo_cn demo_now) [1]
      \<lparr>wall = wall demo_now + 60 * second, mono = 150 * second\<rparr> (Some demo_sn)
      (handleHello capture_ops ''a'' (makeHello [1] demo_cn demo_now) [1]
        \<lparr>wall = wall demo_now - 90 * second, mono = 0\<rparr> (Some demo_sn) demo_server))) = Some 1"
  using hello_replay_possible [of demo_cn demo_now demo_server
      "\<lparr>wall = wall demo_now - 90 * second, mono = 0\<rparr>" "\<lparr>wall = wall demo_now + 60 * second, mono = 150 * second\<rparr>"
      _ capture_ops "''a''" "[1]" demo_sn _ "''evil''" demo_sn, OF _ _ _ _ _ _ _ refl refl]
  by (simp add: second_def)

text \<open>An acknowledgement is used once: after one that took effect, no acknowledgement, not even
  the same one again, changes the client's state.\<close>

lemma helloAck_single_use:
  assumes "handleHelloAck peer p key now st \<noteq> st"
  shows "handleHelloAck peer' p' key now' (handleHelloAck peer p key now st) = handleHelloAck peer p key now st"
  by (rule handleHelloAck_ignored) (use handleHelloAck_clears [OF assms] in simp)

end
