(* ===== verification/Interleaving.thy ===== *)
theory Interleaving
  imports Handshake
begin

text \<open>
  Interleavings of the goroutines at the granularity of their atomic operations. A session's send
  counter is advanced by one atomic addition, its replay window is consulted under its mutex, and
  the other fields are updated by atomic stores; between two such operations any other goroutine may
  run, on the current session or on one that has already been replaced. The step relation
  \<open>atomic\<close> has one rule per kind of operation, and its labels record the counters that were drawn
  for sealing and the counters that were accepted.

  The theorems hold for every interleaving: a session never seals two packets under one nonce, and
  never accepts one counter twice. The functions of the transport are sequences of such steps.
\<close>

datatype label = Sealed sid u64 | Accepted sid u64 | Silent

inductive atomic :: "bytes \<Rightarrow> tunnelState \<Rightarrow> label \<Rightarrow> tunnelState \<Rightarrow> bool" for key where
  seal: "heap st i = Some s \<Longrightarrow> next_counter i st = (c, st') \<Longrightarrow> atomic key st (Sealed i c) st'"
| take_counter: "heap st i = Some s \<Longrightarrow> fst (accept c (s_replay s)) \<Longrightarrow>
    atomic key st (Accepted i c) (update_session i (\<lambda>s. s\<lparr>s_replay := snd (accept c (s_replay s))\<rparr>) st)"
| alloc: "atomic key st Silent (snd (new_session (fresh_session key cn sn peer initiator now) st))"
| count: "(\<And>s. s_tx (f s) = s_tx s \<and> s_replay (f s) = s_replay s) \<Longrightarrow> atomic key st Silent (update_session i f st)"
| other: "heap st' = heap st \<Longrightarrow> next_sid st' = next_sid st \<Longrightarrow> atomic key st Silent st'"

inductive atomics :: "bytes \<Rightarrow> tunnelState \<Rightarrow> label list \<Rightarrow> tunnelState \<Rightarrow> bool" for key where
  none: "atomics key st [] st"
| more: "atomics key st ls st1 \<Longrightarrow> atomic key st1 l st2 \<Longrightarrow> atomics key st (ls @ [l]) st2"

inductive_cases atomic_SealedE: "atomic key st (Sealed i c) st'"
inductive_cases atomic_AcceptedE: "atomic key st (Accepted i c) st'"

definition sealed :: "sid \<Rightarrow> label list \<Rightarrow> u64 list" where
  "sealed i ls = concat (map (\<lambda>l. case l of Sealed j c \<Rightarrow> if j = i then [c] else [] | _ \<Rightarrow> []) ls)"

definition accepted :: "sid \<Rightarrow> label list \<Rightarrow> u64 list" where
  "accepted i ls = concat (map (\<lambda>l. case l of Accepted j c \<Rightarrow> if j = i then [c] else [] | _ \<Rightarrow> []) ls)"

lemma sealed_simps [simp]:
  "sealed i [] = []"
  "sealed i (ls @ ms) = sealed i ls @ sealed i ms"
  "sealed i (Sealed j c # ls) = (if j = i then [c] else []) @ sealed i ls"
  "sealed i (Accepted j c # ls) = sealed i ls" "sealed i (Silent # ls) = sealed i ls"
  by (simp_all add: sealed_def)

lemma accepted_simps [simp]:
  "accepted i [] = []"
  "accepted i (ls @ ms) = accepted i ls @ accepted i ms"
  "accepted i (Accepted j c # ls) = (if j = i then [c] else []) @ accepted i ls"
  "accepted i (Sealed j c # ls) = accepted i ls" "accepted i (Silent # ls) = accepted i ls"
  by (simp_all add: accepted_def)

subsection \<open>The invariant\<close>

text \<open>The counters drawn by a session are 1, 2, 3, ... in order, its send counter is their number, and
  its replay window represents exactly the counters it has accepted.\<close>

definition session_log :: "session \<Rightarrow> u64 list \<Rightarrow> u64 list \<Rightarrow> bool" where
  "session_log s sent got \<longleftrightarrow>
     s_tx s = of_nat (length sent) \<and> sent = map of_nat [1..<Suc (length sent)] \<and>
     window_rel (s_replay s) (set got) \<and> distinct got"

definition log_inv :: "label list \<Rightarrow> tunnelState \<Rightarrow> bool" where
  "log_inv ls st \<longleftrightarrow>
     (\<forall>i s. heap st i = Some s \<longrightarrow> i < next_sid st \<and> session_log s (sealed i ls) (accepted i ls)) \<and>
     (\<forall>i. heap st i = None \<longrightarrow> sealed i ls = [] \<and> accepted i ls = [])"

lemma session_log_fresh [simp]: "session_log (fresh_session key cn sn peer b now) [] []"
  by (simp add: session_log_def window_rel_zero)

lemma session_log_seal:
  "session_log s sent got \<Longrightarrow> session_log (s\<lparr>s_tx := s_tx s + 1\<rparr>) (sent @ [s_tx s + 1]) got"
  by (simp add: session_log_def)

lemma session_log_take:
  assumes "session_log s sent got" "fst (accept c (s_replay s))"
  shows "session_log (s\<lparr>s_replay := snd (accept c (s_replay s))\<rparr>) sent (got @ [c])"
proof -
  have "c \<notin> set got" using assms window.accept_fresh by (fastforce simp: session_log_def)
  with assms window.accept_seen [of "s_replay s" "set got" c] show ?thesis by (simp add: session_log_def)
qed

lemma log_inv_init: "log_inv [] init_state"
  by (simp add: log_inv_def init_state_def)

lemma atomic_log_inv:
  assumes "atomic key st l st'" "log_inv ls st"
  shows "log_inv (ls @ [l]) st'"
  using assms
proof (induction rule: atomic.induct)
  case (seal st i s c st')
  then have "session_log (s\<lparr>s_tx := s_tx s + 1\<rparr>) (sealed i ls @ [s_tx s + 1]) (accepted i ls)"
    by (simp add: log_inv_def session_log_seal)
  with seal show ?case by (auto simp: log_inv_def next_counter_def update_session_def)
next
  case (take_counter st i s c)
  then have "session_log (s\<lparr>s_replay := snd (accept c (s_replay s))\<rparr>) (sealed i ls) (accepted i ls @ [c])"
    by (simp add: log_inv_def session_log_take)
  with take_counter show ?case by (auto simp: log_inv_def update_session_def)
next
  case (alloc st cn sn peer initiator now)
  have "heap st (next_sid st) = None" using alloc by (fastforce simp: log_inv_def)
  with alloc show ?case by (fastforce simp: log_inv_def new_session_def)
next
  case (count f st i)
  then have "session_log (f s) a b = session_log s a b" for s a b by (simp add: session_log_def)
  with count show ?case by (auto simp: log_inv_def update_session_def)
next
  case (other st' st)
  then show ?case by (simp add: log_inv_def)
qed

lemma atomics_log_inv: "atomics key st ls st' \<Longrightarrow> log_inv [] st \<Longrightarrow> log_inv ls st'"
  by (induction rule: atomics.induct) (auto intro: atomic_log_inv)

subsection \<open>The transport functions as sequences of atomic steps\<close>

lemma atomics_trans: "atomics key st1 ms st2 \<Longrightarrow> atomics key st ls st1 \<Longrightarrow> atomics key st (ls @ ms) st2"
proof (induction rule: atomics.induct)
  case (more st1 ms st2 l st3)
  then show ?case using atomics.more [of key st "ls @ ms" st2 l st3] by simp
qed simp

lemma atomics_one: "atomic key st l st' \<Longrightarrow> atomics key st [l] st'"
  using atomics.more [OF atomics.none] by simp

lemma atomics_other: "heap st' = heap st \<Longrightarrow> next_sid st' = next_sid st \<Longrightarrow> atomics key st [Silent] st'"
  by (intro atomics_one atomic.other)

lemma update_session_comp: "update_session i g (update_session i f st) = update_session i (g \<circ> f) st"
  by (simp add: update_session_def option.map_comp)

lemma account_atomics: "atomics key st [Silent, Silent] (account_send i typ len err st)"
proof (cases "heap st i")
  case (Some s)
  let ?f = "if err = None then (\<lambda>s. s\<lparr>txBytes := txBytes s + of_nat len\<rparr>) else id"
  have "atomics key st [Silent] (update_session i ?f st)" by (intro atomics_one atomic.count) simp
  moreover have "heap (account_send i typ len err st) = heap (update_session i ?f st)"
    "next_sid (account_send i typ len err st) = next_sid (update_session i ?f st)"
    using Some by (auto simp: account_send_def Let_def update_session_def update_metrics_def fun_eq_iff)
  ultimately show ?thesis using atomics_trans [OF atomics_other, of _ _ key st "[Silent]"] by simp
next
  case None
  have "atomics key st [Silent] st" by (intro atomics_other) simp_all
  from atomics_trans [OF this this] None show ?thesis by (simp add: account_send_def)
qed

lemma sendEncrypted_atomics:
  assumes "heap (n_st n) i = Some s"
  shows "atomics key (n_st n) [Sealed i (s_tx s + 1), Silent, Silent] (n_st (snd (sendEncrypted ops i typ pl n)))"
proof -
  have "next_counter i (n_st n) = (s_tx s + 1, update_session i tx_session (n_st n))"
    using assms by (simp add: next_counter_def tx_session_def [abs_def])
  from atomics_one [OF atomic.seal [OF assms this]]
  have "atomics key (n_st n) [Sealed i (s_tx s + 1)] (update_session i tx_session (n_st n))" .
  from atomics_trans [OF account_atomics this] assms show ?thesis
    by (simp add: sendEncrypted_eq Let_def case_prod_beta)
qed

text \<open>The labels of a received packet: its counter is accepted exactly when the packet has an effect.\<close>

definition receive_labels :: "(sid \<times> u64 \<times> bytes) option \<Rightarrow> label list" where
  "receive_labels r = (case r of None \<Rightarrow> [Silent] | Some (i, c, plain) \<Rightarrow> [Accepted i c, Silent, Silent])"

lemma handleEncrypted_atomics:
  "atomics key (n_st n) (receive_labels (receives n peer p)) (n_st (handleEncrypted tw peer p now n))"
proof (cases "receives n peer p")
  case None
  from handleEncrypted_drop [OF None, of tw now] None show ?thesis
    by (auto simp: receive_labels_def update_metrics_def intro!: atomics_other)
next
  case (Some r)
  obtain i c plain where r: "r = (i, c, plain)" by (cases r)
  obtain ss where ss: "heap (n_st n) i = Some ss" "fst (accept c (s_replay ss))"
    using Some unfolding r by (rule receives_SomeD)
  let ?f = "\<lambda>s. s\<lparr>s_replay := snd (accept c (s_replay s))\<rparr>" and ?g = "\<lambda>s. (touch now s)\<lparr>rxBytes := rxBytes s + of_nat (length plain)\<rparr>"
  have 1: "atomics key (n_st n) [Accepted i c] (update_session i ?f (n_st n))"
    by (rule atomics_one [OF atomic.take_counter [OF ss]])
  have "atomics key (update_session i ?f (n_st n)) [Silent] (update_session i ?g (update_session i ?f (n_st n)))"
    by (intro atomics_one atomic.count) (simp add: touch_def)
  moreover have "update_session i ?g (update_session i ?f (n_st n)) = update_session i (rx_session now c plain) (n_st n)"
    unfolding update_session_comp by (rule update_session_cong [OF ss(1)]) (simp add: rx_session_def touch_def)
  ultimately have 2: "atomics key (update_session i ?f (n_st n)) [Silent] (update_session i (rx_session now c plain) (n_st n))" by simp
  have "heap (n_st (handleEncrypted tw peer p now n)) = heap (update_session i (rx_session now c plain) (n_st n))"
    "next_sid (n_st (handleEncrypted tw peer p now n)) = next_sid (update_session i (rx_session now c plain) (n_st n))"
    by (auto simp: handleEncrypted_receive [OF Some [unfolded r]] Let_def update_metrics_def notifyProbeAck_def split: option.split)
  from atomics_trans [OF atomics_other [OF this] atomics_trans [OF 2 1]] Some show ?thesis
    by (simp add: receive_labels_def r)
qed

lemma store_new_atomics:
  "atomics key st [Silent, Silent, Silent]
     (storeSession (Some (next_sid st)) (snd (new_session (fresh_session key cn sn peer b now) st)))"
proof -
  let ?st = "snd (new_session (fresh_session key cn sn peer b now) st)"
  have 1: "atomics key st [Silent] ?st" by (intro atomics_one atomic.alloc)
  have 2: "atomics key ?st [Silent] (update_session (next_sid st) (\<lambda>s. s\<lparr>s_metrics := True\<rparr>) ?st)"
    by (intro atomics_one atomic.count) simp
  have 3: "heap (storeSession (Some (next_sid st)) ?st) = heap (update_session (next_sid st) (\<lambda>s. s\<lparr>s_metrics := True\<rparr>) ?st)"
    "next_sid (storeSession (Some (next_sid st)) ?st) = next_sid (update_session (next_sid st) (\<lambda>s. s\<lparr>s_metrics := True\<rparr>) ?st)"
    by (simp_all add: storeSession_def Let_def)
  from atomics_trans [OF atomics_other [OF 3] atomics_trans [OF 2 1]] show ?thesis by simp
qed

lemma handleHello_atomics: "\<exists>ls. set ls \<subseteq> {Silent} \<and> atomics key (n_st n) ls (n_st (handleHello ops peer p key now rnd n))"
proof (cases "hello_valid key p now")
  case False
  then show ?thesis using atomics.none by (intro exI [of _ "[]"]) (simp add: handleHello_def)
next
  case True
  let ?st = "(n_st n)\<lparr>hellos := expire_hellos now (hellos (n_st n))\<rparr>"
  have e: "atomics key (n_st n) [Silent] ?st" by (intro atomics_other) simp_all
  show ?thesis
  proof (cases "expire_hellos now (hellos (n_st n)) (gslice 13 45 p) = None \<and> rnd \<noteq> None")
    case False
    with True e show ?thesis by (intro exI [of _ "[Silent]"]) (auto simp: handleHello_def Let_def split: option.split)
  next
    case new: True
    then obtain sn where sn: "rnd = Some sn" by blast
    let ?ack = "\<lparr>h_expires = time_add now (2 * minute), h_ack = makeHelloAck key (gslice 13 45 p) sn\<rparr>"
    let ?st1 = "(n_st n)\<lparr>hellos := (expire_hellos now (hellos (n_st n)))(gslice 13 45 p \<mapsto> ?ack)\<rparr>"
    have "atomics key (n_st n) [Silent] ?st1" by (intro atomics_other) simp_all
    from atomics_trans [OF store_new_atomics this] new True sn show ?thesis
      by (intro exI [of _ "[Silent, Silent, Silent, Silent]"])
        (simp add: handleHello_new after_hello_def Let_def case_prod_beta new_session_def)
  qed
qed

lemma handleHelloAck_atomics: "\<exists>ls. set ls \<subseteq> {Silent} \<and> atomics key st ls (handleHelloAck peer p key now st)"
proof (cases "helloAck_valid key p \<and> pendingSet st \<and> pending st = gslice 5 37 p")
  case True
  have "atomics key st [Silent] (st\<lparr>pendingSet := False\<rparr>)" by (intro atomics_other) simp_all
  from atomics_trans [OF store_new_atomics this] True show ?thesis
    by (intro exI [of _ "[Silent, Silent, Silent, Silent]"])
      (simp add: handleHelloAck_accepted Let_def case_prod_beta new_session_def)
qed (use atomics.none in \<open>force simp: handleHelloAck_ignored\<close>)

subsection \<open>Properties\<close>

lemma log_inv_trace: "atomics key init_state ls st \<Longrightarrow> log_inv ls st"
  by (rule atomics_log_inv [OF _ log_inv_init])

text \<open>C4: no nonce is used twice under one key. However the sends of the goroutines interleave, with
  receptions, rekeying and each other, the nonces a session seals packets with are pairwise different
  and never the zero counter, as long as it has sealed fewer than \<open>2\<^sup>64\<close> packets.\<close>

theorem sealed_nonces_unique:
  assumes "atomics key init_state ls st" "length (sealed i ls) < 2 ^ 64"
  shows "distinct (map makeNonce (sealed i ls)) \<and> 0 \<notin> set (sealed i ls)"
proof -
  have s: "sealed i ls = map of_nat [1..<Suc (length (sealed i ls))]"
  proof (cases "heap st i")
    case None
    with log_inv_trace [OF assms(1)] show ?thesis by (simp add: log_inv_def)
  next
    case (Some s)
    with log_inv_trace [OF assms(1)] show ?thesis unfolding log_inv_def session_log_def by blast
  qed
  have u: "unat (of_nat k :: u64) = k" if "k < 2 ^ 64" for k using that by (simp add: unat_of_nat)
  have "inj_on (of_nat :: nat \<Rightarrow> u64) {1..<Suc (length (sealed i ls))}"
    using assms(2) by (intro inj_on_inverseI [of _ unat]) (simp add: u)
  moreover have "(of_nat k :: u64) \<noteq> 0" if "1 \<le> k" "k \<le> length (sealed i ls)" for k
    using u [of k] that assms(2) by (metis le_less_trans not_one_le_zero unat_0)
  ultimately have "distinct (map (of_nat :: nat \<Rightarrow> u64) [1..<Suc (length (sealed i ls))])"
    "0 \<notin> set (map (of_nat :: nat \<Rightarrow> u64) [1..<Suc (length (sealed i ls))])"
    by (auto simp add: distinct_map less_Suc_eq_le simp del: upt_Suc)
  then show ?thesis unfolding s [symmetric] by (simp add: distinct_map inj_on_def)
qed

lemma demo_atomics:
  "\<exists>st. atomics [] init_state [Silent, Sealed 0 1, Sealed 0 2, Accepted 0 5] st"
proof -
  let ?s = "fresh_session [] [] [] ''peer'' True demo_now"
  let ?st = "snd (new_session ?s init_state)"
  have h: "heap ?st 0 = Some ?s" by (simp add: new_session_def init_state_def)
  let ?st1 = "update_session 0 (\<lambda>s. s\<lparr>s_tx := s_tx s + 1\<rparr>) ?st"
  have h1: "heap ?st1 0 = Some (?s\<lparr>s_tx := 1\<rparr>)" using h by (simp add: update_session_def)
  let ?st2 = "update_session 0 (\<lambda>s. s\<lparr>s_tx := s_tx s + 1\<rparr>) ?st1"
  have h2: "heap ?st2 0 = Some (?s\<lparr>s_tx := 2\<rparr>)" using h by (simp add: update_session_def)
  have "atomics [] init_state ([] @ [Silent]) ?st" by (intro atomics.more [OF atomics.none] atomic.alloc)
  from atomics.more [OF this atomic.seal [OF h, of 1]] have "atomics [] init_state [Silent, Sealed 0 1] ?st1"
    using h by (simp add: next_counter_def)
  from atomics.more [OF this atomic.seal [OF h1, of 2]] have "atomics [] init_state [Silent, Sealed 0 1, Sealed 0 2] ?st2"
    using h1 by (simp add: next_counter_def)
  moreover have "fst (accept 5 (s_replay (?s\<lparr>s_tx := 2\<rparr>)))" by (simp add: accept_def zero_window_def)
  ultimately show ?thesis using atomics.more atomic.take_counter [OF h2] by fastforce
qed

theorem sealed_nonces_unique_witness:
  "distinct (map makeNonce (sealed 0 [Silent, Sealed 0 1, Sealed 0 2, Accepted 0 5]))"
  using demo_atomics sealed_nonces_unique [of "[]" "[Silent, Sealed 0 1, Sealed 0 2, Accepted 0 5]" _ 0] by auto

text \<open>C5: a session accepts each counter at most once, whatever packets the receive workers handle
  concurrently and in whatever order; so a packet takes effect at most once.\<close>

theorem accepted_counters_once:
  assumes "atomics key init_state ls st"
  shows "distinct (accepted i ls)"
proof (cases "heap st i")
  case None
  with log_inv_trace [OF assms] show ?thesis by (simp add: log_inv_def)
next
  case (Some s)
  with log_inv_trace [OF assms] show ?thesis unfolding log_inv_def session_log_def by blast
qed

theorem accepted_counters_once_witness:
  "distinct (accepted 0 [Silent, Sealed 0 1, Sealed 0 2, Accepted 0 5])"
  using demo_atomics accepted_counters_once by blast

end
