(* ===== verification/Tun_Device.thy ===== *)
theory Tun_Device
  imports Prelude
begin

text \<open>
  The TUN device (\<open>tun_linux.go\<close>). The kernel's side is the record \<open>tun_kernel\<close>: the files opened so
  far, in order, and the outcomes of the opens and \<open>TUNSETIFF\<close> calls to come (an outcome that is not
  listed is a success). A device holds the numbers of its queue files. Every open file has a list of
  packets written to it and the outcomes of the reads and writes to come.
\<close>

type_synonym u16 = "16 word"

datatype tun_error =
    OpenFailed string
  | TUNSETIFF int
  | QueueFailed int int tun_error
  | InvalidQueueIndex int
  | TunClosed
  | TunIO string
  | TunQueueRead int tun_error

definition tunSetIFF :: int where "tunSetIFF = 0x400454ca"
definition iffTun :: u16 where "iffTun = 0x0001"
definition iffMultiQueue :: u16 where "iffMultiQueue = 0x0100"
definition iffNoPI :: u16 where "iffNoPI = 0x1000"

record ifreq =
  if_Name :: bytes
  if_Flags :: u16
  if_Pad :: bytes

record tun_file =
  tf_req :: ifreq
  tf_reads :: "(tun_error + bytes) list"
  tf_writes :: "tun_error option list"
  tf_out :: "bytes list"
  tf_closed :: bool

record open_outcome =
  oo_open :: "tun_error option"
  oo_errno :: int
  oo_reads :: "(tun_error + bytes) list"
  oo_writes :: "tun_error option list"

record tun_kernel =
  tk_files :: "tun_file list"
  tk_opens :: "open_outcome list"

record tunDevice =
  t_name :: string
  t_queues :: "nat list"
  t_write :: u32

subsection \<open>Opening\<close>

definition next_open :: "tun_kernel \<Rightarrow> open_outcome \<times> tun_kernel" where
  "next_open k =
     (case tk_opens k of
        [] \<Rightarrow> (\<lparr>oo_open = None, oo_errno = 0, oo_reads = [], oo_writes = []\<rparr>, k)
      | o1 # os \<Rightarrow> (o1, k\<lparr>tk_opens := os\<rparr>))"

definition close_file :: "nat \<Rightarrow> tun_kernel \<Rightarrow> tun_error option \<times> tun_kernel" where
  "close_file i k =
     (if tf_closed (tk_files k ! i) then (Some TunClosed, k)
      else (None, k\<lparr>tk_files := (tk_files k)[i := (tk_files k ! i)\<lparr>tf_closed := True\<rparr>]\<rparr>))"

definition make_ifreq :: "string \<Rightarrow> bool \<Rightarrow> ifreq" where
  "make_ifreq name multi =
     (let b = take 16 (bytes_of name);
          flags = iffTun OR iffNoPI;
          flags = (if multi then flags OR iffMultiQueue else flags)
      in \<lparr>if_Name = b @ replicate (16 - length b) 0, if_Flags = flags, if_Pad = replicate 22 0\<rparr>)"

definition openTunQueue :: "string \<Rightarrow> bool \<Rightarrow> tun_kernel \<Rightarrow> (tun_error + nat) \<times> tun_kernel" where
  "openTunQueue name multi k =
     (let (o1, k) = next_open k
      in case oo_open o1 of
           Some err \<Rightarrow> (Inl err, k)
         | None \<Rightarrow>
             (let req = make_ifreq name multi; i = length (tk_files k);
                  k = k\<lparr>tk_files := tk_files k @ [\<lparr>tf_req = req, tf_reads = oo_reads o1, tf_writes = oo_writes o1,
                                                tf_out = [], tf_closed = False\<rparr>]\<rparr>
              in if oo_errno o1 \<noteq> 0 then (Inl (TUNSETIFF (oo_errno o1)), snd (close_file i k)) else (Inr i, k)))"

fun close_files :: "nat list \<Rightarrow> tun_kernel \<Rightarrow> tun_kernel" where
  "close_files [] k = k"
| "close_files (q # qs) k = close_files qs (snd (close_file q k))"

text \<open>The loop of \<open>openTunWithQueues\<close>: \<open>i\<close> queues are open, \<open>left\<close> are to be opened.\<close>

fun open_queues :: "string \<Rightarrow> bool \<Rightarrow> nat \<Rightarrow> nat \<Rightarrow> nat list \<Rightarrow> tun_kernel \<Rightarrow> (tun_error + nat list) \<times> tun_kernel" where
  "open_queues name multi count 0 files k = (Inr files, k)"
| "open_queues name multi count (Suc left) files k =
     (case openTunQueue name multi k of
        (Inl err, k) \<Rightarrow> (Inl (QueueFailed (int (length files) + 1) (int count) err), close_files files k)
      | (Inr f, k) \<Rightarrow> open_queues name multi count left (files @ [f]) k)"

definition openTunWithQueues :: "string \<Rightarrow> nat \<Rightarrow> tun_kernel \<Rightarrow> (tun_error + tunDevice) \<times> tun_kernel" where
  "openTunWithQueues name queueCount k =
     (case open_queues name (queueCount > 1) queueCount queueCount [] k of
        (Inl err, k) \<Rightarrow> (Inl err, k)
      | (Inr files, k) \<Rightarrow> (Inr \<lparr>t_name = name, t_queues = files, t_write = 0\<rparr>, k))"

definition openTun :: "string \<Rightarrow> int \<Rightarrow> tun_kernel \<Rightarrow> (tun_error + tunDevice) \<times> tun_kernel" where
  "openTun name queueCount k =
     (let queueCount = (if queueCount < 1 then 1 else queueCount)
      in case openTunWithQueues name (nat queueCount) k of
           (Inr dev, k) \<Rightarrow> (Inr dev, k)
         | (Inl err, k) \<Rightarrow>
             if queueCount = 1 then (Inl err, k) else openTunWithQueues name 1 k)"

subsection \<open>Reading, writing, closing\<close>

definition QueueCount :: "tunDevice \<Rightarrow> int" where
  "QueueCount t = int (length (t_queues t))"

definition file_read :: "nat \<Rightarrow> tun_file \<Rightarrow> (tun_error + bytes) \<times> tun_file" where
  "file_read len f =
     (if tf_closed f then (Inl TunClosed, f)
      else case tf_reads f of
        [] \<Rightarrow> (Inl TunClosed, f)
      | Inl e # rs \<Rightarrow> (Inl e, f\<lparr>tf_reads := rs\<rparr>)
      | Inr p # rs \<Rightarrow> (Inr (take len p), f\<lparr>tf_reads := rs\<rparr>))"

definition file_write :: "bytes \<Rightarrow> tun_file \<Rightarrow> tun_error option \<times> tun_file" where
  "file_write p f =
     (if tf_closed f then (Some TunClosed, f)
      else case tf_writes f of
        Some e # ws \<Rightarrow> (Some e, f\<lparr>tf_writes := ws\<rparr>)
      | ws \<Rightarrow> (None, f\<lparr>tf_writes := tl ws, tf_out := tf_out f @ [p]\<rparr>))"

definition on_file :: "nat \<Rightarrow> (tun_file \<Rightarrow> 'r \<times> tun_file) \<Rightarrow> tun_kernel \<Rightarrow> 'r \<times> tun_kernel" where
  "on_file i op k = (let (r, f) = op (tk_files k ! i) in (r, k\<lparr>tk_files := (tk_files k)[i := f]\<rparr>))"

definition ReadQueue :: "int \<Rightarrow> nat \<Rightarrow> tunDevice \<Rightarrow> tun_kernel \<Rightarrow> (tun_error + bytes) \<times> tun_kernel" where
  "ReadQueue index len t k =
     (if index < 0 \<or> index \<ge> int (length (t_queues t)) then (Inl (InvalidQueueIndex index), k)
      else on_file (t_queues t ! nat index) (file_read len) k)"

definition write_index :: "tunDevice \<Rightarrow> nat" where
  "write_index t = unat (t_write t) mod length (t_queues t)"

text \<open>The counter is incremented first; \<open>n - 1\<close> is its value before the increment.\<close>

definition tun_Write :: "bytes \<Rightarrow> tunDevice \<times> tun_kernel \<Rightarrow> tun_error option \<times> tunDevice \<times> tun_kernel" where
  "tun_Write p tk =
     (case tk of (t, k) \<Rightarrow>
        if t_queues t = [] then (Some TunClosed, t, k)
        else
          (let n = t_write t + 1;
               q = t_queues t ! (unat (n - 1) mod length (t_queues t));
               (err, k) = on_file q (file_write p) k
           in (err, t\<lparr>t_write := n\<rparr>, k)))"

fun close_queues :: "nat list \<Rightarrow> tun_error option \<Rightarrow> tun_kernel \<Rightarrow> tun_error option \<times> tun_kernel" where
  "close_queues [] first k = (first, k)"
| "close_queues (q # qs) first k =
     (let (err, k) = close_file q k
      in close_queues qs (if err \<noteq> None \<and> first = None then err else first) k)"

definition tun_Close :: "tunDevice \<times> tun_kernel \<Rightarrow> tun_error option \<times> tunDevice \<times> tun_kernel" where
  "tun_Close tk =
     (case tk of (t, k) \<Rightarrow> (let (first, k) = close_queues (t_queues t) None k in (first, t\<lparr>t_queues := []\<rparr>, k)))"

text \<open>
  The same two operations with what other goroutines do between the check of the queues and their
  use: \<open>t.queues\<close> is read again, without a lock. Taking the remainder by the length of an empty slice
  and indexing out of range both panic, and a panic of a goroutine ends the whole process.
\<close>

datatype 'a call = Ret 'a | Panic

definition tun_Write_with ::
  "(tunDevice \<times> tun_kernel \<Rightarrow> tunDevice \<times> tun_kernel) \<Rightarrow> bytes \<Rightarrow> tunDevice \<times> tun_kernel \<Rightarrow>
     tun_error option call \<times> tunDevice \<times> tun_kernel" where
  "tun_Write_with others p tk =
     (if t_queues (fst tk) = [] then (Ret (Some TunClosed), tk)
      else
        (let (t, k) = others tk; n = t_write t + 1; t = t\<lparr>t_write := n\<rparr>
         in if length (t_queues t) = 0 then (Panic, t, k)
            else
              (let q = t_queues t ! (unat (n - 1) mod length (t_queues t));
                   (err, k) = on_file q (file_write p) k
               in (Ret err, t, k))))"

definition ReadQueue_with ::
  "(tunDevice \<times> tun_kernel \<Rightarrow> tunDevice \<times> tun_kernel) \<Rightarrow> int \<Rightarrow> nat \<Rightarrow> tunDevice \<times> tun_kernel \<Rightarrow>
     (tun_error + bytes) call \<times> tunDevice \<times> tun_kernel" where
  "ReadQueue_with others index len tk =
     (if index < 0 \<or> index \<ge> int (length (t_queues (fst tk))) then (Ret (Inl (InvalidQueueIndex index)), tk)
      else
        (let (t, k) = others tk
         in if index \<ge> int (length (t_queues t)) then (Panic, t, k)
            else (let (r, k) = on_file (t_queues t ! nat index) (file_read len) k in (Ret r, t, k))))"

subsection \<open>Which files are open\<close>

definition open_files :: "tun_kernel \<Rightarrow> nat set" where
  "open_files k = {i. i < length (tk_files k) \<and> \<not> tf_closed (tk_files k ! i)}"

lemma close_file_open:
  "i < length (tk_files k) \<Longrightarrow> open_files (snd (close_file i k)) = open_files k - {i} \<and>
     length (tk_files (snd (close_file i k))) = length (tk_files k)"
  by (auto simp: close_file_def open_files_def nth_list_update)

lemma close_files_open:
  "\<forall>q\<in>set qs. q < length (tk_files k) \<Longrightarrow>
     open_files (close_files qs k) = open_files k - set qs \<and> length (tk_files (close_files qs k)) = length (tk_files k)"
proof (induction qs arbitrary: k)
  case (Cons q qs)
  then show ?case using close_file_open [of q k] Cons.IH [of "snd (close_file q k)"] by auto
qed simp

lemma open_files_snoc:
  "open_files (k\<lparr>tk_files := tk_files k @ [f]\<rparr>) = open_files k \<union> (if tf_closed f then {} else {length (tk_files k)})"
  by (auto simp: open_files_def nth_append less_Suc_eq)

lemma next_open_files: "tk_files (snd (next_open k)) = tk_files k" "open_files (snd (next_open k)) = open_files k"
  by (simp_all add: next_open_def open_files_def split: list.split)

lemma not_in_open_files: "length (tk_files k) \<notin> open_files k"
  by (simp add: open_files_def)

lemma openTunQueue_open:
  "openTunQueue name multi k = (Inr i, k') \<Longrightarrow>
     i = length (tk_files k) \<and> open_files k' = insert i (open_files k) \<and> length (tk_files k') = Suc i"
  "openTunQueue name multi k = (Inl e, k') \<Longrightarrow>
     open_files k' = open_files k \<and> length (tk_files k) \<le> length (tk_files k')"
proof -
  obtain o1 k1 where o: "next_open k = (o1, k1)" by (cases "next_open k")
  have k1: "tk_files k1 = tk_files k" "open_files k1 = open_files k"
    using next_open_files [of k] o by simp_all
  let ?f = "\<lparr>tf_req = make_ifreq name multi, tf_reads = oo_reads o1, tf_writes = oo_writes o1, tf_out = [], tf_closed = False\<rparr>"
  let ?k = "k1\<lparr>tk_files := tk_files k1 @ [?f]\<rparr>"
  have "open_files ?k = insert (length (tk_files k)) (open_files k)"
    using open_files_snoc [of k1 ?f] k1 by simp
  moreover have "open_files (snd (close_file (length (tk_files k)) ?k)) = open_files ?k - {length (tk_files k)}"
    "length (tk_files (snd (close_file (length (tk_files k)) ?k))) = Suc (length (tk_files k))"
    using close_file_open [of "length (tk_files k)" ?k] k1 by simp_all
  ultimately show "openTunQueue name multi k = (Inr i, k') \<Longrightarrow>
     i = length (tk_files k) \<and> open_files k' = insert i (open_files k) \<and> length (tk_files k') = Suc i"
    and "openTunQueue name multi k = (Inl e, k') \<Longrightarrow>
     open_files k' = open_files k \<and> length (tk_files k) \<le> length (tk_files k')"
    using o k1 not_in_open_files [of k]
    by (auto simp: openTunQueue_def Let_def split: option.splits if_splits)
qed

lemma open_queues_open:
  assumes "open_queues name multi count left files k = (r, k')"
    and "distinct files" "set files \<subseteq> open_files k"
  shows "(\<forall>fs. r = Inr fs \<longrightarrow> distinct fs \<and> length fs = length files + left \<and> set files \<subseteq> set fs \<and>
      open_files k' = open_files k \<union> set fs \<and> set fs - set files \<subseteq> - open_files k) \<and>
    (\<forall>e. r = Inl e \<longrightarrow> open_files k' = open_files k - set files)"
  using assms
proof (induction left arbitrary: files k)
  case 0
  then show ?case by auto
next
  case (Suc left)
  obtain q k1 where q: "openTunQueue name multi k = (q, k1)" by (cases "openTunQueue name multi k")
  show ?case
  proof (cases q)
    case (Inl e)
    then have r: "r = Inl (QueueFailed (int (length files) + 1) (int count) e)" "k' = close_files files k1"
      using Suc.prems(1) q by auto
    have "open_files k1 = open_files k" using openTunQueue_open(2) [of name multi k e k1] q Inl by simp
    moreover have "\<forall>q\<in>set files. q < length (tk_files k1)"
      using Suc.prems(3) calculation by (auto simp: open_files_def)
    ultimately show ?thesis using close_files_open [of files k1] r by simp
  next
    case (Inr i)
    have i: "i = length (tk_files k)" "open_files k1 = insert i (open_files k)"
      using openTunQueue_open(1) [of name multi k i k1] q Inr by simp_all
    then have ni: "i \<notin> open_files k" using not_in_open_files by simp
    then have d: "distinct (files @ [i])" "set (files @ [i]) \<subseteq> open_files k1"
      using Suc.prems(2,3) i(2) by auto
    have "open_queues name multi count left (files @ [i]) k1 = (r, k')"
      using Suc.prems(1) q Inr by simp
    from Suc.IH [OF this d] show ?thesis using i(2) ni Suc.prems(3) by auto
  qed
qed

lemma openTunWithQueues_open:
  assumes "openTunWithQueues name count k = (r, k')"
  shows "(\<forall>t. r = Inr t \<longrightarrow> distinct (t_queues t) \<and> length (t_queues t) = count \<and>
      open_files k' = open_files k \<union> set (t_queues t) \<and> open_files k \<inter> set (t_queues t) = {} \<and>
      t_write t = 0 \<and> t_name t = name) \<and>
    (\<forall>e. r = Inl e \<longrightarrow> open_files k' = open_files k)"
proof -
  obtain q k1 where q: "open_queues name (count > 1) count count [] k = (q, k1)"
    by (cases "open_queues name (count > 1) count count [] k")
  from open_queues_open [OF q] have s: "\<forall>fs. q = Inr fs \<longrightarrow> distinct fs \<and> length fs = count \<and>
      open_files k1 = open_files k \<union> set fs \<and> set fs \<subseteq> - open_files k" "\<forall>e. q = Inl e \<longrightarrow> open_files k1 = open_files k"
    by auto
  with assms q show ?thesis by (cases q) (auto simp: openTunWithQueues_def)
qed

text \<open>The invariant of a running device: its queues are distinct open files.\<close>

definition tun_ok :: "tunDevice \<times> tun_kernel \<Rightarrow> bool" where
  "tun_ok tk \<longleftrightarrow> distinct (t_queues (fst tk)) \<and> set (t_queues (fst tk)) \<subseteq> open_files (snd tk)"

lemma on_file_open:
  assumes "\<And>f. tf_closed (snd (op f)) = tf_closed f"
  shows "open_files (snd (on_file i op k)) = open_files k"
  by (auto simp: on_file_def open_files_def Let_def case_prod_beta)
    (use assms [of "tk_files k ! i"] in \<open>metis nth_list_update_eq nth_list_update_neq\<close>)+

lemma file_write_closed [simp]: "tf_closed (snd (file_write p f)) = tf_closed f"
  by (simp add: file_write_def split: list.split option.split)

lemma file_read_closed [simp]: "tf_closed (snd (file_read len f)) = tf_closed f"
  by (simp add: file_read_def split: list.split sum.split)

lemma tun_Write_ok: "tun_ok tk \<Longrightarrow> tun_ok (snd (tun_Write p tk))"
  by (cases tk) (simp add: tun_ok_def tun_Write_def Let_def case_prod_beta on_file_open)

lemma ReadQueue_ok: "tun_ok (t, k) \<Longrightarrow> tun_ok (t, snd (ReadQueue i len t k))"
  by (simp add: tun_ok_def ReadQueue_def on_file_open)

lemma close_queues_open:
  "\<forall>q\<in>set qs. q < length (tk_files k) \<Longrightarrow> open_files (snd (close_queues qs first k)) = open_files k - set qs"
proof (induction qs arbitrary: first k)
  case (Cons q qs)
  then show ?case
    using close_file_open [of q k] by (auto simp: Let_def case_prod_beta)
qed simp

text \<open>Opening the device leaks no file. If \<open>openTun\<close> fails, the kernel has the files open that it
  had before; if it succeeds, exactly the queues of the new device are open in addition, and there
  are as many as asked for, or one when the kernel refused multi-queue.\<close>

lemma openTun_open:
  "case openTun name queueCount k of
     (Inl e, k') \<Rightarrow> open_files k' = open_files k
   | (Inr t, k') \<Rightarrow>
       tun_ok (t, k') \<and> open_files k' = open_files k \<union> set (t_queues t) \<and> open_files k \<inter> set (t_queues t) = {} \<and>
       QueueCount t \<in> {max 1 queueCount, 1} \<and> t_name t = name"
proof -
  let ?c = "if queueCount < 1 then 1 else queueCount"
  obtain r k1 where r: "openTunWithQueues name (nat ?c) k = (r, k1)" by (cases "openTunWithQueues name (nat ?c) k")
  obtain r2 k2 where r2: "openTunWithQueues name 1 k1 = (r2, k2)" by (cases "openTunWithQueues name 1 k1")
  have c: "int (nat ?c) = max 1 queueCount" by auto
  show ?thesis
  proof (cases r)
    case (Inl e)
    then have k1: "open_files k1 = open_files k" using openTunWithQueues_open [OF r] by simp
    have "openTun name queueCount k = (if ?c = 1 then (Inl e, k1) else (r2, k2))"
      using r r2 Inl by (simp add: openTun_def Let_def)
    then show ?thesis
      using openTunWithQueues_open [OF r2] k1 by (cases r2) (auto simp: tun_ok_def QueueCount_def)
  next
    case (Inr t)
    then show ?thesis
      using openTunWithQueues_open [OF r] r c by (auto simp: openTun_def Let_def tun_ok_def QueueCount_def)
  qed
qed

subsection \<open>Properties\<close>

text \<open>No packet is lost or duplicated between the queues. On a running device a write goes to
  exactly one queue, which is in range also when the 32-bit counter wraps around; if it succeeds
  the packet is appended there and every other file is unchanged, and the next write takes the
  next queue in turn.\<close>

lemma tun_Write_one_queue:
  assumes "tun_ok (t, k)" "t_queues t \<noteq> []" "tun_Write p (t, k) = (err, t', k')"
  shows "\<exists>q \<in> set (t_queues t). q = t_queues t ! write_index t \<and>
    tf_out (tk_files k' ! q) = tf_out (tk_files k ! q) @ (if err = None then [p] else []) \<and>
    (\<forall>j. j \<noteq> q \<longrightarrow> tk_files k' ! j = tk_files k ! j) \<and>
    t_write t' = t_write t + 1 \<and> t_queues t' = t_queues t"
proof -
  let ?q = "t_queues t ! write_index t"
  have q: "?q \<in> set (t_queues t)" using assms(2) by (simp add: write_index_def)
  then have "?q < length (tk_files k)" "\<not> tf_closed (tk_files k ! ?q)"
    using assms(1) by (auto simp: tun_ok_def open_files_def)
  moreover have "tf_out (snd (file_write p f)) = tf_out f @ (if fst (file_write p f) = None then [p] else [])" for f
    by (simp add: file_write_def split: list.split option.split)
  ultimately show ?thesis
    using assms(2,3) q
    by (intro bexI [of _ ?q]) (auto simp: tun_Write_def Let_def case_prod_beta on_file_def write_index_def)
qed

definition demo_tun :: "tunDevice \<times> tun_kernel" where
  "demo_tun = (case openTun ''hsh0'' 2 \<lparr>tk_files = [], tk_opens = []\<rparr> of (Inr t, k) \<Rightarrow> (t\<lparr>t_write := - 1\<rparr>, k)
     | (Inl e, k) \<Rightarrow> (\<lparr>t_name = '''', t_queues = [], t_write = 0\<rparr>, k))"

lemma demo_tun_eq:
  "fst demo_tun = \<lparr>t_name = ''hsh0'', t_queues = [0, 1], t_write = - 1\<rparr>" "tun_ok demo_tun"
  by (simp_all add: demo_tun_def openTun_def openTunWithQueues_def numeral_2_eq_2 openTunQueue_def next_open_def Let_def
      tun_ok_def open_files_def less_Suc_eq)

lemma demo_tun_ok: "tun_ok (fst demo_tun, snd demo_tun)"
  using demo_tun_eq(2) by (simp only: prod.collapse)

text \<open>Closing the device closes every queue, so that blocked readers wake up, and later writes and
  reads fail without touching the kernel.\<close>

lemma tun_Close_final:
  assumes "tun_ok (t, k)" "tun_Close (t, k) = (err, t', k')"
  shows "open_files k' = open_files k - set (t_queues t) \<and>
    tun_Write p (t', k') = (Some TunClosed, t', k') \<and> ReadQueue i len t' k' = (Inl (InvalidQueueIndex i), k')"
proof -
  have "\<forall>q\<in>set (t_queues t). q < length (tk_files k)" using assms(1) by (auto simp: tun_ok_def open_files_def)
  from close_queues_open [OF this, of None] assms(2) show ?thesis
    by (auto simp: tun_Close_def tun_Write_def ReadQueue_def Let_def split: prod.splits)
qed

text \<open>Without interference the two descriptions of the operations agree.\<close>

lemma with_id:
  "tun_Write_with id p tk = (case tun_Write p tk of (err, t, k) \<Rightarrow> (Ret err, t, k))"
  "ReadQueue_with id i len tk = (case ReadQueue i len (fst tk) (snd tk) of (r, k) \<Rightarrow> (Ret r, fst tk, k))"
  by (cases tk; simp add: tun_Write_with_def tun_Write_def ReadQueue_with_def ReadQueue_def Let_def case_prod_beta)+

text \<open>C39: closing the device races with its users. A \<open>Close\<close> between the check and the use of the queues
  makes a concurrent write or read of a running device panic, which ends the process before \<open>run\<close> has
  cleaned up; operations that leave the queues alone never do that.\<close>

theorem tun_close_race:
  assumes "t_queues (fst tk) \<noteq> []" "0 \<le> i" "i < QueueCount (fst tk)"
  shows "fst (tun_Write_with (snd \<circ> tun_Close) p tk) = Panic \<and> fst (ReadQueue_with (snd \<circ> tun_Close) i len tk) = Panic \<and>
    (\<forall>others. t_queues (fst (others tk)) = t_queues (fst tk) \<longrightarrow>
       fst (tun_Write_with others p tk) \<noteq> Panic \<and> fst (ReadQueue_with others i len tk) \<noteq> Panic)"
  using assms
  by (auto simp: tun_Write_with_def ReadQueue_with_def tun_Close_def QueueCount_def Let_def case_prod_beta)

theorem tun_close_race_witness:
  "fst (tun_Write_with (snd \<circ> tun_Close) [0x45] demo_tun) = Panic"
  using tun_close_race [of demo_tun 0 "[0x45]"] by (simp add: demo_tun_eq QueueCount_def)

end
