(* ===== verification/Supervisor.thy ===== *)
theory Supervisor
  imports Handshake Config_Sound Tun_Device
begin

text \<open>
  The goroutines of a running node: the receive loop, the client and server supervisors with the
  client handshake (\<open>transport.go\<close>), the TUN send loop (\<open>main.go\<close>) and the statistics loop.

  A goroutine is a function of the sequence of its wake-ups. Each wake-up carries what the other
  goroutines did to the node while this one was blocked (a function on nodes), so a theorem about
  all wake-up sequences is a theorem about all interleavings at the blocking points. The result
  says whether the goroutine has returned: \<open>None\<close> is a goroutine that is still running after the
  given wake-ups.
\<close>

subsection \<open>Receive loop\<close>

definition recv_dispatch ::
  "'c packetCarrier \<Rightarrow> (bytes \<Rightarrow> 't \<Rightarrow> 't) \<Rightarrow> bytes \<Rightarrow> string \<Rightarrow> string \<Rightarrow> bytes \<Rightarrow> instant \<Rightarrow> bytes option \<Rightarrow>
     ('c, 't) node \<Rightarrow> ('c, 't) node" where
  "recv_dispatch ops tw key role peer b now rnd n =
     (if length b < 5 \<or> take 4 b \<noteq> bytes_of magic then n
      else if b ! 4 = msgHello then
        (if role = ''kharej'' then handleHello ops peer b key now rnd n else n)
      else if b ! 4 = msgHelloAck then
        (if role = ''iran'' then on_state (handleHelloAck peer b key now) n else n)
      else if b ! 4 = msgData \<or> b ! 4 = msgKeepalive \<or> b ! 4 = msgDirectProbeAck then
        handleEncrypted tw peer b now n
      else n)"

record ('c, 't) recv_event =
  re_others :: "('c, 't) node \<Rightarrow> ('c, 't) node"
  re_ctx_err :: bool
  re_now :: instant
  re_rnd :: "bytes option"

fun recvLoop ::
  "'c packetCarrier \<Rightarrow> (bytes \<Rightarrow> 't \<Rightarrow> 't) \<Rightarrow> bytes \<Rightarrow> string \<Rightarrow> ('c, 't) recv_event list \<Rightarrow>
     ('c, 't) node \<Rightarrow> unit option \<times> ('c, 't) node" where
  "recvLoop ops tw key role [] n = (None, n)"
| "recvLoop ops tw key role (e # es) n =
     (let n = re_others e n
      in case ReadPacket ops maxCarrierFrame (n_carrier n) of
           (Inl err, c) \<Rightarrow>
             (let n = n\<lparr>n_carrier := c\<rparr>
              in if re_ctx_err e then (Some (), n) else recvLoop ops tw key role es n)
         | (Inr (b, peer), c) \<Rightarrow>
             recvLoop ops tw key role es
               (recv_dispatch ops tw key role peer b (re_now e) (re_rnd e) (n\<lparr>n_carrier := c\<rparr>)))"

subsection \<open>Client handshake\<close>

datatype handshake_error =
    PeerNotConfigured
  | RandFailed
  | WriteFailed carrier_error
  | DeadlineExceeded

datatype select_event = CtxIsDone | Retry | Poll

text \<open>The test at the head of the loop: a session created after \<open>started - 1s\<close>.\<close>

definition has_fresh_session :: "instant \<Rightarrow> tunnelState \<Rightarrow> bool" where
  "has_fresh_session started st =
     (case loadSession st of
        None \<Rightarrow> False
      | Some i \<Rightarrow> (case heap st i of
                     None \<Rightarrow> False
                   | Some ss \<Rightarrow> time_after (s_created ss) (time_add started (- second))))"

fun handshake_loop ::
  "'c packetCarrier \<Rightarrow> string \<Rightarrow> bytes \<Rightarrow> instant \<Rightarrow> ((('c, 't) node \<Rightarrow> ('c, 't) node) \<times> select_event) list \<Rightarrow>
     ('c, 't) node \<Rightarrow> handshake_error option option \<times> ('c, 't) node" where
  "handshake_loop ops peer hello started [] n =
     (if has_fresh_session started (n_st n) then (Some None, n) else (None, n))"
| "handshake_loop ops peer hello started ((others, e) # es) n =
     (if has_fresh_session started (n_st n) then (Some None, n)
      else
        (let n = others n
         in case e of
              CtxIsDone \<Rightarrow> (Some (Some DeadlineExceeded), n)
            | Retry \<Rightarrow>
                (case write_packet ops hello peer n of
                   (Some err, n) \<Rightarrow> (Some (Some (WriteFailed err)), n)
                 | (None, n) \<Rightarrow> handshake_loop ops peer hello started es n)
            | Poll \<Rightarrow> handshake_loop ops peer hello started es n))"

text \<open>The deferred function: the nonce is disarmed when the call returns.\<close>

definition disarm :: "bytes \<Rightarrow> tunnelState \<Rightarrow> tunnelState" where
  "disarm cn st = (if pending st = cn then st\<lparr>pendingSet := False\<rparr> else st)"

definition on_return :: "bytes \<Rightarrow> 'r option \<times> ('c, 't) node \<Rightarrow> 'r option \<times> ('c, 't) node" where
  "on_return cn r = (case r of (None, n) \<Rightarrow> (None, n) | (Some x, n) \<Rightarrow> (Some x, on_state (disarm cn) n))"

definition handshakeClient ::
  "'c packetCarrier \<Rightarrow> string \<Rightarrow> bytes \<Rightarrow> bytes option \<Rightarrow> instant \<Rightarrow> instant \<Rightarrow>
     ((('c, 't) node \<Rightarrow> ('c, 't) node) \<times> select_event) list \<Rightarrow> ('c, 't) node \<Rightarrow>
     handshake_error option option \<times> ('c, 't) node" where
  "handshakeClient ops peer key rnd now started es n =
     (if peer = '''' then (Some (Some PeerNotConfigured), n)
      else case rnd of
        None \<Rightarrow> (Some (Some RandFailed), n)
      | Some cn \<Rightarrow>
          (let hello = makeHello key cn now;
               n = on_state (\<lambda>st. st\<lparr>pending := cn, pendingSet := True\<rparr>) n
           in on_return cn
                (case write_packet ops hello peer n of
                   (Some err, n) \<Rightarrow> (Some (Some (WriteFailed err)), n)
                 | (None, n) \<Rightarrow> handshake_loop ops peer hello started es n)))"

subsection \<open>Supervisors\<close>

definition session_timeout :: "Config \<Rightarrow> duration" where
  "session_timeout c = seconds (SessionTimeoutSeconds (c_Transport c))"

definition needHandshake :: "Config \<Rightarrow> instant \<Rightarrow> tunnelState \<Rightarrow> bool" where
  "needHandshake c now st =
     (case loadSession st of
        None \<Rightarrow> True
      | Some i \<Rightarrow>
          (case heap st i of
             None \<Rightarrow> True
           | Some ss \<Rightarrow> idle now ss > session_timeout c \<or> age now ss > minutes (RekeyMinutes (c_Transport c))))"

definition send_keepalive :: "'c packetCarrier \<Rightarrow> ('c, 't) node \<Rightarrow> ('c, 't) node" where
  "send_keepalive ops n =
     (case loadSession (n_st n) of
        None \<Rightarrow> n
      | Some i \<Rightarrow> snd (sendEncrypted ops i msgKeepalive [] n))"

record ('c, 't) client_round =
  cr_now :: instant
  cr_rnd :: "bytes option"
  cr_hello_at :: instant
  cr_started :: instant
  cr_selects :: "((('c, 't) node \<Rightarrow> ('c, 't) node) \<times> select_event) list"
  cr_others :: "('c, 't) node \<Rightarrow> ('c, 't) node"
  cr_done :: bool

fun clientSupervisor ::
  "'c packetCarrier \<Rightarrow> bytes \<Rightarrow> Config \<Rightarrow> ('c, 't) client_round list \<Rightarrow> ('c, 't) node \<Rightarrow> unit option \<times> ('c, 't) node" where
  "clientSupervisor ops key c [] n = (None, n)"
| "clientSupervisor ops key c (r # rs) n =
     (let (res, n) =
        (if needHandshake c (cr_now r) (n_st n) then
           handshakeClient ops (DefaultPeer ops (n_carrier n)) key (cr_rnd r) (cr_hello_at r) (cr_started r) (cr_selects r) n
         else (Some None, n))
      in if res = None then (None, n)
         else
           (let n = cr_others r n
            in if cr_done r then (Some (), n)
               else clientSupervisor ops key c rs (send_keepalive ops n)))"

definition server_tick :: "'c packetCarrier \<Rightarrow> Config \<Rightarrow> instant \<Rightarrow> ('c, 't) node \<Rightarrow> ('c, 't) node" where
  "server_tick ops c now n =
     (case loadSession (n_st n) of
        None \<Rightarrow> n
      | Some i \<Rightarrow>
          (case heap (n_st n) i of
             None \<Rightarrow> n
           | Some ss \<Rightarrow>
               if idle now ss > session_timeout c then on_state (\<lambda>st. snd (clearIf i st)) n
               else snd (sendEncrypted ops i msgKeepalive [] n)))"

fun serverSupervisor ::
  "'c packetCarrier \<Rightarrow> Config \<Rightarrow> ((('c, 't) node \<Rightarrow> ('c, 't) node) \<times> instant option) list \<Rightarrow>
     ('c, 't) node \<Rightarrow> unit option \<times> ('c, 't) node" where
  "serverSupervisor ops c [] n = (None, n)"
| "serverSupervisor ops c ((others, None) # es) n = (Some (), others n)"
| "serverSupervisor ops c ((others, Some now) # es) n = serverSupervisor ops c es (server_tick ops c now (others n))"

subsection \<open>TUN send loop\<close>

definition tun_send_step :: "'c packetCarrier \<Rightarrow> bytes \<Rightarrow> ('c, 't) node \<Rightarrow> ('c, 't) node" where
  "tun_send_step ops p n =
     (case loadSession (n_st n) of
        None \<Rightarrow> on_state (update_metrics (\<lambda>m. m\<lparr>noSessionDrops := noSessionDrops m + 1\<rparr>)) n
      | Some i \<Rightarrow> snd (sendEncrypted ops i msgData p n))"

text \<open>A wake-up of the loop: \<open>te_read\<close> is what \<open>ReadQueue\<close> returns.\<close>

record ('c, 't) tun_event =
  te_others :: "('c, 't) node \<Rightarrow> ('c, 't) node"
  te_read :: "tun_error + bytes"
  te_ctx_err :: bool

fun tunSendLoop ::
  "'c packetCarrier \<Rightarrow> int \<Rightarrow> ('c, 't) tun_event list \<Rightarrow> ('c, 't) node \<Rightarrow> tun_error option option \<times> ('c, 't) node" where
  "tunSendLoop ops queue [] n = (None, n)"
| "tunSendLoop ops queue (e # es) n =
     (let n = te_others e n
      in case te_read e of
           Inl err \<Rightarrow>
             if te_ctx_err e then (Some None, n)
             else (Some (Some (TunQueueRead queue err)), on_state (update_metrics (\<lambda>m. m\<lparr>tunReadErrors := tunReadErrors m + 1\<rparr>)) n)
         | Inr p \<Rightarrow> tunSendLoop ops queue es (tun_send_step ops p n))"

subsection \<open>Statistics\<close>

text \<open>\<open>strconv.ParseUint(s, 10, 64)\<close> with its error ignored: 0 for a syntax error, the maximum when
  the value is out of range.\<close>

definition ParseUint :: "string \<Rightarrow> u64" where
  "ParseUint s =
     (if s = [] \<or> \<not> list_all is_digit s then 0
      else if digits_val s \<ge> 2 ^ 64 then - 1 else word_of_int (digits_val s))"

definition readInterfaceCounter :: "unicode \<Rightarrow> (string \<Rightarrow> string option) \<Rightarrow> string \<Rightarrow> string \<Rightarrow> u64" where
  "readInterfaceCounter u readFile name stat =
     (case readFile (''/sys/class/net/'' @ name @ ''/statistics/'' @ stat) of
        None \<Rightarrow> 0
      | Some b \<Rightarrow> ParseUint (TrimSpace u b))"

text \<open>\<open>Duration.Round(time.Millisecond)\<close>: half a millisecond is rounded away from zero.\<close>

definition Round_ms :: "duration \<Rightarrow> duration" where
  "Round_ms d =
     (let m = 1000000; r = \<bar>d\<bar> mod m
      in if d < 0 then
           (if r + r < m then d + r else (let d1 = wrap64 (d - m + r) in if d1 < d then d1 else - (2 ^ 63)))
         else
           (if r + r < m then d - r else (let d1 = wrap64 (d + m - r) in if d1 > d then d1 else 2 ^ 63 - 1)))"

text \<open>The values of a line of statistics; \<open>sl_dtx\<close> and \<open>sl_drx\<close> are the bytes since the previous line, from
  which the logged rates are computed in floating point. Peer and idle time are absent without a
  session.\<close>

record stats_line =
  sl_role :: string
  sl_mode :: string
  sl_session :: "(string \<times> duration) option"
  sl_tx :: "u64 \<times> u64"
  sl_rx :: "u64 \<times> u64"
  sl_dtx :: u64
  sl_drx :: u64
  sl_ctrl :: "u64 \<times> u64"
  sl_drops :: "u64 \<times> u64"
  sl_errors :: "u64 list"

definition stats_tick ::
  "Config \<Rightarrow> (string \<Rightarrow> string \<Rightarrow> u64) \<Rightarrow> instant \<Rightarrow> tunnelState \<Rightarrow> u64 \<times> u64 \<Rightarrow> stats_line \<times> (u64 \<times> u64)" where
  "stats_tick c counter now st prev =
     (let m = st_metrics st; tx = dataTxBytes m; rx = dataRxBytes m
      in (\<lparr>sl_role = Role c, sl_mode = Mode c,
           sl_session = (case loadSession st of
               None \<Rightarrow> None
             | Some i \<Rightarrow> map_option (\<lambda>s. (s_peer s, Round_ms (idle now s))) (heap st i)),
           sl_tx = (tx, dataTxPackets m), sl_rx = (rx, dataRxPackets m), sl_dtx = tx - fst prev, sl_drx = rx - snd prev,
           sl_ctrl = (controlTxPkts m, controlRxPkts m),
           sl_drops = (counter (Name (Tun c)) ''tx_dropped'', counter (Name (Tun c)) ''rx_dropped''),
           sl_errors = [sendErrors m, decryptErrors m, replayDrops m, noSessionDrops m]\<rparr>,
          (tx, rx)))"

text \<open>A wake-up is a tick with the state at that moment, or \<open>None\<close> for the end of the context. The
  counters of the interface are read with \<open>readInterfaceCounter\<close>.\<close>

record stats_event =
  se_now :: instant
  se_state :: tunnelState
  se_file :: "string \<Rightarrow> string option"

fun statsLoop :: "unicode \<Rightarrow> Config \<Rightarrow> stats_event option list \<Rightarrow> u64 \<times> u64 \<Rightarrow> unit option \<times> stats_line list" where
  "statsLoop u c [] prev = (None, [])"
| "statsLoop u c (None # es) prev = (Some (), [])"
| "statsLoop u c (Some e # es) prev =
     (let (line, prev) = stats_tick c (readInterfaceCounter u (se_file e)) (se_now e) (se_state e) prev;
          (r, lines) = statsLoop u c es prev
      in (r, line # lines))"

end
