(* ===== verification/Supervision.thy ===== *)
theory Supervision
  imports Supervisor
begin

text \<open>
  Properties of the goroutines of \<open>Supervisor\<close>: who may replace the session, what the client
  handshake leaves behind, that an acknowledged handshake reconnects the client, and when the
  server gives a session up.
\<close>

subsection \<open>Well-formed states are kept\<close>

lemma recv_dispatch_wf:
  "wf_state (n_st n) \<Longrightarrow> wf_state (n_st (recv_dispatch ops tw key role peer b now rnd n))"
  by (simp add: recv_dispatch_def handleHello_wf handleHelloAck_wf handleEncrypted_wf)

lemma send_keepalive_wf: "wf_state (n_st n) \<Longrightarrow> wf_state (n_st (send_keepalive ops n))"
  by (simp add: send_keepalive_def sendEncrypted_wf split: option.split)

lemma server_tick_wf: "wf_state (n_st n) \<Longrightarrow> wf_state (n_st (server_tick ops c now n))"
  by (simp add: server_tick_def sendEncrypted_wf wf_clearIf split: option.split)

lemma tun_send_step_wf: "wf_state (n_st n) \<Longrightarrow> wf_state (n_st (tun_send_step ops p n))"
  by (simp add: tun_send_step_def sendEncrypted_wf split: option.split)

lemma disarm_wf: "wf_state st \<Longrightarrow> wf_state (disarm cn st)"
  by (simp add: disarm_def)

lemma handshake_loop_wf:
  "wf_state (n_st n) \<Longrightarrow> \<forall>fe\<in>set es. \<forall>m. wf_state (n_st m) \<longrightarrow> wf_state (n_st (fst fe m)) \<Longrightarrow>
     wf_state (n_st (snd (handshake_loop ops peer hello started es n)))"
proof (induction es arbitrary: n)
  case (Cons fe es)
  obtain f e where fe: "fe = (f, e)" by (cases fe)
  obtain err m where w: "write_packet ops hello peer (f n) = (err, m)" by (cases "write_packet ops hello peer (f n)")
  then have "n_st m = n_st (f n)"
    using write_packet_keeps(1) [of ops hello peer "f n"] by simp
  with w Cons show ?case
    by (cases err) (simp_all add: fe Let_def split: select_event.split)
qed simp

subsection \<open>The session pointer\<close>

lemma sendEncrypted_session [simp]: "st_session (n_st (snd (sendEncrypted ops i typ pl n))) = st_session (n_st n)"
  by (cases "heap (n_st n) i")
    (simp_all add: sendEncrypted_eq Let_def case_prod_beta update_session_def, simp add: sendEncrypted_def)

lemma handleEncrypted_session [simp]: "st_session (n_st (handleEncrypted tw peer p now n)) = st_session (n_st n)"
proof (cases "receives n peer p")
  case None
  from handleEncrypted_drop [OF this, of tw now] show ?thesis by (auto simp: update_metrics_def)
next
  case (Some r)
  then show ?thesis
    by (cases r) (auto simp: handleEncrypted_receive Let_def update_metrics_def update_session_def
        notifyProbeAck_def split: option.split)
qed

lemma handleHello_session:
  "st_session (n_st (handleHello ops peer p key now rnd n)) \<noteq> st_session (n_st n) \<Longrightarrow> hello_valid key p now"
  using handleHello_invalid by metis

lemma handleHelloAck_session:
  "st_session (handleHelloAck peer p key now st) \<noteq> st_session st \<Longrightarrow>
     helloAck_valid key p \<and> pendingSet st \<and> pending st = gslice 5 37 p"
  using handleHelloAck_ignored by metis

subsection \<open>The client handshake\<close>

lemma disarm_disarms: "\<not> (pendingSet (disarm cn st) \<and> pending (disarm cn st) = cn)"
  by (simp add: disarm_def)

lemma handshake_loop_fresh:
  "has_fresh_session started (n_st n) \<Longrightarrow> handshake_loop ops peer hello started es n = (Some None, n)"
  by (cases es rule: list.exhaust) (auto split: prod.splits)

text \<open>The state of a client after the acknowledgement of its own hello.\<close>

definition after_ack :: "string \<Rightarrow> bytes \<Rightarrow> bytes \<Rightarrow> bytes \<Rightarrow> instant \<Rightarrow> tunnelState \<Rightarrow> tunnelState" where
  "after_ack peer key cn sn now st =
     (let (i, st) = new_session (fresh_session key cn sn peer True now) (st\<lparr>pendingSet := False\<rparr>)
      in storeSession (Some i) st)"

lemma after_ack_simps:
  "st_session (after_ack peer key cn sn now st) = Some (next_sid st)"
  "heap (after_ack peer key cn sn now st) (next_sid st) = Some ((fresh_session key cn sn peer True now)\<lparr>s_metrics := True\<rparr>)"
  "pendingSet (after_ack peer key cn sn now st) = False" "pending (after_ack peer key cn sn now st) = pending st"
  by (simp_all add: after_ack_def state_ops)

lemma recv_ack:
  assumes "length cn = 32" "length sn = 32" "pendingSet (n_st n)" "pending (n_st n) = cn"
  shows "recv_dispatch ops tw key ''iran'' peer (makeHelloAck key cn sn) now rnd n
    = on_state (after_ack peer key cn sn now) n"
proof -
  have v: "helloAck_valid key (makeHelloAck key cn sn)" by (rule helloAck_valid_make [OF assms(1,2)])
  have h: "handleHelloAck peer (makeHelloAck key cn sn) key now (n_st n) = after_ack peer key cn sn now (n_st n)"
    using handleHelloAck_accepted [OF v assms(3)] assms by (simp add: after_ack_def)
  have m: "take 4 (makeHelloAck key cn sn) = bytes_of magic" "makeHelloAck key cn sn ! 4 = msgHelloAck"
    "5 \<le> length (makeHelloAck key cn sn)"
    by (simp_all add: makeHelloAck_def Let_def nth_append)
  then show ?thesis
    using h by (simp add: recv_dispatch_def msg_defs)
qed

lemma handshakeClient_acked:
  assumes "peer \<noteq> ''''" "length cn = 32" "length sn = 32" "\<not> has_fresh_session started (n_st n)"
    and "mono started - second < mono t2"
    and w: "WritePacket ops (makeHello key cn now) peer (n_carrier n) = (None, car)"
  shows "handshakeClient ops peer key (Some cn) now started
      [(recv_dispatch ops tw key ''iran'' from (makeHelloAck key cn sn) t2 rnd, Poll)] n
    = (Some None, n\<lparr>n_carrier := car, n_st := after_ack from key cn sn t2 ((n_st n)\<lparr>pending := cn, pendingSet := True\<rparr>)\<rparr>)"
proof -
  let ?st = "(n_st n)\<lparr>pending := cn, pendingSet := True\<rparr>"
  let ?n = "n\<lparr>n_st := ?st, n_carrier := car\<rparr>"
  have wr: "write_packet ops (makeHello key cn now) peer (n\<lparr>n_st := ?st\<rparr>) = (None, ?n)"
    using w by (simp add: write_packet_def)
  have old: "\<not> has_fresh_session started ?st"
    using assms(4) by (simp add: has_fresh_session_def loadSession_def split: option.splits)
  have new: "has_fresh_session started (after_ack from key cn sn t2 ?st)"
    using assms(5) by (simp add: has_fresh_session_def loadSession_def after_ack_simps(1))
      (use after_ack_simps(2) [of "from" key cn sn t2 ?st] in \<open>simp add: time_after_def\<close>)
  have "disarm cn (after_ack from key cn sn t2 ?st) = after_ack from key cn sn t2 ?st"
    by (simp add: disarm_def after_ack_simps)
  then show ?thesis
    using assms(1) old new recv_ack [OF assms(2,3), of ?n ops tw key "from" t2 rnd]
    by (simp add: handshakeClient_def wr on_return_def)
qed

lemma heap_unique_next: "wf_state st \<Longrightarrow> heap st (next_sid st) = None"
  by (cases "heap st (next_sid st)") (auto simp: wf_state_def)

subsection \<open>Properties\<close>

text \<open>C21: the session of a node is only replaced by an authenticated handshake message of its own
  role. When a received packet changes the session pointer, the node is a server and the packet is
  a hello with a valid MAC and timestamp, or it is a client and the packet is an acknowledgement
  with a valid MAC of the nonce it is waiting for.\<close>

theorem session_change_authenticated:
  assumes "st_session (n_st (recv_dispatch ops tw key role peer b now rnd n)) \<noteq> st_session (n_st n)"
  shows "role = ''kharej'' \<and> take 4 b = bytes_of magic \<and> b ! 4 = msgHello \<and> hello_valid key b now \<or>
    role = ''iran'' \<and> take 4 b = bytes_of magic \<and> b ! 4 = msgHelloAck \<and> helloAck_valid key b \<and>
      pendingSet (n_st n) \<and> pending (n_st n) = gslice 5 37 b"
  using assms handleHello_session [of ops peer b key now rnd n] handleHelloAck_session [of peer b key now "n_st n"]
  by (simp add: recv_dispatch_def split: if_splits)

theorem session_change_authenticated_witness:
  "hello_valid [1] (makeHello [1] demo_cn demo_now) demo_now"
proof -
  have "take 4 (makeHello [1] demo_cn demo_now) = bytes_of magic" "makeHello [1] demo_cn demo_now ! 4 = msgHello"
    "5 \<le> length (makeHello [1] demo_cn demo_now)"
    by (simp_all add: makeHello_def Let_def nth_append)
  then have "st_session (n_st (recv_dispatch capture_ops tun_log [1] ''kharej'' ''a'' (makeHello [1] demo_cn demo_now)
      demo_now (Some demo_sn) demo_server)) = Some 0"
    using handleHello_new_empty [OF demo_hello_valid, of demo_server capture_ops "''a''" "[1]" demo_sn]
    by (simp add: recv_dispatch_def)
  then show ?thesis
    using session_change_authenticated [of capture_ops tun_log "[1]" "''kharej''" "''a''" "makeHello [1] demo_cn demo_now"
        demo_now "Some demo_sn" demo_server]
    by (simp add: demo_server_def init_state_def)
qed

text \<open>A handshake attempt leaves no nonce behind: once \<open>handshakeClient\<close> has returned, for whatever
  reason and whatever the other goroutines did meanwhile, an acknowledgement of its nonce no longer
  establishes a session.\<close>

lemma handshakeClient_disarms:
  assumes "peer \<noteq> ''''" "length cn = 32" "length sn = 32"
    and "handshakeClient ops peer key (Some cn) now started es n = (Some r, n')"
  shows "\<not> (pendingSet (n_st n') \<and> pending (n_st n') = cn) \<and>
    handleHelloAck peer' (makeHelloAck key cn sn) key now' (n_st n') = n_st n'"
proof
  show p: "\<not> (pendingSet (n_st n') \<and> pending (n_st n') = cn)"
    using assms(1,4) disarm_disarms
    by (auto simp: handshakeClient_def on_return_def Let_def split: option.splits prod.splits)
  with assms(2,3) show "handleHelloAck peer' (makeHelloAck key cn sn) key now' (n_st n') = n_st n'"
    by (intro handleHelloAck_ignored) auto
qed

text \<open>C22: an acknowledged handshake reconnects the client. When the supervisor finds that it needs a
  handshake and the acknowledgement of its hello is received while it waits, the supervisor ends
  the round with the new session installed under the two derived keys, the nonce disarmed, and a
  keepalive, the first packet of that session, handed to the carrier.\<close>

theorem clientSupervisor_reconnects:
  assumes need: "needHandshake c (cr_now r) (n_st n)" "\<not> has_fresh_session (cr_started r) (n_st n)"
    and peer: "DefaultPeer ops (n_carrier n) = peer" "peer \<noteq> ''''"
    and nonces: "cr_rnd r = Some cn" "length cn = 32" "length sn = 32"
    and sent: "WritePacket ops (makeHello key cn (cr_hello_at r)) peer (n_carrier n) = (None, car)"
    and acked: "cr_selects r = [(recv_dispatch ops tw key ''iran'' from (makeHelloAck key cn sn) t2 rnd, Poll)]"
      "mono (cr_started r) - second < mono t2"
    and round: "cr_others r = id" "\<not> cr_done r"
  shows "\<exists>i s n'. clientSupervisor ops key c [r] n = (None, n') \<and>
    st_session (n_st n') = Some i \<and> heap (n_st n') i = Some s \<and> \<not> pendingSet (n_st n') \<and>
    txAEAD s = AES_GCM (derive key cn sn ''c2s'') \<and> rxAEAD s = AES_GCM (derive key cn sn ''s2c'') \<and>
    s_peer s = from \<and> s_tx s = 1 \<and>
    n_carrier n' = snd (WritePacket ops (packet_of (txAEAD s) msgKeepalive 1 []) from car)"
proof -
  define st where "st = after_ack from key cn sn t2 ((n_st n)\<lparr>pending := cn, pendingSet := True\<rparr>)"
  define n1 where "n1 = n\<lparr>n_carrier := car, n_st := st\<rparr>"
  let ?s = "(fresh_session key cn sn from True t2)\<lparr>s_metrics := True\<rparr>" and ?i = "next_sid (n_st n)"
  have h: "handshakeClient ops peer key (Some cn) (cr_hello_at r) (cr_started r) (cr_selects r) n = (Some None, n1)"
    using handshakeClient_acked [OF peer(2) nonces(2,3) need(2) acked(2) sent]
    by (simp add: acked(1) n1_def st_def)
  have st: "st_session st = Some ?i" "heap st ?i = Some ?s" "\<not> pendingSet st"
    using after_ack_simps [of "from" key cn sn t2 "(n_st n)\<lparr>pending := cn, pendingSet := True\<rparr>"] by (simp_all add: st_def)
  have run: "clientSupervisor ops key c [r] n = (None, send_keepalive ops n1)"
    using need(1) peer(1) h nonces(1) round by simp
  have k: "send_keepalive ops n1 = snd (sendEncrypted ops ?i msgKeepalive [] n1)"
    using st by (simp add: send_keepalive_def loadSession_def n1_def)
  have heap: "heap (n_st n1) ?i = Some ?s" by (simp add: n1_def st)
  have fs: "s_tx ?s = 0" "txAEAD ?s = AES_GCM (derive key cn sn ''c2s'')"
    "rxAEAD ?s = AES_GCM (derive key cn sn ''s2c'')" "s_peer ?s = from"
    by (simp_all add: fresh_session_def)
  let ?n = "send_keepalive ops n1"
  obtain err where e: "n_st ?n = account_send ?i msgKeepalive 0 err (update_session ?i tx_session st)"
    "n_carrier ?n = snd (WritePacket ops (packet_of (txAEAD ?s) msgKeepalive 1 []) from car)"
    unfolding k sendEncrypted_eq [OF heap] using fs by (simp add: Let_def case_prod_beta n1_def)
  have pend: "\<not> pendingSet (n_st ?n)"
    using st(3) by (simp add: e(1) account_send_def state_ops Let_def split: option.splits)
  have cur: "st_session (n_st ?n) = Some ?i"
    using st(1) by (simp add: e(1) update_session_def)
  obtain s' where "heap (n_st ?n) ?i = Some s'" "txAEAD s' = txAEAD ?s" "rxAEAD s' = rxAEAD ?s"
    "s_peer s' = s_peer ?s" "s_tx s' = 1"
    using st(2) fs(1) by (cases "err = None") (auto simp: e(1) account_send_heap update_session_def tx_session_def)
  with run cur pend fs e(2) show ?thesis by (intro exI [of _ ?i] exI [of _ s'] exI [of _ ?n]) simp
qed

definition demo_round :: "((bytes \<times> string) list, bytes list) client_round" where
  "demo_round = \<lparr>cr_now = demo_now, cr_rnd = Some demo_cn, cr_hello_at = demo_now, cr_started = demo_now,
     cr_selects = [(recv_dispatch capture_ops tun_log [1] ''iran'' ''b'' (makeHelloAck [1] demo_cn demo_sn) demo_now None, Poll)],
     cr_others = id, cr_done = False\<rparr>"

lemma demo_round_simps:
  "needHandshake (demo_config ''udp'' 25) (cr_now demo_round) (n_st demo_server)"
  "\<not> has_fresh_session (cr_started demo_round) (n_st demo_server)"
  "DefaultPeer capture_ops (n_carrier demo_server) = ''peer''"
  "cr_rnd demo_round = Some demo_cn" "cr_others demo_round = id" "\<not> cr_done demo_round"
  "mono (cr_started demo_round) - second < mono demo_now"
  "cr_selects demo_round
     = [(recv_dispatch capture_ops tun_log [1] ''iran'' ''b'' (makeHelloAck [1] demo_cn demo_sn) demo_now None, Poll)]"
  by (simp_all add: needHandshake_def has_fresh_session_def loadSession_def demo_server_def init_state_def
      demo_round_def capture_ops_def second_def)

theorem clientSupervisor_reconnects_witness:
  "\<exists>(s :: session) n'. clientSupervisor capture_ops [1] (demo_config ''udp'' 25) [demo_round] demo_server = (None, n') \<and>
     s_peer s = ''b'' \<and> last (n_carrier n') = (packet_of (txAEAD s) msgKeepalive 1 [], ''b'')"
proof -
  note d = demo_round_simps
  have w: "WritePacket capture_ops (makeHello [1] demo_cn (cr_hello_at demo_round)) ''peer'' (n_carrier demo_server)
      = (None, [(makeHello [1] demo_cn (cr_hello_at demo_round), ''peer'')])"
    by simp
  obtain s :: session and n' where "clientSupervisor capture_ops [1] (demo_config ''udp'' 25) [demo_round] demo_server = (None, n')"
    "s_peer s = ''b''"
    "n_carrier n' = snd (WritePacket capture_ops (packet_of (txAEAD s) msgKeepalive 1 []) ''b''
       [(makeHello [1] demo_cn (cr_hello_at demo_round), ''peer'')])"
    using clientSupervisor_reconnects [OF d(1,2,3) list.distinct(2) d(4) demo_handshake_simps(1,2) w d(8,7,5,6)] by blast
  then show ?thesis by auto
qed

text \<open>The server gives up exactly the idle sessions. On a tick, a session that has been idle for
  longer than the timeout is no longer current afterwards and nothing is sent; otherwise the
  session stays current and a keepalive under its next counter is handed to the carrier.\<close>

lemma server_tick_correct:
  assumes "st_session (n_st n) = Some i" "heap (n_st n) i = Some s"
  shows "(session_timeout c < idle now s \<longrightarrow>
      st_session (n_st (server_tick ops c now n)) = None \<and> n_carrier (server_tick ops c now n) = n_carrier n) \<and>
    (idle now s \<le> session_timeout c \<longrightarrow>
      st_session (n_st (server_tick ops c now n)) = Some i \<and>
      n_carrier (server_tick ops c now n)
        = snd (WritePacket ops (packet_of (txAEAD s) msgKeepalive (s_tx s + 1) []) (s_peer s) (n_carrier n)))"
  using assms
  by (auto simp: server_tick_def loadSession_def clearIf_def sendEncrypted_eq Let_def case_prod_beta update_session_def)



text \<open>The statistics lose nothing: the byte counts reported by successive turns of the statistics
  loop add up, in 64-bit arithmetic, to the growth of the counters since the reference values.\<close>

lemma statsLoop_telescopes:
  "es \<noteq> [] \<Longrightarrow>
     sum_list (map sl_dtx (snd (statsLoop u c (map Some es) prev))) = dataTxBytes (st_metrics (se_state (last es))) - fst prev \<and>
     sum_list (map sl_drx (snd (statsLoop u c (map Some es) prev))) = dataRxBytes (st_metrics (se_state (last es))) - snd prev"
proof (induction es arbitrary: prev)
  case (Cons e es)
  then show ?case by (cases es) (simp_all add: stats_tick_def Let_def case_prod_beta)
qed simp

end
