(* ===== verification/UDP_Carrier.thy ===== *)
theory UDP_Carrier
  imports Transport Config
begin

text \<open>
  The UDP carrier (\<open>carrier_udp.go\<close>) and the creation of marked sockets (\<open>carrier.go\<close>).

  The kernel's side of a UDP socket is the record \<open>udp_conn\<close>: the outcomes of the reads and writes
  to come, in order, and a log of the datagrams sent. A read with no outcome left reports the
  closed socket, which is how the program ends its blocked readers. \<open>sync.Map\<close> is a map: each of
  its operations is atomic.
\<close>

subsection \<open>Marked sockets\<close>

text \<open>How the kernel answers the creation of a socket: access to the descriptor (\<open>RawConn.Control\<close>),
  the socket option \<open>SO_MARK\<close>, and the listen, bind or connect itself.\<close>

record socket_outcome =
  so_control :: "carrier_error option"
  so_setsockopt :: "carrier_error option"
  so_listen :: "carrier_error option"

definition SO_MARK :: int where "SO_MARK = 36"

definition socketMarkControl :: "socket_outcome \<Rightarrow> (int \<Rightarrow> int option) \<Rightarrow> carrier_error + (int \<Rightarrow> int option)" where
  "socketMarkControl out opts =
     (case so_control out of
        Some e \<Rightarrow> Inl e
      | None \<Rightarrow>
          (case so_setsockopt out of
             Some e \<Rightarrow> Inl e
           | None \<Rightarrow> Inr (opts(SO_MARK := Some transportMark))))"

record udp_conn =
  uc_opts :: "int \<Rightarrow> int option"
  uc_local :: string
  uc_rcvbuf :: int
  uc_sndbuf :: int
  uc_reads :: "(carrier_error + bytes \<times> net_addr) list"
  uc_writes :: "carrier_error option list"
  uc_out :: "(bytes \<times> net_addr) list"
  uc_closed :: bool

definition listenMarkedPacket ::
  "socket_outcome \<Rightarrow> (carrier_error + bytes \<times> net_addr) list \<Rightarrow> carrier_error option list \<Rightarrow> string \<Rightarrow>
     carrier_error + udp_conn" where
  "listenMarkedPacket out reads writes address =
     (case socketMarkControl out (\<lambda>_. None) of
        Inl e \<Rightarrow> Inl e
      | Inr opts \<Rightarrow>
          (case so_listen out of
             Some e \<Rightarrow> Inl e
           | None \<Rightarrow> Inr \<lparr>uc_opts = opts, uc_local = address, uc_rcvbuf = 0, uc_sndbuf = 0, uc_reads = reads,
                        uc_writes = writes, uc_out = [], uc_closed = False\<rparr>))"

subsection \<open>The socket\<close>

definition ReadFromUDP :: "nat \<Rightarrow> udp_conn \<Rightarrow> (carrier_error + bytes \<times> net_addr) \<times> udp_conn" where
  "ReadFromUDP len u =
     (if uc_closed u then (Inl ErrClosedPipe, u)
      else case uc_reads u of
        [] \<Rightarrow> (Inl ErrClosedPipe, u)
      | Inl e # rs \<Rightarrow> (Inl e, u\<lparr>uc_reads := rs\<rparr>)
      | Inr (p, a) # rs \<Rightarrow> (Inr (take len p, a), u\<lparr>uc_reads := rs\<rparr>))"

definition WriteToUDP :: "bytes \<Rightarrow> net_addr \<Rightarrow> udp_conn \<Rightarrow> carrier_error option \<times> udp_conn" where
  "WriteToUDP p a u =
     (if uc_closed u then (Some ErrClosedPipe, u)
      else case uc_writes u of
        Some e # ws \<Rightarrow> (Some e, u\<lparr>uc_writes := ws\<rparr>)
      | ws \<Rightarrow> (None, u\<lparr>uc_writes := tl ws, uc_out := uc_out u @ [(p, a)]\<rparr>))"

definition CloseUDP :: "udp_conn \<Rightarrow> carrier_error option \<times> udp_conn" where
  "CloseUDP u = (if uc_closed u then (Some ErrClosedPipe, u) else (None, u\<lparr>uc_closed := True\<rparr>))"

subsection \<open>The carrier\<close>

record udpCarrier =
  u_conn :: udp_conn
  u_defaultPeer :: string
  u_defaultAddr :: "net_addr option"
  u_peers :: "string \<rightharpoonup> net_addr"

text \<open>A creation that fails comes with the socket that was opened before, if any.\<close>

type_synonym create_error = "carrier_error \<times> udp_conn option"

definition newUDPCarrier :: "resolver \<Rightarrow> Config \<Rightarrow> carrier_error + udp_conn \<Rightarrow> create_error + udpCarrier" where
  "newUDPCarrier res c listened =
     (case listened of
        Inl e \<Rightarrow> Inl (e, None)
      | Inr u \<Rightarrow>
          (let u = u\<lparr>uc_rcvbuf := SocketBuffer (c_Performance c), uc_sndbuf := SocketBuffer (c_Performance c)\<rparr>;
               uc = \<lparr>u_conn = u, u_defaultPeer = '''', u_defaultAddr = None, u_peers = Map.empty\<rparr>
           in if Role c = ''iran'' then
                (case ResolveUDPAddr res (Peer (c_Transport c)) of
                   None \<Rightarrow> Inl (NetError ''resolve UDP peer'', Some (snd (CloseUDP u)))
                 | Some peer \<Rightarrow>
                     Inr (uc\<lparr>u_defaultPeer := addr_string peer, u_defaultAddr := Some peer,
                            u_peers := [addr_string peer \<mapsto> peer]\<rparr>))
              else Inr uc))"

definition udp_ReadPacket :: "nat \<Rightarrow> udpCarrier \<Rightarrow> (carrier_error + bytes \<times> string) \<times> udpCarrier" where
  "udp_ReadPacket len u =
     (case ReadFromUDP len (u_conn u) of
        (Inl e, conn) \<Rightarrow> (Inl e, u\<lparr>u_conn := conn\<rparr>)
      | (Inr (p, peer), conn) \<Rightarrow>
          (let peerID = addr_string peer
           in (Inr (p, peerID), u\<lparr>u_conn := conn, u_peers := (u_peers u)(peerID \<mapsto> peer)\<rparr>)))"

definition udp_WritePacket :: "resolver \<Rightarrow> bytes \<Rightarrow> string \<Rightarrow> udpCarrier \<Rightarrow> carrier_error option \<times> udpCarrier" where
  "udp_WritePacket res p peer u =
     (let peer = (if peer = '''' then u_defaultPeer u else peer)
      in if peer = '''' then (Some PeerNotKnown, u)
         else
           (let (found, u) =
              (if peer = u_defaultPeer u \<and> u_defaultAddr u \<noteq> None then (u_defaultAddr u, u)
               else case u_peers u peer of
                 Some cached \<Rightarrow> (Some cached, u)
               | None \<Rightarrow>
                   (case ResolveUDPAddr res peer of
                      None \<Rightarrow> (None, u)
                    | Some a \<Rightarrow> (Some a, u\<lparr>u_peers := (u_peers u)(peer \<mapsto> a)\<rparr>)))
            in case found of
                 None \<Rightarrow> (Some (NetError ''resolve''), u)
               | Some addr \<Rightarrow>
                   (let (err, conn) = WriteToUDP p addr (u_conn u) in (err, u\<lparr>u_conn := conn\<rparr>))))"

definition udp_Close :: "udpCarrier \<Rightarrow> carrier_error option \<times> udpCarrier" where
  "udp_Close u = (let (err, conn) = CloseUDP (u_conn u) in (err, u\<lparr>u_conn := conn\<rparr>))"

definition udp_ops :: "resolver \<Rightarrow> udpCarrier packetCarrier" where
  "udp_ops res =
     \<lparr>ReadPacket = udp_ReadPacket, WritePacket = udp_WritePacket res, DefaultPeer = u_defaultPeer,
      CarrierName = (\<lambda>_. ''udp''), CloseCarrier = udp_Close\<rparr>"

subsection \<open>The carrier contract\<close>

definition udp_sent :: "udpCarrier \<Rightarrow> bytes list" where
  "udp_sent u = map fst (uc_out (u_conn u))"

lemma WriteToUDP_out:
  "uc_out (snd (WriteToUDP p a u)) = (if fst (WriteToUDP p a u) = None then uc_out u @ [(p, a)] else uc_out u)"
  by (auto simp: WriteToUDP_def split: list.splits option.splits)

text \<open>The address a write goes to.\<close>

definition target :: "resolver \<Rightarrow> string \<Rightarrow> udpCarrier \<Rightarrow> net_addr option" where
  "target res peer u =
     (let peer = (if peer = '''' then u_defaultPeer u else peer)
      in if peer = '''' then None
         else if peer = u_defaultPeer u \<and> u_defaultAddr u \<noteq> None then u_defaultAddr u
         else case u_peers u peer of Some a \<Rightarrow> Some a | None \<Rightarrow> ResolveUDPAddr res peer)"

lemma udp_WritePacket_target:
  "target res peer u = None \<Longrightarrow> fst (udp_WritePacket res p peer u) \<noteq> None \<and> u_conn (snd (udp_WritePacket res p peer u)) = u_conn u"
  "target res peer u = Some a \<Longrightarrow> fst (udp_WritePacket res p peer u) = fst (WriteToUDP p a (u_conn u)) \<and>
     u_conn (snd (udp_WritePacket res p peer u)) = snd (WriteToUDP p a (u_conn u))"
  by (auto simp: udp_WritePacket_def target_def Let_def case_prod_beta split: if_splits option.splits)

lemma udp_WritePacket_default: "u_defaultPeer (snd (udp_WritePacket res p peer u)) = u_defaultPeer u"
  "u_defaultAddr (snd (udp_WritePacket res p peer u)) = u_defaultAddr u"
  by (auto simp: udp_WritePacket_def Let_def case_prod_beta split: option.splits)

lemma udp_WritePacket_sent:
  "uc_out (u_conn (snd (udp_WritePacket res p peer u))) =
     (if fst (udp_WritePacket res p peer u) = None then uc_out (u_conn u) @ [(p, the (target res peer u))]
      else uc_out (u_conn u))"
  using udp_WritePacket_target(1) [of res peer u p]  udp_WritePacket_target(2) [of res peer u _ p]
  by (cases "target res peer u") (auto simp: WriteToUDP_out)

lemma udp_sent_write:
  "udp_WritePacket res p peer u = (e, u') \<Longrightarrow> udp_sent u' = (if e = None then udp_sent u @ [p] else udp_sent u)"
  using udp_WritePacket_sent [of res p peer u] by (auto simp: udp_sent_def)

interpretation udp: packet_carrier "udp_ops res" "\<lambda>_. True" udp_sent for res
  by unfold_locales (auto simp: udp_ops_def udp_WritePacket_default dest: udp_sent_write)

subsection \<open>The peer cache\<close>

text \<open>The cache only holds what the resolver would answer, and the kernel delivers datagrams with
  valid IPv4 source addresses.\<close>

definition cache_ok :: "resolver \<Rightarrow> udpCarrier \<Rightarrow> bool" where
  "cache_ok res u \<longleftrightarrow>
     (\<forall>k a. u_peers u k = Some a \<longrightarrow> ResolveUDPAddr res k = Some a) \<and>
     (\<forall>a. u_defaultAddr u = Some a \<longrightarrow> ResolveUDPAddr res (u_defaultPeer u) = Some a) \<and>
     (\<forall>p a. Inr (p, a) \<in> set (uc_reads (u_conn u)) \<longrightarrow> valid_addr a)"

lemma ReadFromUDP_reads:
  "set (uc_reads (snd (ReadFromUDP len u))) \<subseteq> set (uc_reads u)"
  "ReadFromUDP len u = (Inr (p, a), u') \<Longrightarrow> \<exists>d. Inr (d, a) \<in> set (uc_reads u) \<and> p = take len d"
  by (auto simp: ReadFromUDP_def split: list.splits sum.splits if_splits)

lemma cache_ok_read: "cache_ok res u \<Longrightarrow> cache_ok res (snd (udp_ReadPacket len u))"
  using ReadFromUDP_reads [of len "u_conn u"]
  by (fastforce simp: udp_ReadPacket_def cache_ok_def Let_def ResolveUDPAddr_valid split: prod.split sum.split)

lemma WriteToUDP_reads [simp]: "uc_reads (snd (WriteToUDP p a u)) = uc_reads u"
  by (simp add: WriteToUDP_def split: list.split option.split)

lemma cache_ok_write: "cache_ok res u \<Longrightarrow> cache_ok res (snd (udp_WritePacket res p peer u))"
  by (auto simp: udp_WritePacket_def cache_ok_def Let_def case_prod_beta split: option.split)

lemma cache_ok_new:
  assumes "newUDPCarrier res c listened = Inr u"
    and "\<And>conn p a. listened = Inr conn \<Longrightarrow> Inr (p, a) \<in> set (uc_reads conn) \<Longrightarrow> valid_addr a"
    and "\<And>a. ResolveUDPAddr res (Peer (c_Transport c)) = Some a \<Longrightarrow> valid_addr a"
  shows "cache_ok res u"
  using assms
  by (auto simp: newUDPCarrier_def cache_ok_def Let_def ResolveUDPAddr_valid split: sum.splits if_splits option.splits)

text \<open>The reference: a carrier without cache that resolves the peer of every packet.\<close>

definition udp_write_uncached :: "resolver \<Rightarrow> bytes \<Rightarrow> string \<Rightarrow> udp_conn \<Rightarrow> string \<Rightarrow> carrier_error option \<times> udp_conn" where
  "udp_write_uncached res p peer conn dflt =
     (let peer = (if peer = '''' then dflt else peer)
      in if peer = '''' then (Some PeerNotKnown, conn)
         else case ResolveUDPAddr res peer of
           None \<Rightarrow> (Some (NetError ''resolve''), conn)
         | Some a \<Rightarrow> WriteToUDP p a conn)"

subsection \<open>Properties\<close>


definition demo_udp :: "string \<Rightarrow> udpCarrier" where
  "demo_udp msg = \<lparr>u_conn = \<lparr>uc_opts = (\<lambda>_. None), uc_local = ''0.0.0.0:9000'', uc_rcvbuf = 0, uc_sndbuf = 0,
      uc_reads = [Inr (bytes_of msg, (Some [192, 0, 2, 7], 9000))], uc_writes = [], uc_out = [], uc_closed = False\<rparr>,
     u_defaultPeer = '''', u_defaultAddr = None, u_peers = Map.empty\<rparr>"

definition no_resolver :: resolver where
  "no_resolver = \<lparr>dns_lookup = (\<lambda>_. None), service_port = (\<lambda>_ _. None)\<rparr>"

lemma demo_udp_ok: "cache_ok no_resolver (demo_udp msg)"
  by (simp add: cache_ok_def demo_udp_def valid_addr_def octets_def)


text \<open>A reply goes back to where the packet came from: after a datagram has been read, a
  successful write to the peer identity that the read returned sends to the exact source address
  of that datagram, whatever was read and written in between.\<close>

lemma udp_reply_to_sender:
  assumes "cache_ok res u" "ReadFromUDP len (u_conn u) = (Inr (p, a), conn)"
    and "udp_ReadPacket len u = (Inr (p, peer), u1)" "cache_ok res u2"
    and "udp_WritePacket res q peer u2 = (None, u3)"
  shows "uc_out (u_conn u3) = uc_out (u_conn u2) @ [(q, a)]"
proof -
  have peer: "peer = addr_string a" using assms(2,3) by (simp add: udp_ReadPacket_def Let_def)
  have "valid_addr a"
    using ReadFromUDP_reads(2) [OF assms(2)] assms(1) unfolding cache_ok_def by blast
  then have "ResolveUDPAddr res peer = Some a" by (simp add: peer ResolveUDPAddr_valid)
  then have "target res peer u2 = Some a"
    using assms(4) by (auto simp: target_def cache_ok_def peer Let_def split: option.splits)
  with udp_WritePacket_sent [of res q peer u2] assms(5) show ?thesis by simp
qed

end
