(* ===== verification/Stream_Carrier.thy ===== *)
theory Stream_Carrier
  imports Carrier
begin

text \<open>
  The stream carrier (\<open>carrier.go\<close>), which the TCP and KCP carriers share: length-prefixed frames
  over one connection that is opened on demand and replaced after an error.

  A connection (\<open>sconn\<close>) is the kernel's or the KCP library's side of a \<open>net.Conn\<close>: the bytes that
  will arrive before it breaks, the outcomes of the writes to come, and the bytes written so far.
  A write outcome \<open>(k, None)\<close> accepts up to \<open>k\<close> bytes; \<open>(k, Some e)\<close> stops early with an error, after
  fewer bytes than it was given, as \<open>io.Writer\<close> promises. With no outcome left every write is
  complete. Connections are numbered in the order in which they were opened; \<open>s_arrivals\<close> holds the
  outcomes of the accepts or dials to come, and \<open>s_ctx\<close> the answers of \<open>ctx.Err() != nil\<close>.
\<close>

datatype conn_kind = TCPConn | UDPSession | OtherConn

record sconn =
  sc_kind :: conn_kind
  sc_opts :: "string \<rightharpoonup> int"
  sc_in :: bytes
  sc_writes :: "(nat \<times> carrier_error option) list"
  sc_out :: bytes
  sc_closed :: bool

definition ReadFull :: "nat \<Rightarrow> sconn \<Rightarrow> (carrier_error + bytes) \<times> sconn" where
  "ReadFull n c =
     (if sc_closed c then (Inl ErrClosedPipe, c)
      else if n \<le> length (sc_in c) then (Inr (take n (sc_in c)), c\<lparr>sc_in := drop n (sc_in c)\<rparr>)
      else (Inl ErrUnexpectedEOF, c\<lparr>sc_in := []\<rparr>))"

definition conn_Write :: "bytes \<Rightarrow> sconn \<Rightarrow> (nat \<times> carrier_error option) \<times> sconn" where
  "conn_Write p c =
     (if sc_closed c then ((0, Some ErrClosedPipe), c)
      else case sc_writes c of
        [] \<Rightarrow> ((length p, None), c\<lparr>sc_out := sc_out c @ p\<rparr>)
      | (k, err) # ws \<Rightarrow>
          (let n = (if err = None then min k (length p) else min k (length p - 1))
           in ((n, err), c\<lparr>sc_writes := ws, sc_out := sc_out c @ take n p\<rparr>)))"

definition conn_Close :: "sconn \<Rightarrow> carrier_error option \<times> sconn" where
  "conn_Close c = (if sc_closed c then (Some ErrClosedPipe, c) else (None, c\<lparr>sc_closed := True\<rparr>))"

function writeAll :: "bytes \<Rightarrow> sconn \<Rightarrow> carrier_error option \<times> sconn" where
  "writeAll p c =
     (if p = [] then (None, c)
      else
        (case conn_Write p c of
           ((n, Some err), c) \<Rightarrow> (Some err, c)
         | ((n, None), c) \<Rightarrow> if n = 0 then (Some ErrUnexpectedEOF, c) else writeAll (drop n p) c))"
  by pat_completeness auto
termination
  by (relation "measure (length \<circ> fst)") auto

declare writeAll.simps [simp del]

subsection \<open>The carrier\<close>

record streamCarrier =
  s_name :: string
  s_ctx :: "bool list"
  s_listener :: "bool option" \<comment> \<open>whether there is a listener, and whether it is open\<close>
  s_dial :: "(sconn \<Rightarrow> sconn) option" \<comment> \<open>what the dialer does to a new connection\<close>
  s_tune :: "sconn \<Rightarrow> sconn"
  s_arrivals :: "(carrier_error + sconn) list"
  s_conns :: "sconn list"
  s_conn :: "nat option"
  s_closed :: bool
  s_defaultID :: string

definition ctx_err :: "streamCarrier \<Rightarrow> bool \<times> streamCarrier" where
  "ctx_err s = (case s_ctx s of [] \<Rightarrow> (True, s) | b # bs \<Rightarrow> (b, s\<lparr>s_ctx := bs\<rparr>))"

definition arrive :: "streamCarrier \<Rightarrow> (carrier_error + sconn) \<times> streamCarrier" where
  "arrive s = (case s_arrivals s of [] \<Rightarrow> (Inl ErrClosedPipe, s) | a # as \<Rightarrow> (a, s\<lparr>s_arrivals := as\<rparr>))"

text \<open>\<open>listener.Accept()\<close> when there is a listener, \<open>dial(ctx)\<close> otherwise.\<close>

definition open_conn :: "streamCarrier \<Rightarrow> (carrier_error + sconn) \<times> streamCarrier" where
  "open_conn s =
     (case s_listener s of
        Some True \<Rightarrow> arrive s
      | Some False \<Rightarrow> (Inl ErrClosedPipe, s)
      | None \<Rightarrow>
          (case s_dial s of
             None \<Rightarrow> (Inl NeitherListenerNorDialer, s)
           | Some d \<Rightarrow> (case arrive s of (Inl e, s) \<Rightarrow> (Inl e, s) | (Inr c, s) \<Rightarrow> (Inr (d c), s))))"

text \<open>
  \<open>ensureConn\<close> looks for a connection twice, the second time holding \<open>connectMu\<close>. \<open>o1\<close> is what other
  goroutines do between the two looks, \<open>o2\<close> what they do while the accept or dial blocks.
\<close>

definition current_conn :: "streamCarrier \<Rightarrow> (carrier_error + nat) option" where
  "current_conn s = (if s_closed s then Some (Inl ErrClosedPipe) else map_option Inr (s_conn s))"

definition ensureConn_with ::
  "(streamCarrier \<Rightarrow> streamCarrier) \<Rightarrow> (streamCarrier \<Rightarrow> streamCarrier) \<Rightarrow> streamCarrier \<Rightarrow>
     (carrier_error + nat) \<times> streamCarrier" where
  "ensureConn_with o1 o2 s =
     (case current_conn s of
        Some r \<Rightarrow> (r, s)
      | None \<Rightarrow>
          (let s = o1 s
           in case current_conn s of
                Some r \<Rightarrow> (r, s)
              | None \<Rightarrow>
                  (case open_conn s of
                     (Inl e, s) \<Rightarrow> (Inl e, s)
                   | (Inr conn, s) \<Rightarrow>
                       (let conn = s_tune s conn; s = o2 s; i = length (s_conns s)
                        in if s_closed s then
                             (Inl ErrClosedPipe, s\<lparr>s_conns := s_conns s @ [snd (conn_Close conn)]\<rparr>)
                           else (Inr i, s\<lparr>s_conns := s_conns s @ [conn], s_conn := Some i\<rparr>)))))"

abbreviation ensureConn :: "streamCarrier \<Rightarrow> (carrier_error + nat) \<times> streamCarrier" where
  "ensureConn \<equiv> ensureConn_with id id"

definition resetConn :: "nat \<Rightarrow> streamCarrier \<Rightarrow> streamCarrier" where
  "resetConn i s =
     (if s_conn s = Some i
      then s\<lparr>s_conns := (s_conns s)[i := snd (conn_Close (s_conns s ! i))], s_conn := None\<rparr> else s)"

definition on_conn :: "nat \<Rightarrow> (sconn \<Rightarrow> 'r \<times> sconn) \<Rightarrow> streamCarrier \<Rightarrow> 'r \<times> streamCarrier" where
  "on_conn i f s = (let (r, c) = f (s_conns s ! i) in (r, s\<lparr>s_conns := (s_conns s)[i := c]\<rparr>))"

text \<open>One turn of the loop of \<open>ReadPacket\<close>: \<open>None\<close> to go round again.\<close>

definition read_turn :: "nat \<Rightarrow> streamCarrier \<Rightarrow> (carrier_error + bytes \<times> string) option \<times> streamCarrier" where
  "read_turn len s =
     (case ensureConn s of
        (Inl e, s) \<Rightarrow> (let (b, s) = ctx_err s in (if b then Some (Inl ContextErr) else None, s))
      | (Inr i, s) \<Rightarrow>
          (case on_conn i (ReadFull 4) s of
             (Inl e, s) \<Rightarrow>
               (let s = resetConn i s; (b, s) = ctx_err s in (if b then Some (Inl ContextErr) else None, s))
           | (Inr hdr, s) \<Rightarrow>
               (let n = unat (get32 hdr)
                in if n \<le> 0 \<or> n > maxCarrierFrame \<or> n > len then
                     (Some (Inl (FrameLengthInvalid n)), resetConn i s)
                   else
                     (case on_conn i (ReadFull n) s of
                        (Inl e, s) \<Rightarrow> (None, resetConn i s)
                      | (Inr p, s) \<Rightarrow> (Some (Inr (p, s_defaultID s)), s)))))"

definition read_measure :: "streamCarrier \<Rightarrow> nat" where
  "read_measure s = length (s_ctx s) + 2 * length (s_arrivals s) + (if s_conn s = None then 0 else 1)"

lemma ctx_err_measure: "\<not> fst (ctx_err s) \<Longrightarrow> read_measure (snd (ctx_err s)) < read_measure s"
  by (auto simp: ctx_err_def read_measure_def split: list.splits)

lemma resetConn_measure: "read_measure (resetConn i s) \<le> read_measure s"
  by (simp add: resetConn_def read_measure_def)

lemma resetConn_current: "s_conn s = Some i \<Longrightarrow> read_measure (resetConn i s) < read_measure s"
  by (simp add: resetConn_def read_measure_def)

lemma on_conn_fields [simp]:
  "s_conn (snd (on_conn i f s)) = s_conn s" "read_measure (snd (on_conn i f s)) = read_measure s"
  "s_closed (snd (on_conn i f s)) = s_closed s" "s_defaultID (snd (on_conn i f s)) = s_defaultID s"
  "s_listener (snd (on_conn i f s)) = s_listener s"
  "s_conns (snd (on_conn i f s)) = (s_conns s)[i := snd (f (s_conns s ! i))]"
  "fst (on_conn i f s) = fst (f (s_conns s ! i))"
  by (simp_all add: on_conn_def read_measure_def Let_def case_prod_beta)

lemma ensureConn_measure:
  "read_measure (snd (ensureConn s)) \<le> read_measure s"
  "fst (ensureConn s) = Inr i \<Longrightarrow> s_conn (snd (ensureConn s)) = Some i"
  by (auto simp: ensureConn_with_def current_conn_def open_conn_def arrive_def read_measure_def Let_def
      split: option.splits sum.splits prod.splits list.splits if_splits bool.splits)

lemma read_turn_measure:
  assumes "read_turn len s = (None, s')"
  shows "read_measure s' < read_measure s"
proof -
  let ?s = "snd (ensureConn s)"
  have e: "read_measure ?s \<le> read_measure s" by (rule ensureConn_measure)
  show ?thesis
  proof (cases "fst (ensureConn s)")
    case (Inl err)
    with assms have "\<not> fst (ctx_err ?s)" "s' = snd (ctx_err ?s)"
      by (auto simp: read_turn_def case_prod_beta split: if_splits)
    with ctx_err_measure [of ?s] e show ?thesis by simp
  next
    case (Inr i)
    then have c: "s_conn ?s = Some i" by (rule ensureConn_measure)
    let ?t = "snd (on_conn i (ReadFull 4) ?s)"
    show ?thesis
    proof (cases "fst (on_conn i (ReadFull 4) ?s)")
      case (Inl err)
      with assms Inr have "\<not> fst (ctx_err (resetConn i ?t))" "s' = snd (ctx_err (resetConn i ?t))"
        by (auto simp: read_turn_def case_prod_beta Let_def split: if_splits)
      with ctx_err_measure [of "resetConn i ?t"] resetConn_measure [of i ?t] e show ?thesis by simp
    next
      case (Inr hdr)
      with assms \<open>fst (ensureConn s) = Inr i\<close>
      have "s' = resetConn i (snd (on_conn i (ReadFull (unat (get32 hdr))) ?t))"
        by (auto simp: read_turn_def case_prod_beta Let_def split: if_splits sum.splits)
      with resetConn_current [of "snd (on_conn i (ReadFull (unat (get32 hdr))) ?t)" i] c e show ?thesis by simp
    qed
  qed
qed

function stream_ReadPacket :: "nat \<Rightarrow> streamCarrier \<Rightarrow> (carrier_error + bytes \<times> string) \<times> streamCarrier" where
  "stream_ReadPacket len s =
     (case read_turn len s of
        (Some r, s) \<Rightarrow> (r, s)
      | (None, s) \<Rightarrow> stream_ReadPacket len s)"
  by pat_completeness auto
termination
  by (relation "measure (read_measure \<circ> snd)") (auto dest!: sym [of "(None, _)"] read_turn_measure)

declare stream_ReadPacket.simps [simp del]

text \<open>\<open>attempts\<close> counts down from 2.\<close>

fun write_attempts :: "nat \<Rightarrow> bytes \<Rightarrow> streamCarrier \<Rightarrow> carrier_error option \<times> streamCarrier" where
  "write_attempts 0 p s = (Some WriteFailedAfterReconnect, s)"
| "write_attempts (Suc attempts) p s =
     (case ensureConn s of
        (Inl e, s) \<Rightarrow> (Some e, s)
      | (Inr i, s) \<Rightarrow>
          (case on_conn i (writeAll (put32 (word_of_nat (length p)))) s of
             (Some e, s) \<Rightarrow> write_attempts attempts p (resetConn i s)
           | (None, s) \<Rightarrow>
               (case on_conn i (writeAll p) s of
                  (Some e, s) \<Rightarrow> write_attempts attempts p (resetConn i s)
                | (None, s) \<Rightarrow> (None, s))))"

definition stream_WritePacket :: "bytes \<Rightarrow> string \<Rightarrow> streamCarrier \<Rightarrow> carrier_error option \<times> streamCarrier" where
  "stream_WritePacket p peer s =
     (if p = [] \<or> length p > maxCarrierFrame then (Some (FrameLengthInvalid (length p)), s)
      else write_attempts 2 p s)"

definition stream_Close :: "streamCarrier \<Rightarrow> carrier_error option \<times> streamCarrier" where
  "stream_Close s =
     (let s = s\<lparr>s_closed := True\<rparr>;
          (err, s) = (case s_conn s of
             None \<Rightarrow> (None, s)
           | Some i \<Rightarrow> (let (err, s) = on_conn i conn_Close s in (err, s\<lparr>s_conn := None\<rparr>)));
          (err, s) = (case s_listener s of
             None \<Rightarrow> (err, s)
           | Some open \<Rightarrow>
               (let e = (if open then None else Some ErrClosedPipe)
                in (if err = None then e else err, s\<lparr>s_listener := Some False\<rparr>)))
      in (err, s))"

definition stream_ops :: "streamCarrier packetCarrier" where
  "stream_ops =
     \<lparr>ReadPacket = stream_ReadPacket, WritePacket = stream_WritePacket, DefaultPeer = s_defaultID,
      CarrierName = s_name, CloseCarrier = stream_Close\<rparr>"

end
