(* ===== verification/Framing.thy ===== *)
theory Framing
  imports Stream_Carrier
begin

text \<open>
  Correctness of the stream carrier: what a writer puts on a connection is the sequence of frames of
  its packets, also when writes are partial or a connection breaks, and a reader of those bytes gets
  the packets back in order. \<open>deframe\<close> is the abstract reader: the complete frames at the start of a
  byte stream, and the rest.
\<close>

definition frame :: "bytes \<Rightarrow> bytes" where
  "frame p = put32 (word_of_nat (length p)) @ p"

definition valid_frame :: "bytes \<Rightarrow> bool" where
  "valid_frame p \<longleftrightarrow> p \<noteq> [] \<and> length p \<le> maxCarrierFrame"

function deframe :: "bytes \<Rightarrow> bytes list \<times> bytes" where
  "deframe bs =
     (if length bs < 4 then ([], bs)
      else
        (let n = unat (get32 (take 4 bs)); rest = drop 4 bs
         in if n \<le> 0 \<or> n > maxCarrierFrame \<or> length rest < n then ([], bs)
            else (let (ps, r) = deframe (drop n rest) in (take n rest # ps, r))))"
  by pat_completeness auto
termination
  by (relation "measure length") auto

declare deframe.simps [simp del]

lemma length_frame [simp]: "length (frame p) = 4 + length p"
  by (simp add: frame_def)

lemma frame_header:
  assumes "valid_frame p"
  shows "unat (get32 (take 4 (frame p @ bs))) = length p"
proof -
  have "length p < 2 ^ 32" using assms by (simp add: valid_frame_def maxCarrierFrame_def)
  then have "unat (word_of_nat (length p) :: u32) = length p"
    by (simp add: unsigned_of_nat take_bit_nat_eq_self)
  then show ?thesis by (simp add: frame_def)
qed

lemma deframe_Nil [simp]: "deframe [] = ([], [])"
  by (simp add: deframe.simps)

lemma deframe_frame:
  assumes "valid_frame p"
  shows "deframe (frame p @ bs) = (p # fst (deframe bs), snd (deframe bs))"
proof -
  have "drop 4 (frame p @ bs) = p @ bs" by (simp add: frame_def)
  then show ?thesis
    using assms frame_header [OF assms, of bs]
    by (subst deframe.simps) (simp add: Let_def case_prod_beta valid_frame_def)
qed

lemma deframe_append:
  assumes "snd (deframe as) = []"
  shows "deframe (as @ bs) = (fst (deframe as) @ fst (deframe bs), snd (deframe bs))"
  using assms
proof (induction as rule: deframe.induct)
  case (1 as)
  show ?case
  proof (cases "as = []")
    case False
    let ?n = "unat (get32 (take 4 as))"
    have ok: "\<not> length as < 4" "\<not> (?n \<le> 0 \<or> ?n > maxCarrierFrame \<or> length (drop 4 as) < ?n)"
      using False 1(2) by (auto simp: deframe.simps [of as] Let_def split: if_splits)
    have as: "deframe as = (take ?n (drop 4 as) # fst (deframe (drop ?n (drop 4 as))), snd (deframe (drop ?n (drop 4 as))))"
      using ok by (subst deframe.simps) (simp add: Let_def case_prod_beta)
    have "deframe (drop ?n (drop 4 as) @ bs)
      = (fst (deframe (drop ?n (drop 4 as))) @ fst (deframe bs), snd (deframe bs))"
      using ok 1(2) as by (intro 1(1)) auto
    moreover have "take 4 (as @ bs) = take 4 as" "drop 4 (as @ bs) = drop 4 as @ bs"
      "take ?n (drop 4 as @ bs) = take ?n (drop 4 as)" "drop ?n (drop 4 as @ bs) = drop ?n (drop 4 as) @ bs"
      using ok by simp_all
    moreover have "\<not> length (drop 4 as @ bs) < ?n" "\<not> length (as @ bs) < 4" using ok by (simp, linarith, simp)
    ultimately show ?thesis
      using ok as by (subst deframe.simps) (simp add: Let_def case_prod_beta del: length_append length_drop drop_drop)
  qed simp
qed

lemma deframe_partial:
  assumes "valid_frame p" "k < length (frame p)"
  shows "deframe (take k (frame p)) = ([], take k (frame p))"
proof (cases "k < 4")
  case True
  then show ?thesis by (subst deframe.simps) simp
next
  case False
  then have "take 4 (take k (frame p)) = take 4 (frame p @ [])" by simp
  with frame_header [OF assms(1), of "[]"] have "unat (get32 (take 4 (take k (frame p)))) = length p" by simp
  moreover have "k - 4 < length p" using False assms(2) by simp
  ultimately show ?thesis using False assms(2) by (subst deframe.simps) (simp add: Let_def)
qed

lemma deframe_frames: "list_all valid_frame ps \<Longrightarrow> deframe (concat (map frame ps)) = (ps, [])"
  by (induction ps) (simp_all add: deframe_frame)

subsection \<open>Writing\<close>

lemma conn_Write_spec:
  assumes "p \<noteq> []"
  shows "\<exists>k. snd (conn_Write p c) = c\<lparr>sc_out := sc_out c @ take k p, sc_writes := sc_writes (snd (conn_Write p c))\<rparr> \<and>
    fst (fst (conn_Write p c)) = k \<and> k \<le> length p \<and> (snd (fst (conn_Write p c)) \<noteq> None \<longrightarrow> k < length p)"
  using assms by (cases p) (auto simp: conn_Write_def Let_def min_def split: list.splits)

lemma writeAll_spec:
  "\<exists>k ws. snd (writeAll p c) = c\<lparr>sc_out := sc_out c @ take k p, sc_writes := ws\<rparr> \<and> k \<le> length p \<and>
     (fst (writeAll p c) = None \<longrightarrow> k = length p) \<and> (fst (writeAll p c) \<noteq> None \<longrightarrow> k < length p)"
proof (induction p c rule: writeAll.induct)
  case (1 p c)
  show ?case
  proof (cases "p = []")
    case True
    have "snd (writeAll p c) = c\<lparr>sc_out := sc_out c @ take 0 p, sc_writes := sc_writes c\<rparr>"
      using True by (simp add: writeAll.simps)
    then show ?thesis using True by (intro exI [of _ 0] exI [of _ "sc_writes c"]) (simp add: writeAll.simps)
  next
    case False
    obtain n err c' where w: "conn_Write p c = ((n, err), c')" by (metis surj_pair)
    have c': "c' = c\<lparr>sc_out := sc_out c @ take n p, sc_writes := sc_writes c'\<rparr>" "n \<le> length p"
      "err \<noteq> None \<longrightarrow> n < length p"
      using conn_Write_spec [OF False, of c] w by auto
    show ?thesis
    proof (cases "err = None \<and> n \<noteq> 0")
      case True
      then obtain k ws where k: "snd (writeAll (drop n p) c') = c'\<lparr>sc_out := sc_out c' @ take k (drop n p), sc_writes := ws\<rparr>"
        "k \<le> length (drop n p)" "fst (writeAll (drop n p) c') = None \<longrightarrow> k = length (drop n p)"
        "fst (writeAll (drop n p) c') \<noteq> None \<longrightarrow> k < length (drop n p)"
        using 1 [OF False w [symmetric] refl conjunct1 [OF True] conjunct2 [OF True]] by auto
      have eq: "writeAll p c = writeAll (drop n p) c'"
        using True False w by (subst writeAll.simps) simp
      have "snd (writeAll p c) = c\<lparr>sc_out := sc_out c @ take (n + k) p, sc_writes := ws\<rparr>"
        unfolding eq k(1) by (subst (1 2) c'(1)) (simp add: take_add)
      with k(2-4) c'(2) eq show ?thesis by (intro exI [of _ "n + k"] exI [of _ ws]) auto
    next
      case False
      with \<open>p \<noteq> []\<close> w have "snd (writeAll p c) = c'" "fst (writeAll p c) \<noteq> None"
        by (auto simp: writeAll.simps split: option.splits)
      with c' False \<open>p \<noteq> []\<close> show ?thesis
        by (intro exI [of _ n] exI [of _ "sc_writes c'"]) auto
    qed
  qed
qed

lemma writeAll_done: "fst (writeAll p c) = None \<Longrightarrow> sc_out (snd (writeAll p c)) = sc_out c @ p"
  using writeAll_spec [of p c] by auto

lemma writeAll_failed:
  "fst (writeAll p c) = Some e \<Longrightarrow> \<exists>k < length p. sc_out (snd (writeAll p c)) = sc_out c @ take k p"
  using writeAll_spec [of p c] by auto

text \<open>The packets completely written so far, in the order of the connections.\<close>

definition stream_sent :: "streamCarrier \<Rightarrow> bytes list" where
  "stream_sent s = concat (map (fst \<circ> deframe \<circ> sc_out) (s_conns s))"

text \<open>The invariant: the current connection is the last one opened and its output ends with a
  complete frame; new connections start with no output, whatever the dialer or tuner does.\<close>

definition stream_ok :: "streamCarrier \<Rightarrow> bool" where
  "stream_ok s \<longleftrightarrow>
     (\<forall>i. s_conn s = Some i \<longrightarrow> Suc i = length (s_conns s) \<and> snd (deframe (sc_out (s_conns s ! i))) = []) \<and>
     (\<forall>c. Inr c \<in> set (s_arrivals s) \<longrightarrow> sc_out c = []) \<and>
     (\<forall>c. sc_out (s_tune s c) = sc_out c) \<and>
     (\<forall>d c. s_dial s = Some d \<longrightarrow> sc_out (d c) = sc_out c)"

lemma arrive_cases:
  "\<exists>as. snd (arrive s) = s\<lparr>s_arrivals := as\<rparr> \<and> set as \<subseteq> set (s_arrivals s) \<and>
     (\<forall>c. fst (arrive s) = Inr c \<longrightarrow> Inr c \<in> set (s_arrivals s))"
proof (cases "s_arrivals s")
  case Nil
  then show ?thesis by (intro exI [of _ "[]"]) (simp add: arrive_def)
next
  case (Cons a as)
  then show ?thesis by (intro exI [of _ as]) (auto simp: arrive_def)
qed

lemma open_conn_cases:
  assumes "stream_ok s"
  shows "\<exists>as. snd (open_conn s) = s\<lparr>s_arrivals := as\<rparr> \<and> set as \<subseteq> set (s_arrivals s) \<and>
     (\<forall>c. fst (open_conn s) = Inr c \<longrightarrow> sc_out c = [])"
proof -
  obtain as where a: "snd (arrive s) = s\<lparr>s_arrivals := as\<rparr>" "set as \<subseteq> set (s_arrivals s)"
    "\<forall>c. fst (arrive s) = Inr c \<longrightarrow> Inr c \<in> set (s_arrivals s)"
    using arrive_cases [of s] by auto
  have out: "fst (arrive s) = Inr c \<Longrightarrow> sc_out c = []" "s_dial s = Some d \<Longrightarrow> sc_out (d c) = sc_out c" for c d
    using a(3) assms by (auto simp: stream_ok_def)
  have same: "s = s\<lparr>s_arrivals := s_arrivals s\<rparr>" by simp
  consider "open_conn s = arrive s" | e where "open_conn s = (Inl e, s)"
    | d where "s_dial s = Some d" "open_conn s = (case arrive s of (Inl e, s) \<Rightarrow> (Inl e, s) | (Inr c, s) \<Rightarrow> (Inr (d c), s))"
    by (cases "s_listener s"; cases "s_dial s"; cases "the (s_listener s)") (auto simp: open_conn_def)
  then show ?thesis
  proof cases
    case 1
    with a out(1) show ?thesis by (intro exI [of _ as]) simp
  next
    case (2 e)
    then show ?thesis by (intro exI [of _ "s_arrivals s"]) simp
  next
    case (3 d)
    with a out show ?thesis
      by (intro exI [of _ as]) (cases "fst (arrive s)"; simp add: case_prod_beta)
  qed
qed

lemma ensureConn_ok:
  assumes "stream_ok s"
  shows "stream_ok (snd (ensureConn s)) \<and> stream_sent (snd (ensureConn s)) = stream_sent s \<and>
    s_defaultID (snd (ensureConn s)) = s_defaultID s"
proof (cases "current_conn s")
  case (Some r)
  with assms show ?thesis by (simp add: ensureConn_with_def)
next
  case None
  then have open_s: "\<not> s_closed s" "s_conn s = None" by (auto simp: current_conn_def split: if_splits)
  obtain as where o: "snd (open_conn s) = s\<lparr>s_arrivals := as\<rparr>" "set as \<subseteq> set (s_arrivals s)"
    "\<forall>c. fst (open_conn s) = Inr c \<longrightarrow> sc_out c = []"
    using open_conn_cases [OF assms] by auto
  have ok: "stream_ok (s\<lparr>s_arrivals := as\<rparr>)" using assms o(2) by (auto simp: stream_ok_def)
  show ?thesis
  proof (cases "fst (open_conn s)")
    case (Inl e)
    then have "snd (ensureConn s) = s\<lparr>s_arrivals := as\<rparr>"
      using None o(1) by (simp add: ensureConn_with_def case_prod_beta)
    with ok show ?thesis by (simp add: stream_sent_def)
  next
    case (Inr c)
    let ?c = "s_tune s c"
    have "snd (ensureConn s) = s\<lparr>s_arrivals := as, s_conns := s_conns s @ [?c], s_conn := Some (length (s_conns s))\<rparr>"
      using None Inr o(1) open_s(1) by (simp add: ensureConn_with_def case_prod_beta Let_def)
    moreover have "sc_out ?c = []" using o(3) Inr assms by (simp add: stream_ok_def)
    ultimately show ?thesis using ok by (simp add: stream_ok_def stream_sent_def)
  qed
qed

lemma stream_ok_last:
  assumes "stream_ok s" "s_conn s = Some i"
  obtains cs c where "s_conns s = cs @ [c]" "length cs = i" "s_conns s ! i = c" "snd (deframe (sc_out c)) = []"
  using assms that [of "butlast (s_conns s)" "last (s_conns s)"]
  by (cases "s_conns s" rule: rev_cases) (auto simp: stream_ok_def)

text \<open>Replacing the current connection by one with more output, and dropping it.\<close>

definition with_conn :: "nat \<Rightarrow> sconn \<Rightarrow> streamCarrier \<Rightarrow> streamCarrier" where
  "with_conn i c s = s\<lparr>s_conns := (s_conns s)[i := c]\<rparr>"

lemma on_conn_with: "on_conn i f s = (fst (f (s_conns s ! i)), with_conn i (snd (f (s_conns s ! i))) s)"
  by (simp add: on_conn_def with_conn_def Let_def case_prod_beta)

lemma with_conn_frame:
  assumes "stream_ok s" "s_conn s = Some i" "sc_out c = sc_out (s_conns s ! i) @ bs" "snd (deframe bs) = []"
  shows "stream_ok (with_conn i c s)" "stream_sent (with_conn i c s) = stream_sent s @ fst (deframe bs)"
proof -
  obtain cs d where d: "s_conns s = cs @ [d]" "length cs = i" "s_conns s ! i = d" "snd (deframe (sc_out d)) = []"
    using stream_ok_last [OF assms(1,2)] .
  have f: "deframe (sc_out c) = (fst (deframe (sc_out d)) @ fst (deframe bs), [])"
    using deframe_append [OF d(4), of bs] assms(3,4) d(3) by simp
  show "stream_ok (with_conn i c s)" using assms(1) d f by (auto simp: stream_ok_def with_conn_def)
  show "stream_sent (with_conn i c s) = stream_sent s @ fst (deframe bs)"
    using d f by (auto simp: stream_sent_def with_conn_def list_update_append)
qed

lemma reset_with_conn:
  assumes "stream_ok s" "s_conn s = Some i" "sc_out c = sc_out (s_conns s ! i) @ bs" "fst (deframe bs) = []"
  shows "stream_ok (resetConn i (with_conn i c s))" "stream_sent (resetConn i (with_conn i c s)) = stream_sent s"
proof -
  obtain cs d where d: "s_conns s = cs @ [d]" "length cs = i" "s_conns s ! i = d" "snd (deframe (sc_out d)) = []"
    using stream_ok_last [OF assms(1,2)] .
  have f: "fst (deframe (sc_out c)) = fst (deframe (sc_out d))"
    using deframe_append [OF d(4), of bs] assms(3,4) d(3) by simp
  show "stream_ok (resetConn i (with_conn i c s))"
    using assms(1,2) by (auto simp: stream_ok_def with_conn_def resetConn_def)
  show "stream_sent (resetConn i (with_conn i c s)) = stream_sent s"
    using d f assms(2)
    by (auto simp: stream_sent_def with_conn_def resetConn_def list_update_append conn_Close_def)
qed

lemma write_frame_cases:
  assumes "valid_frame p"
  defines "h \<equiv> put32 (word_of_nat (length p))"
  shows "fst (writeAll h c) = Some e \<Longrightarrow>
      \<exists>bs. sc_out (snd (writeAll h c)) = sc_out c @ bs \<and> fst (deframe bs) = []"
    and "fst (writeAll h c) = None \<Longrightarrow> fst (writeAll p (snd (writeAll h c))) = Some e \<Longrightarrow>
      \<exists>bs. sc_out (snd (writeAll p (snd (writeAll h c)))) = sc_out c @ bs \<and> fst (deframe bs) = []"
    and "fst (writeAll h c) = None \<Longrightarrow> fst (writeAll p (snd (writeAll h c))) = None \<Longrightarrow>
      sc_out (snd (writeAll p (snd (writeAll h c)))) = sc_out c @ frame p"
proof -
  have part: "fst (deframe (take k (frame p))) = []" if "k < 4 + length p" for k
    using deframe_partial [OF assms(1), of k] that by simp
  show "\<exists>bs. sc_out (snd (writeAll h c)) = sc_out c @ bs \<and> fst (deframe bs) = []"
    if e: "fst (writeAll h c) = Some e"
  proof -
    obtain k where k: "k < 4" "sc_out (snd (writeAll h c)) = sc_out c @ take k h"
      using writeAll_failed [OF e] by (auto simp: h_def)
    have "take k h = take k (frame p)" using k(1) by (simp add: frame_def h_def)
    with k part [of k] show ?thesis by auto
  qed
  show "\<exists>bs. sc_out (snd (writeAll p (snd (writeAll h c)))) = sc_out c @ bs \<and> fst (deframe bs) = []"
    if n: "fst (writeAll h c) = None" and e: "fst (writeAll p (snd (writeAll h c))) = Some e"
  proof -
    obtain k where k: "k < length p" "sc_out (snd (writeAll p (snd (writeAll h c)))) = (sc_out c @ h) @ take k p"
      using writeAll_failed [OF e] writeAll_done [OF n] by auto
    have "h @ take k p = take (4 + k) (frame p)" by (simp add: frame_def h_def)
    with k part [of "4 + k"] show ?thesis by auto
  qed
  show "sc_out (snd (writeAll p (snd (writeAll h c)))) = sc_out c @ frame p"
    if "fst (writeAll h c) = None" "fst (writeAll p (snd (writeAll h c))) = None"
    using writeAll_done [OF that(1)] writeAll_done [OF that(2)] by (simp add: frame_def h_def)
qed

lemma with_conn_conn [simp]: "s_conn (with_conn i c s) = s_conn s" "s_defaultID (with_conn i c s) = s_defaultID s"
  "with_conn i c (with_conn i d s) = with_conn i c s" "i < length (s_conns s) \<Longrightarrow> s_conns (with_conn i c s) ! i = c"
  "s_defaultID (resetConn i s) = s_defaultID s"
  by (simp_all add: with_conn_def resetConn_def)

lemma write_attempts_ok:
  assumes "stream_ok s" "valid_frame p"
  shows "stream_ok (snd (write_attempts k p s)) \<and>
    stream_sent (snd (write_attempts k p s)) = stream_sent s @ (if fst (write_attempts k p s) = None then [p] else []) \<and>
    s_defaultID (snd (write_attempts k p s)) = s_defaultID s"
  using assms(1)
proof (induction k arbitrary: s)
  case 0
  then show ?case by simp
next
  case (Suc k)
  obtain r t where e: "ensureConn s = (r, t)" by (cases "ensureConn s")
  have t: "stream_ok t" "stream_sent t = stream_sent s" "s_defaultID t = s_defaultID s"
    using ensureConn_ok [OF Suc.prems] e by auto
  show ?case
  proof (cases r)
    case (Inl err)
    with e t show ?thesis by simp
  next
    case (Inr i)
    then have i: "s_conn t = Some i" using ensureConn_measure(2) [of s i] e by simp
    then have il: "i < length (s_conns t)" using t(1) by (auto simp: stream_ok_def)
    let ?c = "s_conns t ! i" and ?h = "put32 (word_of_nat (length p))"
    let ?c1 = "snd (writeAll ?h ?c)"
    let ?c2 = "snd (writeAll p ?c1)"
    note wf = write_frame_cases [OF assms(2), where c = ?c]
    have retry: ?thesis if c: "sc_out d = sc_out ?c @ bs" "fst (deframe bs) = []"
      and w: "write_attempts (Suc k) p s = write_attempts k p (resetConn i (with_conn i d t))" for d bs
      using reset_with_conn [OF t(1) i c] Suc.IH [of "resetConn i (with_conn i d t)"] t w by simp
    consider e1 where "fst (writeAll ?h ?c) = Some e1"
      | e2 where "fst (writeAll ?h ?c) = None" "fst (writeAll p ?c1) = Some e2"
      | "fst (writeAll ?h ?c) = None" "fst (writeAll p ?c1) = None"
      by fastforce
    then show ?thesis
    proof cases
      case 1
      with wf(1) obtain bs where "sc_out ?c1 = sc_out ?c @ bs" "fst (deframe bs) = []" by blast
      then show ?thesis by (rule retry) (use e Inr 1 in \<open>simp add: on_conn_with\<close>)
    next
      case 2
      with wf(2) obtain bs where "sc_out ?c2 = sc_out ?c @ bs" "fst (deframe bs) = []" by blast
      then show ?thesis by (rule retry) (use e Inr 2 il in \<open>simp add: on_conn_with\<close>)
    next
      case 3
      have "write_attempts (Suc k) p s = (None, with_conn i ?c2 t)"
        using e Inr 3 il by (simp add: on_conn_with)
      moreover have "deframe (frame p) = ([p], [])"
        using deframe_frame [OF assms(2), of "[]"] by simp
      ultimately show ?thesis
        using with_conn_frame [OF t(1) i wf(3) [OF 3]] t by simp
    qed
  qed
qed

interpretation stream: packet_carrier stream_ops stream_ok stream_sent
proof
  fix s s' :: streamCarrier and p peer e
  assume ok: "stream_ok s"
  have w: "stream_ok (snd (stream_WritePacket p peer s)) \<and>
    stream_sent (snd (stream_WritePacket p peer s)) = stream_sent s @ (if fst (stream_WritePacket p peer s) = None then [p] else []) \<and>
    s_defaultID (snd (stream_WritePacket p peer s)) = s_defaultID s"
    using write_attempts_ok [OF ok, of p 2] ok by (simp add: stream_WritePacket_def valid_frame_def)
  then show "stream_ok (snd (WritePacket stream_ops p peer s))"
    and "DefaultPeer stream_ops (snd (WritePacket stream_ops p peer s)) = DefaultPeer stream_ops s"
    by (simp_all add: stream_ops_def)
  show "stream_sent s' = stream_sent s @ [p]" if "WritePacket stream_ops p peer s = (None, s')"
    using w that by (simp add: stream_ops_def)
  show "stream_sent s' = stream_sent s" if "WritePacket stream_ops p peer s = (Some e, s')"
    using w that by (simp add: stream_ops_def)
qed

subsection \<open>Reading\<close>

lemma ReadFull_take:
  "\<not> sc_closed c \<Longrightarrow> sc_in c = as @ bs \<Longrightarrow> length as = n \<Longrightarrow> ReadFull n c = (Inr as, c\<lparr>sc_in := bs\<rparr>)"
  by (simp add: ReadFull_def)

lemma read_turn_frame:
  assumes "\<not> s_closed s" "s_conn s = Some i" "i < length (s_conns s)" "\<not> sc_closed (s_conns s ! i)"
    and "sc_in (s_conns s ! i) = frame p @ bs" "valid_frame p" "length p \<le> len"
  shows "read_turn len s = (Some (Inr (p, s_defaultID s)), with_conn i ((s_conns s ! i)\<lparr>sc_in := bs\<rparr>) s)"
proof -
  let ?c = "s_conns s ! i" and ?h = "put32 (word_of_nat (length p))"
  have e: "ensureConn s = (Inr i, s)" using assms(1,2) by (simp add: ensureConn_with_def current_conn_def)
  have in_c: "sc_in ?c = ?h @ p @ bs" using assms(5) by (simp add: frame_def)
  have r1: "ReadFull 4 ?c = (Inr ?h, ?c\<lparr>sc_in := p @ bs\<rparr>)"
    using assms(4) in_c by (intro ReadFull_take) simp_all
  have r2: "ReadFull (length p) (?c\<lparr>sc_in := p @ bs\<rparr>) = (Inr p, ?c\<lparr>sc_in := bs\<rparr>)"
    using assms(4) ReadFull_take [of "?c\<lparr>sc_in := p @ bs\<rparr>" p bs] by simp
  have n: "unat (word_of_nat (length p) :: u32) = length p"
    using frame_header [OF assms(6), of "[]"] by (simp add: frame_def)
  show ?thesis
    using e r1 r2 n assms(3,6,7) by (simp add: read_turn_def on_conn_with valid_frame_def)
qed

lemma stream_ReadPacket_frame:
  assumes "\<not> s_closed s" "s_conn s = Some i" "i < length (s_conns s)" "\<not> sc_closed (s_conns s ! i)"
    and "sc_in (s_conns s ! i) = frame p @ bs" "valid_frame p" "length p \<le> len"
  shows "stream_ReadPacket len s = (Inr (p, s_defaultID s), with_conn i ((s_conns s ! i)\<lparr>sc_in := bs\<rparr>) s)"
  using read_turn_frame [OF assms] by (subst stream_ReadPacket.simps) simp

fun read_many :: "nat \<Rightarrow> nat \<Rightarrow> streamCarrier \<Rightarrow> (carrier_error + bytes \<times> string) list \<times> streamCarrier" where
  "read_many 0 len s = ([], s)"
| "read_many (Suc k) len s =
     (let (r, s) = stream_ReadPacket len s; (rs, s) = read_many k len s in (r # rs, s))"

lemma read_many_frames:
  assumes "\<not> s_closed s" "s_conn s = Some i" "i < length (s_conns s)" "\<not> sc_closed (s_conns s ! i)"
    and "sc_in (s_conns s ! i) = concat (map frame ps) @ bs" "list_all valid_frame ps"
  shows "fst (read_many (length ps) maxCarrierFrame s) = map (\<lambda>p. Inr (p, s_defaultID s)) ps"
  using assms
proof (induction ps arbitrary: s)
  case Nil
  then show ?case by simp
next
  case (Cons p ps)
  let ?s = "with_conn i ((s_conns s ! i)\<lparr>sc_in := concat (map frame ps) @ bs\<rparr>) s"
  have r: "stream_ReadPacket maxCarrierFrame s = (Inr (p, s_defaultID s), ?s)"
    using Cons.prems by (intro stream_ReadPacket_frame) (auto simp: valid_frame_def)
  have "fst (read_many (length ps) maxCarrierFrame ?s) = map (\<lambda>p. Inr (p, s_defaultID ?s)) ps"
    using Cons.prems by (intro Cons.IH) (simp_all, simp_all add: with_conn_def)
  with r show ?case by (simp add: Let_def case_prod_beta)
qed

lemma deframe_inverse:
  "deframe bs = (ps, r) \<Longrightarrow> bs = concat (map frame ps) @ r \<and> list_all valid_frame ps"
proof (induction bs arbitrary: ps rule: deframe.induct)
  case (1 bs)
  let ?n = "unat (get32 (take 4 bs))"
  show ?case
  proof (cases "length bs < 4 \<or> ?n \<le> 0 \<or> ?n > maxCarrierFrame \<or> length (drop 4 bs) < ?n")
    case True
    then have "deframe bs = ([], bs)" by (subst deframe.simps) (auto simp: Let_def)
    with 1(2) show ?thesis by simp
  next
    case False
    then have "deframe bs = (take ?n (drop 4 bs) # fst (deframe (drop ?n (drop 4 bs))), snd (deframe (drop ?n (drop 4 bs))))"
      by (subst deframe.simps) (auto simp: Let_def case_prod_beta)
    then obtain qs where qs: "deframe (drop ?n (drop 4 bs)) = (qs, r)" "ps = take ?n (drop 4 bs) # qs"
      using 1(2) by (auto simp: prod_eq_iff)
    have ih: "drop ?n (drop 4 bs) = concat (map frame qs) @ r \<and> list_all valid_frame qs"
      using False qs(1) by (intro 1(1)) auto
    have len: "length (take ?n (drop 4 bs)) = ?n" using False by simp
    have "(word_of_nat ?n :: u32) = get32 (take 4 bs)" by (rule word_unat_eq_iff [THEN iffD2]) simp
    then have "frame (take ?n (drop 4 bs)) = take 4 bs @ take ?n (drop 4 bs)"
      unfolding frame_def len using False by (simp add: put32_get32)
    with ih have "bs = concat (map frame ps) @ r"
      using append_take_drop_id [of 4 bs] append_take_drop_id [of ?n "drop 4 bs"]
      by (simp only: qs(2) list.map concat.simps append.assoc)
    moreover have "valid_frame (take ?n (drop 4 bs))" using False len by (auto simp: valid_frame_def)
    ultimately show ?thesis using ih by (simp add: qs(2))
  qed
qed

subsection \<open>Properties\<close>

text \<open>C29: a write of the stream carrier is all or nothing. However the kernel splits the writes and
  whether or not the connection has to be replaced, a successful write adds exactly its packet to
  the packets that reach a peer, a failed one adds none, and the framing of the current connection
  stays intact.\<close>

theorem stream_write_exact:
  assumes "stream_ok s"
  shows "stream_sent (snd (stream_WritePacket p peer s)) =
      stream_sent s @ (if fst (stream_WritePacket p peer s) = None then [p] else []) \<and>
    stream_ok (snd (stream_WritePacket p peer s))"
  using stream.write_sent [OF assms, of p peer] stream.write_failed [OF assms, of p peer] stream.write_ok [OF assms, of p peer]
  by (cases "fst (stream_WritePacket p peer s)") (auto simp: stream_ops_def prod_eq_iff)

definition demo_conn :: sconn where
  "demo_conn = \<lparr>sc_kind = TCPConn, sc_opts = Map.empty, sc_in = [], sc_writes = [(3, None), (2, Some (NetError ''reset''))],
     sc_out = [], sc_closed = False\<rparr>"

definition demo_stream :: streamCarrier where
  "demo_stream = \<lparr>s_name = ''tcp'', s_ctx = [], s_listener = None, s_dial = Some id, s_tune = id,
     s_arrivals = [Inr demo_conn, Inr (demo_conn\<lparr>sc_writes := [(1, None)]\<rparr>)], s_conns = [], s_conn = None, s_closed = False,
     s_defaultID = ''tcp-peer''\<rparr>"

lemma demo_stream_ok: "stream_ok demo_stream"
  by (auto simp: stream_ok_def demo_stream_def demo_conn_def)

theorem stream_write_exact_witness:
  "stream_sent (snd (stream_WritePacket [1, 2] ''tcp-peer'' demo_stream)) =
     stream_sent demo_stream @ (if fst (stream_WritePacket [1, 2] ''tcp-peer'' demo_stream) = None then [[1, 2]] else [])"
  using stream_write_exact [OF demo_stream_ok] by blast

text \<open>C30: the reader gets back what the writer framed: from a connection that carries the bytes
  another stream carrier wrote, successive reads return exactly the packets written completely, in
  order.\<close>

theorem stream_read_delivers:
  assumes "\<not> s_closed r" "s_conn r = Some j" "j < length (s_conns r)" "\<not> sc_closed (s_conns r ! j)"
    and "sc_in (s_conns r ! j) = out" "deframe out = (ps, rest)"
  shows "fst (read_many (length ps) maxCarrierFrame r) = map (\<lambda>p. Inr (p, s_defaultID r)) ps"
  using read_many_frames [OF assms(1-4), of ps rest] deframe_inverse [OF assms(6)] assms(5) by simp

definition demo_reader :: "bytes \<Rightarrow> streamCarrier" where
  "demo_reader bs = demo_stream\<lparr>s_conns := [demo_conn\<lparr>sc_in := bs\<rparr>], s_conn := Some 0\<rparr>"

theorem stream_read_delivers_witness:
  "fst (read_many 2 maxCarrierFrame (demo_reader (frame [7] @ frame [8, 9])))
     = [Inr ([7], ''tcp-peer''), Inr ([8, 9], ''tcp-peer'')]"
proof -
  have "deframe (frame [7] @ frame [8, 9]) = ([[7], [8, 9]], [])"
    using deframe_frames [of "[[7], [8, 9]]"] by (simp add: valid_frame_def maxCarrierFrame_def)
  then show ?thesis
    using stream_read_delivers [of "demo_reader (frame [7] @ frame [8, 9])" 0 "frame [7] @ frame [8, 9]" "[[7], [8, 9]]" "[]"]
    by (simp add: demo_reader_def demo_stream_def demo_conn_def numeral_2_eq_2 del: read_many.simps)
qed

text \<open>A frame length that is zero, above the limit or larger than the caller's buffer is refused:
  the read returns an error without touching the payload and the connection is dropped.\<close>

lemma stream_rejects_bad_length:
  assumes "\<not> s_closed s" "s_conn s = Some i" "i < length (s_conns s)" "\<not> sc_closed (s_conns s ! i)"
    and "4 \<le> length (sc_in (s_conns s ! i))"
    and n: "n = unat (get32 (take 4 (sc_in (s_conns s ! i))))" "n = 0 \<or> n > maxCarrierFrame \<or> n > len"
  shows "fst (stream_ReadPacket len s) = Inl (FrameLengthInvalid n) \<and> s_conn (snd (stream_ReadPacket len s)) = None"
proof -
  have e: "ensureConn s = (Inr i, s)" using assms(1,2) by (simp add: ensureConn_with_def current_conn_def)
  have "read_turn len s = (Some (Inl (FrameLengthInvalid n)),
      resetConn i (with_conn i ((s_conns s ! i)\<lparr>sc_in := drop 4 (sc_in (s_conns s ! i))\<rparr>) s))"
    using e assms(4,5) n(2) unfolding n(1) by (simp add: read_turn_def on_conn_with ReadFull_def Let_def)
  then show ?thesis
    using assms(2) by (subst (1 2) stream_ReadPacket.simps) (simp add: resetConn_def)
qed

text \<open>Closing is final. After \<open>Close\<close> the carrier has no connection, a write fails without effect,
  and a connection that is accepted or dialled while \<open>Close\<close> runs is closed instead of installed.\<close>

lemma stream_close_final:
  assumes "t = snd (stream_Close s)"
  shows "s_conn t = None \<and>
    (valid_frame p \<longrightarrow> stream_WritePacket p peer t = (Some ErrClosedPipe, t)) \<and>
    (\<not> s_closed u \<and> s_conn u = None \<and> open_conn u = (Inr c, v) \<longrightarrow>
       fst (ensureConn_with id (\<lambda>w. snd (stream_Close w)) u) = Inl ErrClosedPipe \<and>
       s_conn (snd (ensureConn_with id (\<lambda>w. snd (stream_Close w)) u)) = None \<and>
       sc_closed (last (s_conns (snd (ensureConn_with id (\<lambda>w. snd (stream_Close w)) u)))))"
proof -
  have cl: "s_closed (snd (stream_Close w)) \<and> s_conn (snd (stream_Close w)) = None" for w
    by (simp add: stream_Close_def Let_def case_prod_beta split: option.splits)
  then have "ensureConn t = (Inl ErrClosedPipe, t)"
    by (simp add: assms ensureConn_with_def current_conn_def)
  moreover have "fst (ensureConn_with id (\<lambda>w. snd (stream_Close w)) u) = Inl ErrClosedPipe \<and>
      s_conn (snd (ensureConn_with id (\<lambda>w. snd (stream_Close w)) u)) = None \<and>
      sc_closed (last (s_conns (snd (ensureConn_with id (\<lambda>w. snd (stream_Close w)) u))))"
    if "\<not> s_closed u" "s_conn u = None" "open_conn u = (Inr c, v)"
    using that cl by (simp add: ensureConn_with_def current_conn_def Let_def conn_Close_def)
  ultimately show ?thesis
    using cl by (auto simp: assms stream_WritePacket_def valid_frame_def eval_nat_numeral)
qed

end
