(* ===== verification/Carriers.thy ===== *)
theory Carriers
  imports UDP_Carrier Framing Data_Plane
begin

text \<open>
  The TCP carrier (\<open>carrier_tcp.go\<close>), the KCP carrier (\<open>carrier_kcp.go\<close>) and the choice of the
  carrier (\<open>newCarrier\<close> in \<open>carrier.go\<close>). Both are stream carriers; what they add is how a connection
  is opened and tuned. The options a connection is given are recorded by name in \<open>sc_opts\<close>; setters
  whose error the code ignores are recorded as requested. The KCP library creates sessions: its
  answers are arguments.
\<close>

subsection \<open>TCP\<close>

definition set_opt :: "string \<Rightarrow> int \<Rightarrow> sconn \<Rightarrow> sconn" where
  "set_opt k v c = c\<lparr>sc_opts := (sc_opts c)(k \<mapsto> v)\<rparr>"

definition markStreamConn :: "socket_outcome \<Rightarrow> sconn \<Rightarrow> carrier_error option \<times> sconn" where
  "markStreamConn out c =
     (if sc_kind c \<noteq> TCPConn then (Some (NetError ''connection does not expose SyscallConn''), c)
      else case socketMarkControl out (\<lambda>_. None) of
        Inl e \<Rightarrow> (Some e, c)
      | Inr opts \<Rightarrow> (None, set_opt ''SO_MARK'' transportMark c))"

definition tuneTCPConn :: "socket_outcome \<Rightarrow> int \<Rightarrow> sconn \<Rightarrow> sconn" where
  "tuneTCPConn out socketBuffer c =
     (let c = snd (markStreamConn out c)
      in if sc_kind c = TCPConn then
           set_opt ''write_buffer'' socketBuffer (set_opt ''read_buffer'' socketBuffer
             (set_opt ''keepalive'' 1 (set_opt ''nodelay'' 1 c)))
         else c)"

text \<open>\<open>dialMarkedStream\<close>: the control function marks the socket before it connects, and its error
  fails the dial.\<close>

definition dialMarkedStream :: "socket_outcome \<Rightarrow> carrier_error + sconn \<Rightarrow> carrier_error + sconn" where
  "dialMarkedStream out conn =
     (case socketMarkControl out (\<lambda>_. None) of
        Inl e \<Rightarrow> Inl e
      | Inr opts \<Rightarrow>
          (case so_listen out of
             Some e \<Rightarrow> Inl e
           | None \<Rightarrow> (case conn of Inl e \<Rightarrow> Inl e | Inr c \<Rightarrow> Inr (set_opt ''SO_MARK'' transportMark c))))"

definition listenMarkedStream :: "socket_outcome \<Rightarrow> carrier_error option" where
  "listenMarkedStream out =
     (case socketMarkControl out (\<lambda>_. None) of Inl e \<Rightarrow> Some e | Inr _ \<Rightarrow> so_listen out)"

text \<open>A network outcome of the accepts or dials to come: how the socket could be set up, and the
  connection.\<close>

type_synonym conn_outcome = "socket_outcome \<times> (carrier_error + sconn)"

definition new_stream :: "string \<Rightarrow> string \<Rightarrow> bool list \<Rightarrow> streamCarrier" where
  "new_stream name peer ctx =
     \<lparr>s_name = name, s_ctx = ctx, s_listener = None, s_dial = None, s_tune = id, s_arrivals = [],
      s_conns = [], s_conn = None, s_closed = False, s_defaultID = peer\<rparr>"

definition newTCPCarrier :: "Config \<Rightarrow> socket_outcome \<Rightarrow> conn_outcome list \<Rightarrow> bool list \<Rightarrow> carrier_error + streamCarrier" where
  "newTCPCarrier c out net ctx =
     (let s = new_stream ''tcp'' ''tcp-peer'' ctx; buf = SocketBuffer (c_Performance c)
      in if Role c = ''iran'' then
           Inr (s\<lparr>s_dial := Some (tuneTCPConn out buf), s_arrivals := map (\<lambda>(o', conn). dialMarkedStream o' conn) net\<rparr>)
         else
           (case listenMarkedStream out of
              Some e \<Rightarrow> Inl e
            | None \<Rightarrow> Inr (s\<lparr>s_listener := Some True, s_tune := tuneTCPConn out buf, s_arrivals := map snd net\<rparr>)))"

subsection \<open>KCP\<close>

record kcpCarrier =
  k_stream :: streamCarrier
  k_packetConn :: udp_conn

definition randomConversationID :: "bytes option \<Rightarrow> carrier_error + u32" where
  "randomConversationID rnd =
     (case rnd of
        None \<Rightarrow> Inl (NetError ''rand'')
      | Some b \<Rightarrow> (let v = le_get b in Inr (if v = 0 then 1 else v)))"

definition tuneKCPSession :: "Config \<Rightarrow> sconn \<Rightarrow> sconn" where
  "tuneKCPSession c conn =
     (if sc_kind conn \<noteq> UDPSession then conn
      else
        (let k = KCP (c_Transport c);
             conn = set_opt ''stream_mode'' 1 conn;
             conn = set_opt ''nc'' (NoCongestion k) (set_opt ''resend'' (Resend k)
                      (set_opt ''interval'' (Interval k) (set_opt ''nodelay'' (NoDelay k) conn)));
             conn = set_opt ''rcvwnd'' (ReceiveWindow k) (set_opt ''sndwnd'' (SendWindow k) conn);
             conn = set_opt ''mtu'' (k_MTU k) conn;
             conn = set_opt ''ack_nodelay'' 1 conn;
             buf = k_SocketBuffer k;
             buf = (if SocketBuffer (c_Performance c) > buf then SocketBuffer (c_Performance c) else buf)
         in set_opt ''write_buffer'' buf (set_opt ''read_buffer'' buf conn)))"

text \<open>One call of the dial function: \<open>created\<close> is what \<open>kcp.NewConn3\<close> answers.\<close>

definition kcp_dial :: "Config \<Rightarrow> bytes option \<Rightarrow> carrier_error + sconn \<Rightarrow> carrier_error + sconn" where
  "kcp_dial c rnd created =
     (case randomConversationID rnd of
        Inl e \<Rightarrow> Inl e
      | Inr conv \<Rightarrow>
          (case created of
             Inl e \<Rightarrow> Inl e
           | Inr sess \<Rightarrow>
               Inr (set_opt ''parity_shards'' (ParityShards (KCP (c_Transport c)))
                 (set_opt ''data_shards'' (DataShards (KCP (c_Transport c))) (set_opt ''conv'' (uint conv) sess)))))"

definition newKCPCarrier ::
  "resolver \<Rightarrow> Config \<Rightarrow> carrier_error + udp_conn \<Rightarrow> carrier_error option \<Rightarrow>
     (bytes option \<times> (carrier_error + sconn)) list \<Rightarrow> bool list \<Rightarrow> create_error + kcpCarrier" where
  "newKCPCarrier res c listened serve net ctx =
     (case listened of
        Inl e \<Rightarrow> Inl (e, None)
      | Inr pc \<Rightarrow>
          (let pc = pc\<lparr>uc_rcvbuf := SocketBuffer (c_Performance c), uc_sndbuf := SocketBuffer (c_Performance c)\<rparr>;
               s = (new_stream ''kcp'' ''kcp-peer'' ctx)\<lparr>s_tune := tuneKCPSession c\<rparr>
           in if Role c = ''iran'' then
                (case ResolveUDPAddr res (Peer (c_Transport c)) of
                   None \<Rightarrow> Inl (NetError ''resolve KCP peer'', Some (snd (CloseUDP pc)))
                 | Some peer \<Rightarrow>
                     Inr \<lparr>k_stream = s\<lparr>s_dial := Some id, s_arrivals := map (\<lambda>(rnd, conn). kcp_dial c rnd conn) net\<rparr>,
                          k_packetConn = pc\<rparr>)
              else
                (case serve of
                   Some e \<Rightarrow> Inl (e, Some (snd (CloseUDP pc)))
                 | None \<Rightarrow> Inr \<lparr>k_stream = s\<lparr>s_listener := Some True, s_arrivals := map snd net\<rparr>, k_packetConn = pc\<rparr>)))"

definition kcp_Close :: "kcpCarrier \<Rightarrow> carrier_error option \<times> kcpCarrier" where
  "kcp_Close k =
     (let (err1, s) = stream_Close (k_stream k);
          (err2, pc) = CloseUDP (k_packetConn k)
      in (if err1 \<noteq> None then err1 else err2, k\<lparr>k_stream := s, k_packetConn := pc\<rparr>))"

subsection \<open>The configured carrier\<close>

datatype carrier = UDP udpCarrier | TCP streamCarrier | KCPStream kcpCarrier

text \<open>What the network answers while the carrier is being created and used.\<close>

record carrier_net =
  cn_socket :: socket_outcome
  cn_reads :: "(carrier_error + bytes \<times> net_addr) list"
  cn_writes :: "carrier_error option list"
  cn_conns :: "conn_outcome list"
  cn_serve :: "carrier_error option"
  cn_sessions :: "(bytes option \<times> (carrier_error + sconn)) list"
  cn_ctx :: "bool list"

definition newCarrier :: "resolver \<Rightarrow> Config \<Rightarrow> carrier_net \<Rightarrow> create_error + carrier" where
  "newCarrier res c net =
     (let listened = listenMarkedPacket (cn_socket net) (cn_reads net) (cn_writes net) (Listen (c_Transport c))
      in if t_Type (c_Transport c) = ''udp'' then map_sum id UDP (newUDPCarrier res c listened)
         else if t_Type (c_Transport c) = ''tcp'' then
           map_sum (\<lambda>e. (e, None)) TCP (newTCPCarrier c (cn_socket net) (cn_conns net) (cn_ctx net))
         else if t_Type (c_Transport c) = ''kcp'' then
           map_sum id KCPStream (newKCPCarrier res c listened (cn_serve net) (cn_sessions net) (cn_ctx net))
         else Inl (UnsupportedTransport (t_Type (c_Transport c)), None))"

definition on_stream :: "(streamCarrier \<Rightarrow> 'r \<times> streamCarrier) \<Rightarrow> kcpCarrier \<Rightarrow> 'r \<times> kcpCarrier" where
  "on_stream f k = (let (r, s) = f (k_stream k) in (r, k\<lparr>k_stream := s\<rparr>))"

definition carrier_ops :: "resolver \<Rightarrow> carrier packetCarrier" where
  "carrier_ops res =
     \<lparr>ReadPacket = (\<lambda>len k. case k of
          UDP u \<Rightarrow> map_prod id UDP (udp_ReadPacket len u)
        | TCP s \<Rightarrow> map_prod id TCP (stream_ReadPacket len s)
        | KCPStream q \<Rightarrow> map_prod id KCPStream (on_stream (stream_ReadPacket len) q)),
      WritePacket = (\<lambda>p peer k. case k of
          UDP u \<Rightarrow> map_prod id UDP (udp_WritePacket res p peer u)
        | TCP s \<Rightarrow> map_prod id TCP (stream_WritePacket p peer s)
        | KCPStream q \<Rightarrow> map_prod id KCPStream (on_stream (stream_WritePacket p peer) q)),
      DefaultPeer = (\<lambda>k. case k of UDP u \<Rightarrow> u_defaultPeer u | TCP s \<Rightarrow> s_defaultID s | KCPStream q \<Rightarrow> s_defaultID (k_stream q)),
      CarrierName = (\<lambda>k. case k of UDP u \<Rightarrow> ''udp'' | TCP s \<Rightarrow> s_name s | KCPStream q \<Rightarrow> s_name (k_stream q)),
      CloseCarrier = (\<lambda>k. case k of
          UDP u \<Rightarrow> map_prod id UDP (udp_Close u)
        | TCP s \<Rightarrow> map_prod id TCP (stream_Close s)
        | KCPStream q \<Rightarrow> map_prod id KCPStream (kcp_Close q))\<rparr>"

subsection \<open>Every carrier satisfies the contract\<close>

definition carrier_sent :: "carrier \<Rightarrow> bytes list" where
  "carrier_sent k = (case k of UDP u \<Rightarrow> udp_sent u | TCP s \<Rightarrow> stream_sent s | KCPStream q \<Rightarrow> stream_sent (k_stream q))"

definition carrier_good :: "carrier \<Rightarrow> bool" where
  "carrier_good k = (case k of UDP u \<Rightarrow> True | TCP s \<Rightarrow> stream_ok s | KCPStream q \<Rightarrow> stream_ok (k_stream q))"

lemmas stream_laws = stream.write_sent stream.write_failed stream.write_ok stream.write_default_peer
lemmas udp_laws = udp.write_sent udp.write_failed udp.write_default_peer

lemma stream_WritePacket_laws:
  assumes "stream_ok s"
  shows "stream_WritePacket p peer s = (None, s') \<Longrightarrow> stream_sent s' = stream_sent s @ [p]"
    "stream_WritePacket p peer s = (Some e, s') \<Longrightarrow> stream_sent s' = stream_sent s"
    "stream_ok (snd (stream_WritePacket p peer s))"
    "s_defaultID (snd (stream_WritePacket p peer s)) = s_defaultID s"
  using stream_laws [OF assms] by (simp_all add: stream_ops_def)

lemma udp_WritePacket_laws:
  "udp_WritePacket res p peer u = (None, u') \<Longrightarrow> udp_sent u' = udp_sent u @ [p]"
  "udp_WritePacket res p peer u = (Some e, u') \<Longrightarrow> udp_sent u' = udp_sent u"
  "u_defaultPeer (snd (udp_WritePacket res p peer u)) = u_defaultPeer u"
  using udp_laws [OF TrueI, of res] by (simp_all add: udp_ops_def)

interpretation carrier: packet_carrier "carrier_ops res" carrier_good carrier_sent for res
proof
  fix k k' :: carrier and p peer e
  assume ok: "carrier_good k"
  show "carrier_sent k' = carrier_sent k @ [p]" if "WritePacket (carrier_ops res) p peer k = (None, k')"
    using that ok
    by (cases k) (auto simp: carrier_ops_def carrier_sent_def carrier_good_def on_stream_def map_prod_def Let_def
        split: prod.splits dest: stream_WritePacket_laws(1) udp_WritePacket_laws(1))
  show "carrier_sent k' = carrier_sent k" if "WritePacket (carrier_ops res) p peer k = (Some e, k')"
    using that ok
    by (cases k) (auto simp: carrier_ops_def carrier_sent_def carrier_good_def on_stream_def map_prod_def Let_def
        split: prod.splits dest: stream_WritePacket_laws(2) udp_WritePacket_laws(2))
  show "carrier_good (snd (WritePacket (carrier_ops res) p peer k))"
    using ok by (cases k) (auto simp: carrier_ops_def carrier_good_def on_stream_def case_prod_beta Let_def
        stream_WritePacket_laws(3))
  show "DefaultPeer (carrier_ops res) (snd (WritePacket (carrier_ops res) p peer k)) = DefaultPeer (carrier_ops res) k"
    using ok by (cases k) (auto simp: carrier_ops_def carrier_good_def on_stream_def case_prod_beta Let_def
        stream_WritePacket_laws(4) udp_WritePacket_laws(3))
qed

lemma set_opt_simps [simp]:
  "sc_out (set_opt k v c) = sc_out c" "sc_kind (set_opt k v c) = sc_kind c"
  "sc_opts (set_opt k v c) = (sc_opts c)(k \<mapsto> v)"
  by (simp_all add: set_opt_def)

lemma markStreamConn_simps [simp]:
  "sc_out (snd (markStreamConn out c)) = sc_out c" "sc_kind (snd (markStreamConn out c)) = sc_kind c"
  by (simp_all add: markStreamConn_def split: sum.splits)

lemma tune_out [simp]: "sc_out (tuneTCPConn out b c) = sc_out c" "sc_out (tuneKCPSession cfg c) = sc_out c"
  by (simp_all add: tuneTCPConn_def tuneKCPSession_def Let_def)

lemma markStreamConn_mark:
  "sc_opts c ''SO_MARK'' = Some transportMark \<Longrightarrow> sc_opts (snd (markStreamConn out c)) ''SO_MARK'' = Some transportMark"
  by (simp add: markStreamConn_def split: sum.splits)

lemma tuneTCPConn_mark:
  "sc_opts c ''SO_MARK'' = Some transportMark \<Longrightarrow> sc_opts (tuneTCPConn out b c) ''SO_MARK'' = Some transportMark"
  by (simp add: tuneTCPConn_def Let_def markStreamConn_mark)

text \<open>Connections start with no output.\<close>

definition fresh_net :: "carrier_net \<Rightarrow> bool" where
  "fresh_net net \<longleftrightarrow>
     (\<forall>c. Inr c \<in> snd ` set (cn_conns net) \<longrightarrow> sc_out c = []) \<and>
     (\<forall>c. Inr c \<in> snd ` set (cn_sessions net) \<longrightarrow> sc_out c = [])"

lemma dialMarkedStream_Inr: "dialMarkedStream out conn = Inr d \<Longrightarrow> \<exists>c. conn = Inr c \<and> d = set_opt ''SO_MARK'' transportMark c"
  by (auto simp: dialMarkedStream_def split: sum.splits option.splits)

lemma kcp_dial_Inr: "kcp_dial c rnd conn = Inr d \<Longrightarrow> \<exists>s. conn = Inr s \<and> sc_out d = sc_out s"
  by (auto simp: kcp_dial_def split: sum.splits)

lemma newTCPCarrier_ok:
  assumes "newTCPCarrier c out net ctx = Inr s" "\<forall>c. Inr c \<in> snd ` set net \<longrightarrow> sc_out c = []"
  shows "stream_ok s"
  using assms
  by (auto simp: newTCPCarrier_def new_stream_def stream_ok_def Let_def image_iff split: if_splits option.splits
      dest!: sym [of "Inr _" "dialMarkedStream _ _"] dialMarkedStream_Inr; fastforce)

lemma newKCPCarrier_ok:
  assumes "newKCPCarrier res c listened serve net ctx = Inr k" "\<forall>c. Inr c \<in> snd ` set net \<longrightarrow> sc_out c = []"
  shows "stream_ok (k_stream k)"
  using assms
  by (auto simp: newKCPCarrier_def new_stream_def stream_ok_def Let_def image_iff split: if_splits option.splits sum.splits
      dest!: sym [of "Inr _" "kcp_dial _ _ _"] kcp_dial_Inr; fastforce)

text \<open>A creation that fails leaves no socket open.\<close>

lemma newCarrier_fails_closed: "newCarrier res c net = Inl (e, sock) \<Longrightarrow> pred_option uc_closed sock"
  by (auto simp: newCarrier_def newUDPCarrier_def newKCPCarrier_def CloseUDP_def map_sum_def Let_def
      split: if_splits sum.splits option.splits)

lemma newCarrier_good: "newCarrier res c net = Inr k \<Longrightarrow> fresh_net net \<Longrightarrow> carrier_good k"
  by (auto simp: newCarrier_def carrier_good_def fresh_net_def Let_def map_sum_def newTCPCarrier_ok newKCPCarrier_ok
      split: if_splits sum.splits)

lemma listenMarkedPacket_mark:
  "listenMarkedPacket out r w a = Inr u \<Longrightarrow> uc_opts u SO_MARK = Some transportMark"
  by (auto simp: listenMarkedPacket_def socketMarkControl_def split: sum.splits option.splits)

subsection \<open>Properties\<close>


definition demo_net :: carrier_net where
  "demo_net = \<lparr>cn_socket = \<lparr>so_control = None, so_setsockopt = None, so_listen = None\<rparr>, cn_reads = [], cn_writes = [],
     cn_conns = [], cn_serve = None, cn_sessions = [], cn_ctx = []\<rparr>"

definition demo_carrier :: carrier where
  "demo_carrier = UDP \<lparr>u_conn = \<lparr>uc_opts = [SO_MARK \<mapsto> transportMark], uc_local = ''0.0.0.0:9000'', uc_rcvbuf = 8388608,
      uc_sndbuf = 8388608, uc_reads = [], uc_writes = [], uc_out = [], uc_closed = False\<rparr>,
     u_defaultPeer = '''', u_defaultAddr = None, u_peers = Map.empty\<rparr>"

definition zero_config :: Config where
  "zero_config = \<lparr>Role = ''kharej'', Mode = ''full'',
     c_Transport = \<lparr>t_Type = ''udp'', Listen = ''0.0.0.0:9000'', Peer = '''', Key = '''', KeepaliveSeconds = 5,
       SessionTimeoutSeconds = 25, RekeyMinutes = 30, KCP = zero_kcp\<rparr>,
     SmartReturn = zero_smart_return, c_Performance = zero_performance\<lparr>SocketBuffer := 8388608\<rparr>,
     Tun = \<lparr>Name = ''hsh0'', LocalCIDR = '''', PeerIP = '''', MTU = 1320\<rparr>,
     Network = \<lparr>PublicInterface = '''', PublicIP = '''', PublicGateway = '''', ForeignPublicIP = '''', IranPublicIP = '''',
       LockServicePorts = False\<rparr>,
     Ports = []\<rparr>"

lemma demo_newCarrier: "newCarrier no_resolver zero_config demo_net = Inr demo_carrier"
  by (simp add: newCarrier_def zero_config_def demo_net_def listenMarkedPacket_def socketMarkControl_def newUDPCarrier_def
      demo_carrier_def fun_eq_iff zero_performance_def)

lemma demo_net_fresh: "fresh_net demo_net"
  by (simp add: fresh_net_def demo_net_def)

definition demo_carrier_node :: "(carrier, bytes list) node" where
  "demo_carrier_node = \<lparr>n_st = n_st (demo_node True), n_carrier = demo_carrier, n_tun = [], n_pool = []\<rparr>"




text \<open>A KCP conversation never has the identifier zero, and every other identifier the random
  bytes spell is used as it is.\<close>

lemma conversation_id_nonzero:
  "\<exists>v. randomConversationID (Some b) = Inr v \<and> v \<noteq> 0 \<and> (le_get b \<noteq> (0 :: u32) \<longrightarrow> v = le_get b)"
  by (simp add: randomConversationID_def Let_def)

end
