(* ===== verification/Direct_Probe.thy ===== *)
theory Direct_Probe
  imports UDP_Carrier Routing Handshake
begin

text \<open>
  The health probes of Smart Return (\<open>direct_probe.go\<close>). Kharej sends an authenticated datagram over
  the ordinary Internet path; Iran answers a valid one inside the encrypted session; the monitor on
  Kharej waits for the answer, feeds the outcome to the controller and switches the return path.

  As for the other goroutines, a wake-up carries what other goroutines did meanwhile, and a result
  \<open>None\<close> means that the goroutine has not returned yet. Sockets, clock readings and random bytes are
  arguments.
\<close>

subsection \<open>Probe packets\<close>

definition directProbeMagic :: string where "directProbeMagic = ''HDP1''"
definition directProbeSize :: nat where "directProbeSize = 4 + 8 + 16 + 32"

definition makeDirectProbe :: "bytes \<Rightarrow> bytes option \<Rightarrow> instant \<Rightarrow> (bytes \<times> bytes) option" where
  "makeDirectProbe key rnd now =
     (case rnd of
        None \<Rightarrow> None
      | Some nonce \<Rightarrow>
          (let p = bytes_of directProbeMagic @ put64 (word_of_int (unix_sec now)) @ nonce
           in Some (p @ hmac_sha256 key p, nonce)))"

definition verifyDirectProbe :: "bytes \<Rightarrow> bytes \<Rightarrow> instant \<Rightarrow> bytes option" where
  "verifyDirectProbe key p now =
     (if length p \<noteq> directProbeSize \<or> take 4 p \<noteq> bytes_of directProbeMagic then None
      else if hmac_sha256 key (take 28 p) \<noteq> drop 28 p then None
      else
        (let ts = sint (get64 (gslice 4 12 p)); skew = since_wall now (unix_ns ts)
         in if skew > 90 * second \<or> skew < - 90 * second then None else Some (gslice 12 28 p)))"

subsection \<open>Addresses\<close>

text \<open>\<open>IP.Equal\<close>, with \<open>[]\<close> for a nil IP; \<open>net.JoinHostPort\<close>; and the destination of a write on an IPv4
  socket: a nil IP is the wildcard address, an IPv6 address is refused (\<open>None\<close>).\<close>

definition IP_Equal :: "int list \<Rightarrow> int list \<Rightarrow> bool" where
  "IP_Equal ip x \<longleftrightarrow>
     (if length ip = length x then ip = x
      else if length ip = 4 \<and> length x = 16 then take 12 x = v4prefix \<and> ip = drop 12 x
      else if length ip = 16 \<and> length x = 4 then take 12 ip = v4prefix \<and> drop 12 ip = x
      else False)"

definition ip_bytes :: "int list option \<Rightarrow> int list" where
  "ip_bytes ip = (case ip of None \<Rightarrow> [] | Some bs \<Rightarrow> bs)"

definition JoinHostPort :: "string \<Rightarrow> string \<Rightarrow> string" where
  "JoinHostPort host port =
     (if CHR '':'' \<in> set host \<or> CHR ''%'' \<in> set host then ''['' @ host @ '']:'' @ port else host @ '':'' @ port)"

definition WriteTo :: "bytes \<Rightarrow> net_addr option \<Rightarrow> udp_conn \<Rightarrow> carrier_error option \<times> udp_conn" where
  "WriteTo p dest pc = (case dest of None \<Rightarrow> (Some (NetError ''non-IPv4 address''), pc) | Some a \<Rightarrow> WriteToUDP p a pc)"

subsection \<open>The responder\<close>

definition probe_reply ::
  "'c packetCarrier \<Rightarrow> Config \<Rightarrow> bytes \<Rightarrow> bytes \<Rightarrow> net_addr \<Rightarrow> instant \<Rightarrow> ('c, 't) node \<Rightarrow> ('c, 't) node" where
  "probe_reply ops c key b peer now n =
     (if \<not> IP_Equal (ip_bytes (fst peer)) (ip_bytes (ParseIP (ForeignPublicIP (Network c)))) then n
      else case verifyDirectProbe key b now of
        None \<Rightarrow> n
      | Some nonce \<Rightarrow>
          (case loadSession (n_st n) of
             None \<Rightarrow> n
           | Some i \<Rightarrow> snd (sendEncrypted ops i msgDirectProbeAck nonce n)))"

fun responder_loop ::
  "'c packetCarrier \<Rightarrow> Config \<Rightarrow> bytes \<Rightarrow> ((('c, 't) node \<Rightarrow> ('c, 't) node) \<times> instant) list \<Rightarrow> udp_conn \<Rightarrow>
     ('c, 't) node \<Rightarrow> unit option \<times> udp_conn \<times> ('c, 't) node" where
  "responder_loop ops c key [] pc n = (None, pc, n)"
| "responder_loop ops c key ((others, now) # es) pc n =
     (let n = others n
      in case ReadFromUDP 256 pc of
           (Inl _, pc) \<Rightarrow> (Some (), pc, n)
         | (Inr (b, peer), pc) \<Rightarrow> responder_loop ops c key es pc (probe_reply ops c key b peer now n))"

text \<open>\<open>listen\<close> is \<open>listenMarkedPacket\<close> with the kernel's answers; the socket is closed on return.\<close>

definition close_on_return :: "unit option \<times> udp_conn \<times> 'n \<Rightarrow> unit option \<times> udp_conn option \<times> 'n" where
  "close_on_return r =
     (case r of (None, pc, n) \<Rightarrow> (None, Some pc, n) | (Some u, pc, n) \<Rightarrow> (Some u, Some (snd (CloseUDP pc)), n))"

definition runDirectProbeResponder ::
  "'c packetCarrier \<Rightarrow> Config \<Rightarrow> bytes \<Rightarrow> (string \<Rightarrow> carrier_error + udp_conn) \<Rightarrow>
     ((('c, 't) node \<Rightarrow> ('c, 't) node) \<times> instant) list \<Rightarrow> ('c, 't) node \<Rightarrow> unit option \<times> udp_conn option \<times> ('c, 't) node" where
  "runDirectProbeResponder ops c key listen es n =
     (if \<not> Enabled (SmartReturn c) \<or> Mode c \<noteq> ''direct-return'' \<or> Role c \<noteq> ''iran'' then (Some (), None, n)
      else case listen (''0.0.0.0:'' @ itoa (ProbePort (SmartReturn c))) of
        Inl _ \<Rightarrow> (Some (), None, n)
      | Inr pc \<Rightarrow> close_on_return (responder_loop ops c key es pc n))"

subsection \<open>The monitor\<close>

record 's monitor =
  m_controller :: returnPathController
  m_sock :: udp_conn
  m_st :: tunnelState
  m_host :: 's

definition probe_target :: "Config \<Rightarrow> net_addr option" where
  "probe_target c =
     (case ParseIP (IranPublicIP (Network c)) of
        None \<Rightarrow> Some (None, ProbePort (SmartReturn c))
      | Some ip \<Rightarrow> (case To4 ip of None \<Rightarrow> None | Some bs \<Rightarrow> Some (Some bs, ProbePort (SmartReturn c))))"

text \<open>The controller's turn: observe the outcome, and install the new path when it changed. An error of
  the route change is only logged.\<close>

definition follow :: "'s exec \<Rightarrow> Config \<Rightarrow> bool \<Rightarrow> 's monitor \<Rightarrow> 's monitor" where
  "follow exec c ok m =
     (let ((path, changed), r) = observe ok (m_controller m); m = m\<lparr>m_controller := r\<rparr>
      in if \<not> changed then m
         else m\<lparr>m_host := snd (setKharejReturnPath exec c path (m_host m))\<rparr>)"

definition probe ::
  "'s exec \<Rightarrow> Config \<Rightarrow> bytes \<Rightarrow> bytes option \<Rightarrow> instant \<Rightarrow> wait_event list \<Rightarrow> 's monitor \<Rightarrow> unit option \<times> 's monitor" where
  "probe exec c key rnd now waits m =
     (if loadSession (m_st m) = None then (Some (), m)
      else case makeDirectProbe key rnd now of
        None \<Rightarrow> (Some (), m)
      | Some (packet, nonce) \<Rightarrow>
          (case WriteTo packet (probe_target c) (m_sock m) of
             (Some _, pc) \<Rightarrow> (Some (), follow exec c False (m\<lparr>m_sock := pc\<rparr>))
           | (None, pc) \<Rightarrow>
               (case waitProbeAck nonce waits (m_st m) of
                  (None, st) \<Rightarrow> (None, m\<lparr>m_sock := pc, m_st := st\<rparr>)
                | (Some ok, st) \<Rightarrow> (Some (), follow exec c ok (m\<lparr>m_sock := pc, m_st := st\<rparr>)))))"

record tick =
  tk_others :: "tunnelState \<Rightarrow> tunnelState"
  tk_rnd :: "bytes option"
  tk_now :: instant
  tk_waits :: "wait_event list"

text \<open>A tick of the ticker, or \<open>None\<close> for the end of the context.\<close>

fun monitor_loop :: "'s exec \<Rightarrow> Config \<Rightarrow> bytes \<Rightarrow> tick option list \<Rightarrow> 's monitor \<Rightarrow> unit option \<times> 's monitor" where
  "monitor_loop exec c key [] m = (None, m)"
| "monitor_loop exec c key (None # es) m = (Some (), m)"
| "monitor_loop exec c key (Some t # es) m =
     (case probe exec c key (tk_rnd t) (tk_now t) (tk_waits t) (m\<lparr>m_st := tk_others t (m_st m)\<rparr>) of
        (None, m) \<Rightarrow> (None, m)
      | (Some _, m) \<Rightarrow> monitor_loop exec c key es m)"

definition runDirectProbeMonitor ::
  "'s exec \<Rightarrow> Config \<Rightarrow> bytes \<Rightarrow> (string \<Rightarrow> carrier_error + udp_conn) \<Rightarrow> tick \<Rightarrow> tick option list \<Rightarrow>
     tunnelState \<Rightarrow> 's \<Rightarrow> unit option \<times> 's monitor option \<times> tunnelState \<times> 's" where
  "runDirectProbeMonitor exec c key listen first es st host =
     (if \<not> Enabled (SmartReturn c) \<or> Mode c \<noteq> ''direct-return'' \<or> Role c \<noteq> ''kharej'' then (Some (), None, st, host)
      else case listen (JoinHostPort (PublicIP (Network c)) ''0'') of
        Inl _ \<Rightarrow> (Some (), None, st, host)
      | Inr pc \<Rightarrow>
          (let host = snd (setKharejReturnPath exec c returnPathDirect host);
               m = \<lparr>m_controller = newReturnPathController (FailThreshold (SmartReturn c)) (RecoverThreshold (SmartReturn c)),
                    m_sock = pc, m_st = st, m_host = host\<rparr>;
               (r, m) = monitor_loop exec c key (Some first # es) m;
               m = (if r = None then m else m\<lparr>m_sock := snd (CloseUDP (m_sock m))\<rparr>)
           in (r, Some m, m_st m, m_host m)))"

end
