(* ===== verification/Probe_Health.thy ===== *)
theory Probe_Health
  imports Direct_Probe Config_Sound
begin

text \<open>
  Correctness of the Smart Return probes: which datagrams are answered, that a probe over a healthy
  direct path is observed as a success, that the monitor's goroutine ends, and that the installed
  route follows the controller as long as the route commands succeed.
\<close>

subsection \<open>Probe packets\<close>

definition probe_body :: "u64 \<Rightarrow> bytes \<Rightarrow> bytes" where
  "probe_body ts nonce = bytes_of directProbeMagic @ put64 ts @ nonce"

lemma length_probe_body [simp]: "length (probe_body ts nonce) = 12 + length nonce"
  by (simp add: probe_body_def directProbeMagic_def)

lemma probe_body_parts:
  "take 4 (probe_body ts nonce) = bytes_of directProbeMagic"
  "gslice 4 12 (probe_body ts nonce) = put64 ts"
  "length nonce = 16 \<Longrightarrow> gslice 12 28 (probe_body ts nonce) = nonce"
  by (simp_all add: probe_body_def gslice_def directProbeMagic_def)

lemma makeDirectProbe_eq:
  "makeDirectProbe key (Some nonce) now =
     Some (probe_body (word_of_int (unix_sec now)) nonce @ hmac_sha256 key (probe_body (word_of_int (unix_sec now)) nonce), nonce)"
  by (simp add: makeDirectProbe_def probe_body_def Let_def)

definition in_time :: "u64 \<Rightarrow> instant \<Rightarrow> bool" where
  "in_time ts now \<longleftrightarrow> unix_ns (sint ts) - 90 * second \<le> wall now \<and> wall now \<le> unix_ns (sint ts) + 90 * second"

lemma verify_body:
  assumes "length nonce = 16"
  shows "verifyDirectProbe key (probe_body ts nonce @ hmac_sha256 key (probe_body ts nonce)) now =
    (if in_time ts now then Some nonce else None)"
proof -
  note skew = skew_ok_iff [of now "unix_ns (sint ts)", unfolded Let_def]
  show ?thesis
    using assms skew
    by (auto simp: verifyDirectProbe_def directProbeSize_def probe_body_parts gslice_append_left in_time_def Let_def)
qed

lemma verify_SomeD:
  assumes "verifyDirectProbe key p now = Some nonce"
  shows "length nonce = 16 \<and> (\<exists>ts. p = probe_body ts nonce @ hmac_sha256 key (probe_body ts nonce) \<and> in_time ts now)"
proof -
  have l: "length p = 60" and mg: "take 4 p = bytes_of directProbeMagic"
    and h: "hmac_sha256 key (take 28 p) = drop 28 p" and n: "nonce = gslice 12 28 p"
    using assms by (auto simp: verifyDirectProbe_def directProbeSize_def Let_def split: if_splits)
  let ?ts = "get64 (gslice 4 12 p)"
  have "take 28 p = take 4 p @ gslice 4 12 p @ gslice 12 28 p"
    using take_gslice_split [of 4 12 p] take_gslice_split [of 12 28 p] by (simp flip: append_assoc)
  also have "\<dots> = probe_body ?ts nonce"
    using l mg n by (simp add: probe_body_def put64_get64)
  finally have b: "take 28 p = probe_body ?ts nonce" .
  with h have p: "p = probe_body ?ts nonce @ hmac_sha256 key (probe_body ?ts nonce)"
    by (metis append_take_drop_id)
  have ln: "length nonce = 16" using n l by simp
  have "in_time ?ts now" using verify_body [OF ln, of key ?ts now] assms p by (metis option.distinct(1))
  with ln p show ?thesis by blast
qed

lemma in_time_made:
  assumes "clock_ok t0"
  shows "in_time (word_of_int (unix_sec t0)) now \<longleftrightarrow>
    unix_sec t0 * second - 90 * second \<le> wall now \<and> wall now \<le> unix_sec t0 * second + 90 * second"
proof -
  have b: "0 \<le> unix_sec t0" "unix_sec t0 < 2 ^ 62" using unix_sec_bounds [OF assms] by auto
  then have "sint (word_of_int (unix_sec t0) :: u64) = unix_sec t0"
    by (intro sint_of_int_fits) (auto simp: fits64_def)
  with b show ?thesis by (simp add: in_time_def unix_ns_small)
qed

lemma probe_reply_eq:
  assumes "IP_Equal (ip_bytes (fst peer)) (ip_bytes (ParseIP (ForeignPublicIP (Network c))))"
    and "verifyDirectProbe key b now = Some nonce" "st_session (n_st n) = Some i"
  shows "probe_reply ops c key b peer now n = snd (sendEncrypted ops i msgDirectProbeAck nonce n)"
  using assms by (simp add: probe_reply_def loadSession_def)

lemma probe_reply_wf: "wf_state (n_st n) \<Longrightarrow> wf_state (n_st (probe_reply ops c key b peer now n))"
  by (auto simp: probe_reply_def sendEncrypted_wf split: option.split)

lemma ack_not_data: "msgDirectProbeAck \<noteq> msgData"
  by (simp add: msg_defs)

subsection \<open>Waiting\<close>

definition ends_wait :: "wait_event \<Rightarrow> bool" where
  "ends_wait e \<longleftrightarrow> (case e of CtxDone \<Rightarrow> True | TimerFired \<Rightarrow> True | _ \<Rightarrow> False)"

lemma wait_loop_returns: "list_ex ends_wait es \<Longrightarrow> \<exists>ok. fst (wait_loop nonce es st) = Some ok"
  by (induction nonce es st rule: wait_loop.induct)
    (auto simp: ends_wait_def Let_def split: option.split list.split)

lemma waitProbeAck_returns: "list_ex ends_wait es \<Longrightarrow> \<exists>ok. fst (waitProbeAck nonce es st) = Some ok"
  by (simp add: waitProbeAck_def wait_loop_returns)

lemma probe_returns:
  assumes "list_ex ends_wait waits"
  shows "fst (probe exec c key rnd now waits m) = Some ()"
proof (cases rnd)
  case (Some nonce)
  obtain ok where "fst (waitProbeAck nonce waits (m_st m)) = Some ok" using waitProbeAck_returns [OF assms] by blast
  then obtain st where "waitProbeAck nonce waits (m_st m) = (Some ok, st)" by (metis prod.collapse)
  then show ?thesis by (simp add: Some probe_def makeDirectProbe_eq split: prod.split option.split)
qed (simp add: probe_def makeDirectProbe_def)

subsection \<open>Following the controller\<close>

definition smart_active :: "Config \<Rightarrow> bool" where
  "smart_active c \<longleftrightarrow> Enabled (SmartReturn c) \<and> Mode c = ''direct-return'' \<and> Role c = ''kharej''"

definition flush_cmd :: command where
  "flush_cmd = (''ip'', [''route'', ''flush'', ''table'', itoa returnTable])"

definition replace_cmd :: "Config \<Rightarrow> command" where
  "replace_cmd c = (''ip'', [''route'', ''replace'', ''table'', itoa returnTable, IranPublicIP (Network c) @ ''/32'',
     ''dev'', Name (Tun c), ''mtu'', itoa (MTU (Tun c))])"

lemma set_path_active:
  assumes "smart_active c"
  shows "setKharejReturnPath exec c returnPathDirect s = (None, snd (exec flush_cmd s))"
    and "setKharejReturnPath exec c returnPathTunnel s = runCmd exec (replace_cmd c) s"
  using assms by (simp_all add: smart_active_def setKharejReturnPath_def flush_cmd_def replace_cmd_def runQuiet_def)

text \<open>What the monitor relies on of the \<open>ip\<close> command, for a host whose download path is \<open>route s\<close>: a
  flush of the return table leaves the default, direct path; a successful replacement selects the
  tunnel and a failed one changes nothing.\<close>

definition route_laws :: "'s exec \<Rightarrow> Config \<Rightarrow> ('s \<Rightarrow> returnPath) \<Rightarrow> bool" where
  "route_laws exec c route \<longleftrightarrow>
     (\<forall>s. route (snd (exec flush_cmd s)) = returnPathDirect) \<and>
     (\<forall>s. route (snd (exec (replace_cmd c) s)) =
        (if fst (exec (replace_cmd c) s) = None then returnPathTunnel else route s))"

definition never_fails :: "'s exec \<Rightarrow> command \<Rightarrow> bool" where
  "never_fails exec cmd \<longleftrightarrow> (\<forall>s. fst (exec cmd s) = None)"

lemma observe_path: "rpath (snd (observe ok r)) = fst (fst (observe ok r))"
  by (simp add: observe_def Let_def)

lemma observe_unchanged: "\<not> snd (fst (observe ok r)) \<Longrightarrow> rpath (snd (observe ok r)) = rpath r"
  by (auto simp: observe_def Let_def split: if_splits)

lemma observe_changed_path: "snd (fst (observe ok r)) \<Longrightarrow> fst (fst (observe ok r)) \<in> {returnPathDirect, returnPathTunnel}"
  by (auto simp: observe_def Let_def split: if_splits)

lemma follow_controller [simp]: "m_controller (follow exec c ok m) = snd (observe ok (m_controller m))"
  by (simp add: follow_def Let_def case_prod_beta)

definition in_step :: "('s \<Rightarrow> returnPath) \<Rightarrow> 's monitor \<Rightarrow> bool" where
  "in_step route m \<longleftrightarrow> route (m_host m) = rpath (m_controller m)"

lemma follow_in_step:
  assumes "route_laws exec c route" "never_fails exec (replace_cmd c)" "smart_active c" "in_step route m"
  shows "in_step route (follow exec c ok m)"
proof (cases "snd (fst (observe ok (m_controller m)))")
  case True
  then have "fst (fst (observe ok (m_controller m))) = returnPathDirect \<or> fst (fst (observe ok (m_controller m))) = returnPathTunnel"
    using observe_changed_path by blast
  then show ?thesis
    using True assms(1,2)
    by (auto simp: in_step_def follow_def Let_def case_prod_beta set_path_active [OF assms(3)] route_laws_def
        never_fails_def observe_path runCmd_def split: option.split)
next
  case False
  then show ?thesis using assms(4) by (simp add: in_step_def follow_def Let_def case_prod_beta observe_unchanged)
qed

lemma follow_failures:
  "rpath (m_controller m) = returnPathTunnel \<Longrightarrow>
     m_host (fold (follow exec c) (replicate k False) m) = m_host m \<and>
     rpath (m_controller (fold (follow exec c) (replicate k False) m)) = returnPathTunnel"
proof (induction k arbitrary: m)
  case (Suc k)
  have "m_host (follow exec c False m) = m_host m" "rpath (m_controller (follow exec c False m)) = returnPathTunnel"
    using Suc.prems by (simp_all add: follow_def observe_def)
  with Suc.IH [of "follow exec c False m"] show ?case by simp
qed simp

lemma snd_observe_run_snoc:
  "snd (observe_run (oks @ [ok]) r) = snd (observe ok (snd (observe_run oks r)))"
  by (induction oks arbitrary: r) (simp_all add: Let_def case_prod_beta)

text \<open>What every probe keeps: the controller has seen some sequence of outcomes, and the route
  follows it.\<close>

definition tracked :: "('s \<Rightarrow> returnPath) \<Rightarrow> returnPathController \<Rightarrow> 's monitor \<Rightarrow> bool" where
  "tracked route r0 m \<longleftrightarrow> (\<exists>oks. m_controller m = snd (observe_run oks r0)) \<and> in_step route m"

lemma follow_tracked:
  assumes "route_laws exec c route" "never_fails exec (replace_cmd c)" "smart_active c" "tracked route r0 m"
  shows "tracked route r0 (follow exec c ok m)"
  using assms follow_in_step [OF assms(1-3)] snd_observe_run_snoc
  by (auto simp: tracked_def) metis

lemma tracked_update [simp]:
  "tracked route r0 (m\<lparr>m_sock := pc\<rparr>) = tracked route r0 m"
  "tracked route r0 (m\<lparr>m_st := st\<rparr>) = tracked route r0 m"
  by (simp_all add: tracked_def in_step_def)

lemma probe_tracked:
  assumes "route_laws exec c route" "never_fails exec (replace_cmd c)" "smart_active c" "tracked route r0 m"
  shows "tracked route r0 (snd (probe exec c key rnd now waits m))"
  using assms(4) by (simp add: probe_def follow_tracked [OF assms(1-3)] split: option.split prod.split)

lemma monitor_loop_tracked:
  assumes "route_laws exec c route" "never_fails exec (replace_cmd c)" "smart_active c"
  shows "tracked route r0 m \<Longrightarrow> tracked route r0 (snd (monitor_loop exec c key es m))"
proof (induction es arbitrary: m)
  case (Cons e es)
  show ?case
  proof (cases e)
    case (Some t)
    have "tracked route r0 (snd (probe exec c key (tk_rnd t) (tk_now t) (tk_waits t) (m\<lparr>m_st := tk_others t (m_st m)\<rparr>)))"
      using Cons.prems by (intro probe_tracked assms) simp
    with Cons.IH show ?thesis by (auto simp: Some split: prod.split option.split)
  qed (simp add: Cons.prems)
qed simp

lemma monitor_loop_returns:
  "None \<in> set es \<Longrightarrow> (\<And>t. Some t \<in> set es \<Longrightarrow> list_ex ends_wait (tk_waits t)) \<Longrightarrow>
     fst (monitor_loop exec c key es m) = Some ()"
proof (induction es arbitrary: m)
  case (Cons e es)
  show ?case
  proof (cases e)
    case (Some t)
    have "fst (probe exec c key (tk_rnd t) (tk_now t) (tk_waits t) (m\<lparr>m_st := tk_others t (m_st m)\<rparr>)) = Some ()"
      using Cons.prems(2) Some by (intro probe_returns) simp
    with Cons Some show ?thesis by (auto split: prod.split option.split)
  qed simp
qed simp

subsection \<open>A concrete host\<close>

definition sim_route :: "Config \<Rightarrow> returnPath exec" where
  "sim_route c cmd s =
     (if cmd = flush_cmd then (None, returnPathDirect)
      else if cmd = replace_cmd c then (None, returnPathTunnel) else (None, s))"

lemma sim_route_laws: "route_laws (sim_route c) c id" "never_fails (sim_route c) (replace_cmd c)"
  by (simp_all add: route_laws_def never_fails_def sim_route_def flush_cmd_def replace_cmd_def)

lemma demo_smart_active [simp]: "smart_active (demo_config typ t)"
  by (simp add: smart_active_def demo_config_def applySmartReturnDefaults_def zero_smart_return_def)

definition demo_listen :: "string \<Rightarrow> carrier_error + udp_conn" where
  "demo_listen = listenMarkedPacket \<lparr>so_control = None, so_setsockopt = None, so_listen = None\<rparr> [] []"

definition demo_tick :: tick where
  "demo_tick = \<lparr>tk_others = id, tk_rnd = Some (replicate 16 5), tk_now = demo_now, tk_waits = [TimerFired]\<rparr>"

definition demo_monitor :: "returnPath monitor" where
  "demo_monitor = \<lparr>m_controller = newReturnPathController 1 3, m_sock = u_conn (demo_udp []), m_st = init_state,
     m_host = returnPathDirect\<rparr>"

definition demo_probe :: bytes where
  "demo_probe = fst (the (makeDirectProbe [] (Some (replicate 16 5)) demo_now))"

lemma demo_probe_made: "makeDirectProbe [] (Some (replicate 16 5)) demo_now = Some (demo_probe, replicate 16 5)"
  by (simp add: demo_probe_def makeDirectProbe_eq)

lemma demo_clock: "clock_ok demo_now"
  "unix_sec demo_now * second - 90 * second \<le> wall demo_now" "wall demo_now \<le> unix_sec demo_now * second + 90 * second"
  using unix_sec_round [of demo_now] by (simp_all add: clock_ok_def second_def)

lemma demo_source:
  "IP_Equal (ip_bytes (Some [192, 0, 2, 7])) (ip_bytes (ParseIP (ForeignPublicIP (Network (demo_config ''udp'' 25)))))"
proof -
  have "ParseIP ''192.0.2.7'' = Some (v4prefix @ [192, 0, 2, 7])" by code_simp
  then show ?thesis by (simp add: demo_config_def IP_Equal_def ip_bytes_def v4prefix_def)
qed

lemma demo_verified: "verifyDirectProbe [] demo_probe demo_now = Some (replicate 16 5)"
proof -
  have "in_time (word_of_int (unix_sec demo_now)) demo_now" using demo_clock by (simp only: in_time_made simp_thms)
  then show ?thesis
    using demo_probe_made verify_body [of "replicate 16 5" "[]" "word_of_int (unix_sec demo_now)" demo_now]
    by (auto simp: makeDirectProbe_eq)
qed

subsection \<open>Properties\<close>

text \<open>C25: only genuine probes are answered. When handling a datagram changes anything, the datagram came
  from the configured Kharej address, it is the magic, a timestamp within 90 seconds of the clock and
  a 16-byte nonce, authenticated by the HMAC under the shared key, and the answer is the encrypted
  acknowledgement of that very nonce on the current session.\<close>

theorem probe_reply_authentic:
  assumes "probe_reply ops c key b peer now n \<noteq> n"
  shows "IP_Equal (ip_bytes (fst peer)) (ip_bytes (ParseIP (ForeignPublicIP (Network c)))) \<and>
    (\<exists>ts nonce i. length nonce = 16 \<and> b = probe_body ts nonce @ hmac_sha256 key (probe_body ts nonce) \<and>
       in_time ts now \<and> st_session (n_st n) = Some i \<and>
       probe_reply ops c key b peer now n = snd (sendEncrypted ops i msgDirectProbeAck nonce n))"
proof -
  obtain nonce i where "IP_Equal (ip_bytes (fst peer)) (ip_bytes (ParseIP (ForeignPublicIP (Network c))))"
    "verifyDirectProbe key b now = Some nonce" "st_session (n_st n) = Some i"
    using assms by (auto simp: probe_reply_def loadSession_def split: if_splits option.splits)
  with verify_SomeD probe_reply_eq show ?thesis by blast
qed

theorem probe_reply_authentic_witness:
  "\<exists>ts nonce i. length nonce = 16 \<and> demo_probe = probe_body ts nonce @ hmac_sha256 [] (probe_body ts nonce) \<and>
     in_time ts demo_now \<and> st_session (n_st (demo_node True)) = Some i \<and>
     probe_reply capture_ops (demo_config ''udp'' 25) [] demo_probe (Some [192, 0, 2, 7], 5) demo_now (demo_node True)
       = snd (sendEncrypted capture_ops i msgDirectProbeAck nonce (demo_node True))"
proof -
  let ?n = "probe_reply capture_ops (demo_config ''udp'' 25) [] demo_probe (Some [192, 0, 2, 7], 5) demo_now (demo_node True)"
  have "?n = snd (sendEncrypted capture_ops 0 msgDirectProbeAck (replicate 16 5) (demo_node True))"
    using demo_source by (intro probe_reply_eq demo_verified) simp_all
  then have "n_carrier ?n \<noteq> n_carrier (demo_node True)"
    by (simp add: sendEncrypted_eq Let_def case_prod_beta)
  then have "?n \<noteq> demo_node True" by metis
  from probe_reply_authentic [OF this] show ?thesis by blast
qed

text \<open>C24: a healthy direct path is seen as healthy. A probe that Iran receives from Kharej's address with
  its clock within 90 seconds is acknowledged with one packet; when that packet reaches Kharej while
  the monitor waits, and the acknowledgement queue was empty, the wait ends with success.\<close>

theorem healthy_path_observed:
  assumes made: "makeDirectProbe key (Some nonce) t0 = Some (packet, nonce)" "length nonce = 16" "clock_ok t0"
    and clock: "unix_sec t0 * second - 90 * second \<le> wall now" "wall now \<le> unix_sec t0 * second + 90 * second"
    and peer: "IP_Equal (ip_bytes (fst src)) (ip_bytes (ParseIP (ForeignPublicIP (Network c))))"
    and iran: "st_session (n_st a) = Some i" "heap (n_st a) i = Some s"
    and kharej: "st_session (n_st b) = Some j" "heap (n_st b) j = Some r" "wf_state (n_st b)" "probeAck (n_st b) = Some []"
    and keys: "rxAEAD r = txAEAD s" "fst (accept (s_tx s + 1) (s_replay r))"
  shows "\<exists>p. n_carrier (probe_reply ops c key packet src now a) = snd (WritePacket ops p (s_peer s) (n_carrier a)) \<and>
    fst (waitProbeAck nonce [Others (\<lambda>st. n_st (handleEncrypted tw (s_peer r) p later (b\<lparr>n_st := st\<rparr>))), Received] (n_st b))
      = Some True"
proof (intro exI conjI)
  let ?p = "packet_of (txAEAD s) msgDirectProbeAck (s_tx s + 1) nonce"
  have "verifyDirectProbe key packet now = Some nonce"
    using made clock by (auto simp: makeDirectProbe_eq verify_body in_time_made)
  then show "n_carrier (probe_reply ops c key packet src now a) = snd (WritePacket ops ?p (s_peer s) (n_carrier a))"
    using iran by (simp add: probe_reply_eq [OF peer] sendEncrypted_eq Let_def case_prod_beta)
  have rx: "receives b (s_peer r) ?p = Some (j, s_tx s + 1, nonce)"
    using receives_packet_of [OF kharej(1,2) _ keys(2)] wf_state_heap [OF kharej(3,2)] keys(1) by simp
  have "initProbeAck (n_st b) = n_st b" using kharej(4) by (simp add: initProbeAck_def)
  moreover have "probeAck (n_st (handleEncrypted tw (s_peer r) ?p later (b\<lparr>n_st := n_st b\<rparr>))) = Some [nonce]"
    using kharej(4) made(2)
    by (simp add: handleEncrypted_receive [OF rx] ack_not_data notifyProbeAck_def probe_cap_def update_session_def update_metrics_def)
  ultimately show "fst (waitProbeAck nonce [Others (\<lambda>st. n_st (handleEncrypted tw (s_peer r) ?p later (b\<lparr>n_st := st\<rparr>))), Received] (n_st b))
      = Some True"
    by (simp add: waitProbeAck_def)
qed

theorem healthy_path_observed_witness:
  "\<exists>p. n_carrier (probe_reply capture_ops (demo_config ''udp'' 25) [] demo_probe (Some [192, 0, 2, 7], 5) demo_now (demo_node True))
      = [(p, ''peer'')] \<and>
    fst (waitProbeAck (replicate 16 5)
      [Others (\<lambda>st. n_st (handleEncrypted tun_log ''peer'' p demo_now ((demo_node False)\<lparr>n_st := st\<rparr>))), Received]
      (initProbeAck (n_st (demo_node False)))) = Some True"
proof -
  let ?b = "(demo_node False)\<lparr>n_st := initProbeAck (n_st (demo_node False))\<rparr>"
  have i: "initProbeAck (n_st (demo_node False)) = (n_st (demo_node False))\<lparr>probeAck := Some []\<rparr>"
    by (simp add: initProbeAck_def demo_node_def init_state_def)
  have b: "st_session (n_st ?b) = Some 0" "heap (n_st ?b) 0 = Some (demo_session False)" "wf_state (n_st ?b)"
    "probeAck (n_st ?b) = Some []"
    using wf_initProbeAck [OF demo_node_wf, of False] by (simp_all add: i)
  have "n_carrier (demo_node True) = []" by (simp add: demo_node_def)
  with healthy_path_observed [OF demo_probe_made _ demo_clock, of "(Some [192, 0, 2, 7], 5)" "demo_config ''udp'' 25" "demo_node True" 0
      "demo_session True" ?b 0 "demo_session False" capture_ops tun_log demo_now] demo_source b
  show ?thesis by simp
qed

text \<open>The monitor never hangs: when each wait is ended by its timer or by the context, and the
  context ends, the goroutine returns and has closed its socket, whatever acknowledgements arrive.\<close>

lemma monitor_returns:
  assumes "smart_active c" "listen (JoinHostPort (PublicIP (Network c)) ''0'') = Inr pc"
    and "None \<in> set es" "\<And>t. Some t \<in> set (Some first # es) \<Longrightarrow> list_ex ends_wait (tk_waits t)"
  shows "\<exists>m. runDirectProbeMonitor exec c key listen first es st host = (Some (), Some m, m_st m, m_host m) \<and>
    uc_closed (m_sock m)"
proof -
  have "fst (monitor_loop exec c key (Some first # es) m) = Some ()" for m
    using assms(3,4) by (intro monitor_loop_returns) auto
  then show ?thesis
    using assms(1,2)
    by (simp add: runDirectProbeMonitor_def smart_active_def CloseUDP_def Let_def case_prod_beta del: monitor_loop.simps)
qed



text \<open>C27: a failed switch is not repeated. If the route replacement fails when the controller gives up the
  direct path, the controller is on the tunnel path although the route is not installed, and no
  number of further failed probes runs another command.\<close>

theorem failed_switch_not_retried:
  assumes "smart_active c" "rpath (m_controller m) = returnPathDirect"
    and "failThreshold (m_controller m) \<le> failures (m_controller m) + 1"
    and "exec (replace_cmd c) (m_host m) = (Some err, host')"
  shows "m_host (fold (follow exec c) (False # replicate k False) m) = host' \<and>
    rpath (m_controller (fold (follow exec c) (False # replicate k False) m)) = returnPathTunnel"
proof -
  have "m_host (follow exec c False m) = host' \<and> rpath (m_controller (follow exec c False m)) = returnPathTunnel"
    using assms(2-4) by (simp add: follow_def Let_def observe_def set_path_active [OF assms(1)] runCmd_def)
  with follow_failures [of "follow exec c False m" exec c k] show ?thesis by simp
qed

theorem failed_switch_not_retried_witness:
  "m_host (fold (follow (\<lambda>cmd s. (Some ''RTNETLINK answers: Operation not permitted'', s)) (demo_config ''udp'' 25))
      (False # replicate 100 False) demo_monitor) = returnPathDirect"
  using failed_switch_not_retried [of "demo_config ''udp'' 25" "demo_monitor"
      "\<lambda>cmd s. (Some ''RTNETLINK answers: Operation not permitted'', s)" _ _ 100]
  by (simp add: demo_monitor_def newReturnPathController_def)

end
