(* ===== verification/Workers.thy ===== *)
theory Workers
  imports Interleaving Supervision Carriers Probe_Health
begin

text \<open>
  A whole node: the configured carrier, the TUN device and the shared state, driven by the
  goroutines that \<open>run\<close> starts. \<open>worker_turn\<close> is one turn of one of them, between two points at which
  it blocks; any sequence of turns is a possible execution. The invariant of the node is kept by
  every turn, and every turn is a sequence of the atomic operations of the theory
  \<open>Interleaving\<close>.
\<close>

type_synonym daemon_node = "(carrier, tunDevice \<times> tun_kernel) node"

definition tun_writer :: "bytes \<Rightarrow> tunDevice \<times> tun_kernel \<Rightarrow> tunDevice \<times> tun_kernel" where
  "tun_writer p tk = snd (tun_Write p tk)"

inductive worker_turn :: "resolver \<Rightarrow> Config \<Rightarrow> bytes \<Rightarrow> daemon_node \<Rightarrow> daemon_node \<Rightarrow> bool" for res c key where
  receive: "worker_turn res c key n (snd (recvLoop (carrier_ops res) tun_writer key (Role c)
      [\<lparr>re_others = id, re_ctx_err = cancelled, re_now = now, re_rnd = rnd\<rparr>] n))"
| tun_read: "n_tun n = (t, k) \<Longrightarrow> ReadQueue q 65535 t k = (r, k') \<Longrightarrow>
    worker_turn res c key n (snd (tunSendLoop (carrier_ops res) q
      [\<lparr>te_others = id, te_read = r, te_ctx_err = cancelled\<rparr>] (n\<lparr>n_tun := (t, k')\<rparr>)))"
| keepalive: "worker_turn res c key n (send_keepalive (carrier_ops res) n)"
| server: "worker_turn res c key n (server_tick (carrier_ops res) c now n)"
| hello: "worker_turn res c key n (snd (write_packet (carrier_ops res) (makeHello key cn now)
      (DefaultPeer (carrier_ops res) (n_carrier n)) (on_state (\<lambda>st. st\<lparr>pending := cn, pendingSet := True\<rparr>) n)))"
| hello_again: "worker_turn res c key n (snd (write_packet (carrier_ops res) h peer n))"
| hello_over: "worker_turn res c key n (on_state (disarm cn) n)"
| respond: "worker_turn res c key n (probe_reply (carrier_ops res) c key b peer now n)"
| await: "worker_turn res c key n (on_state initProbeAck n)"
| await_more: "worker_turn res c key n (on_state (\<lambda>st. snd (wait_loop nonce [e] st)) n)" if "\<And>f. e \<noteq> Others f"

inductive_cases worker_turnE: "worker_turn res c key n n'"

inductive worker_turns :: "resolver \<Rightarrow> Config \<Rightarrow> bytes \<Rightarrow> daemon_node \<Rightarrow> daemon_node \<Rightarrow> bool" for res c key where
  idle: "worker_turns res c key n n"
| turn: "worker_turns res c key n n1 \<Longrightarrow> worker_turn res c key n1 n2 \<Longrightarrow> worker_turns res c key n n2"

subsection \<open>The node's invariant\<close>

text \<open>The device keeps the queues \<open>qs\<close> it was opened with, they are open files, and no other file of the
  kernel is opened or closed.\<close>

definition device_inv :: "nat list \<Rightarrow> nat set \<Rightarrow> tunDevice \<times> tun_kernel \<Rightarrow> bool" where
  "device_inv qs files tk \<longleftrightarrow> tun_ok tk \<and> t_queues (fst tk) = qs \<and> open_files (snd tk) = files"

lemma tun_writer_inv: "device_inv qs files tk \<Longrightarrow> device_inv qs files (tun_writer p tk)"
  using tun_Write_ok [of tk p]
  by (cases tk) (simp add: device_inv_def tun_writer_def tun_Write_def Let_def case_prod_beta on_file_open)

lemma ReadQueue_inv:
  assumes "device_inv qs files (t, k)" "ReadQueue q len t k = (r, k')"
  shows "device_inv qs files (t, k')"
proof -
  have "open_files (snd (ReadQueue q len t k)) = open_files k" by (simp add: ReadQueue_def on_file_open)
  then have "open_files k' = open_files k" using assms(2) by simp
  then show ?thesis using assms ReadQueue_ok [of t k q len] by (simp add: device_inv_def)
qed

lemma handleHello_tun [simp]: "n_tun (handleHello ops peer p key now rnd n) = n_tun n"
  by (auto simp: handleHello_def Let_def case_prod_beta split: option.split sum.split)

lemma sendEncrypted_tun [simp]: "n_tun (snd (sendEncrypted ops i typ pl n)) = n_tun n"
  by (cases "heap (n_st n) i") (simp_all add: sendEncrypted_eq Let_def case_prod_beta, simp add: sendEncrypted_def)

lemma tun_send_step_tun [simp]: "n_tun (tun_send_step ops p n) = n_tun n"
  by (simp add: tun_send_step_def split: option.split)

lemma recv_dispatch_inv:
  assumes "device_inv qs files (n_tun n)"
  shows "device_inv qs files (n_tun (recv_dispatch ops tun_writer key role peer b now rnd n))"
  using assms
  by (auto simp: recv_dispatch_def handleEncrypted_tun tun_writer_inv split: option.split prod.split)

definition node_inv :: "nat list \<Rightarrow> nat set \<Rightarrow> daemon_node \<Rightarrow> bool" where
  "node_inv qs files n \<longleftrightarrow> wf_state (n_st n) \<and> device_inv qs files (n_tun n)"

lemma wait_loop_wf: "(\<And>f. e \<noteq> Others f) \<Longrightarrow> wf_state st \<Longrightarrow> wf_state (snd (wait_loop nonce [e] st))"
  by (cases e) (auto simp: wf_state_def Let_def split: option.split list.split)

lemma wait_loop_keeps:
  "(\<And>f. e \<noteq> Others f) \<Longrightarrow> heap (snd (wait_loop nonce [e] st)) = heap st \<and> next_sid (snd (wait_loop nonce [e] st)) = next_sid st"
  by (cases e) (auto simp: Let_def split: option.split list.split)

lemma recv_turn:
  "snd (recvLoop ops tw key role [\<lparr>re_others = id, re_ctx_err = cancelled, re_now = now, re_rnd = rnd\<rparr>] n) =
     (case ReadPacket ops maxCarrierFrame (n_carrier n) of
        (Inl err, car) \<Rightarrow> n\<lparr>n_carrier := car\<rparr>
      | (Inr (b, peer), car) \<Rightarrow> recv_dispatch ops tw key role peer b now rnd (n\<lparr>n_carrier := car\<rparr>))"
  by (simp add: Let_def split: prod.split sum.split)

lemma worker_turn_inv:
  assumes "worker_turn res c key n n'" "node_inv qs files n"
  shows "node_inv qs files n'"
  using assms
proof (induction rule: worker_turn.induct)
  case (receive n cancelled now rnd)
  then show ?case
    unfolding recv_turn by (auto simp: node_inv_def recv_dispatch_wf recv_dispatch_inv split: prod.split sum.split)
next
  case (tun_read n t k q r k' cancelled)
  then have "device_inv qs files (t, k')" "wf_state (n_st n)" by (auto simp: node_inv_def intro: ReadQueue_inv)
  then show ?case
    by (auto simp: node_inv_def tun_send_step_wf Let_def split: sum.split)
next
  case (await n)
  then show ?case by (simp add: node_inv_def wf_initProbeAck)
next
  case (await_more e n nonce)
  then show ?case by (simp add: node_inv_def wait_loop_wf del: wait_loop.simps)
qed (auto simp: node_inv_def sendEncrypted_wf wf_clearIf disarm_wf send_keepalive_def server_tick_def probe_reply_def
    split: option.split)

lemma worker_turns_inv: "worker_turns res c key n n' \<Longrightarrow> node_inv qs files n \<Longrightarrow> node_inv qs files n'"
  by (induction rule: worker_turns.induct) (auto intro: worker_turn_inv)

subsection \<open>Turns are sequences of atomic operations\<close>

lemma maybe_send_atomics:
  "\<exists>ls. atomics key (n_st n) ls (n_st (snd (sendEncrypted ops i typ pl n)))"
proof (cases "heap (n_st n) i")
  case None
  then have "snd (sendEncrypted ops i typ pl n) = n" by (simp add: sendEncrypted_def)
  then show ?thesis using atomics.none by metis
next
  case (Some s)
  from sendEncrypted_atomics [OF this] show ?thesis by blast
qed

lemma recv_dispatch_atomics: "\<exists>ls. atomics key (n_st n) ls (n_st (recv_dispatch ops tw key role peer b now rnd n))"
  using handleHello_atomics [of key n ops peer b now rnd] handleHelloAck_atomics [of key "n_st n" peer b now]
    handleEncrypted_atomics [of key n peer b tw now] atomics.none [of key "n_st n"]
  unfolding recv_dispatch_def by (simp split: if_split) blast

lemma atomics_stutter: "heap st' = heap st \<Longrightarrow> next_sid st' = next_sid st \<Longrightarrow> \<exists>ls. atomics key st ls st'"
  using atomics_other by blast

lemma worker_turn_atomics:
  assumes "worker_turn res c key n n'"
  shows "\<exists>ls. atomics key (n_st n) ls (n_st n')"
  using assms
proof (induction rule: worker_turn.induct)
  case (receive n cancelled now rnd)
  have "\<exists>ls. atomics key (n_st n) ls (n_st (recv_dispatch (carrier_ops res) tun_writer key (Role c) peer b now rnd (n\<lparr>n_carrier := car\<rparr>)))"
    for b peer car
    using recv_dispatch_atomics [of key "n\<lparr>n_carrier := car\<rparr>"] by simp
  with atomics.none [of key "n_st n"] show ?case
    unfolding recv_turn by (auto split: prod.split sum.split)
next
  case (tun_read n t k q r k' cancelled)
  have s: "\<exists>ls. atomics key (n_st n) ls (n_st (snd (sendEncrypted (carrier_ops res) i msgData p (n\<lparr>n_tun := (t, k')\<rparr>))))" for i p
    using maybe_send_atomics [of key "n\<lparr>n_tun := (t, k')\<rparr>" "carrier_ops res"] by simp
  have m: "\<exists>ls. atomics key (n_st n) ls (update_metrics f (n_st n))" for f
    by (intro atomics_stutter) (simp_all add: update_metrics_def)
  show ?case
    using s m atomics.none [of key "n_st n"] by (auto simp: tun_send_step_def Let_def split: sum.split option.split)
next
  case (keepalive n)
  show ?case using maybe_send_atomics [of key n "carrier_ops res"] atomics.none [of key "n_st n"]
    by (auto simp: send_keepalive_def split: option.split)
next
  case (server n now)
  show ?case using maybe_send_atomics [of key n "carrier_ops res"] atomics.none [of key "n_st n"]
    by (auto simp: server_tick_def clearIf_def intro: atomics_stutter split: option.split)
next
  case (respond n b peer now)
  show ?case using maybe_send_atomics [of key n "carrier_ops res"] atomics.none [of key "n_st n"]
    by (auto simp: probe_reply_def split: option.split)
next
  case (hello_over n cn)
  show ?case by (intro atomics_stutter) (simp_all add: disarm_def)
next
  case (await n)
  show ?case by (intro atomics_stutter) (simp_all add: initProbeAck_def)
next
  case (await_more e n nonce)
  then show ?case by (intro atomics_stutter) (simp_all add: wait_loop_keeps del: wait_loop.simps)
qed (auto intro!: atomics_stutter)

lemma worker_turns_atomics: "worker_turns res c key n n' \<Longrightarrow> \<exists>ls. atomics key (n_st n) ls (n_st n')"
proof (induction rule: worker_turns.induct)
  case (idle n)
  then show ?case using atomics.none by blast
next
  case (turn n n1 n2)
  then show ?case using worker_turn_atomics atomics_trans by blast
qed

subsection \<open>The first state\<close>

text \<open>The node at the moment the goroutines are started.\<close>

definition start_node :: "Config \<Rightarrow> carrier \<Rightarrow> tunDevice \<times> tun_kernel \<Rightarrow> daemon_node" where
  "start_node c car tk =
     \<lparr>n_st = (if Enabled (SmartReturn c) then initProbeAck init_state else init_state),
      n_carrier = car, n_tun = tk, n_pool = []\<rparr>"

lemma start_node_inv: "tun_ok tk \<Longrightarrow> node_inv (t_queues (fst tk)) (open_files (snd tk)) (start_node c car tk)"
  by (simp add: node_inv_def start_node_def device_inv_def wf_initProbeAck)

lemma start_node_log: "log_inv [] (n_st (start_node c car tk))"
  using log_inv_init by (simp add: start_node_def initProbeAck_def log_inv_def init_state_def)

end
