(* ===== verification/Scheduler.thy ===== *)
theory Scheduler
  imports Workers
begin

text \<open>
  The goroutines of \<open>run\<close> under a scheduler (\<open>main.go\<close>). Every goroutine has a control state, the point
  at which it blocks with its local variables (\<open>thread\<close>); the daemon is the node, the host, the
  cancellation of the context, the channel \<open>errCh\<close> and the list of control states (\<open>daemon\<close>). A
  schedule is any sequence of signals and wake-ups of goroutines; a wake-up carries the clock readings
  and random bytes the goroutine gets and the case its \<open>select\<close> takes. A goroutine whose case is not
  ready stays where it is. What a wake-up does is the body of the loops of the theories \<open>Supervisor\<close>
  and \<open>Direct_Probe\<close>, applied to one event.
\<close>

subsection \<open>Goroutines\<close>

datatype goroutine =
    RecvLoop
  | ClientSupervisor
  | ServerSupervisor
  | ProbeResponder
  | ProbeMonitor
  | StatsLoop
  | TunSendLoop int

definition recvWorkers :: "Config \<Rightarrow> int" where
  "recvWorkers c = (if t_Type (c_Transport c) = ''udp'' then ReceiveWorkers (c_Performance c) else 1)"

definition goroutines :: "Config \<Rightarrow> int \<Rightarrow> goroutine list" where
  "goroutines c queues =
     replicate (nat (recvWorkers c)) RecvLoop @
     (if Role c = ''iran''
      then ClientSupervisor # (if Enabled (SmartReturn c) then [ProbeResponder] else [])
      else ServerSupervisor # (if Enabled (SmartReturn c) then [ProbeMonitor] else [])) @
     [StatsLoop] @ map TunSendLoop [0..queues - 1]"

text \<open>The local variables of \<open>handshakeClient\<close> while it waits.\<close>

record hello_wait =
  hw_peer :: string
  hw_cn :: bytes
  hw_hello :: bytes
  hw_started :: instant

datatype thread =
    RecvRead
  | ClientHead
  | ClientAwait hello_wait
  | ClientSelect
  | ServerSelect
  | ResponderStart
  | ResponderRead udp_conn
  | MonitorStart
  | MonitorAwait returnPathController udp_conn bytes
  | MonitorSelect returnPathController udp_conn
  | StatsSelect "u64 \<times> u64"
  | TunReading int
  | Returned

primrec entry_point :: "goroutine \<Rightarrow> thread" where
  "entry_point RecvLoop = RecvRead"
| "entry_point ClientSupervisor = ClientHead"
| "entry_point ServerSupervisor = ServerSelect"
| "entry_point ProbeResponder = ResponderStart"
| "entry_point ProbeMonitor = MonitorStart"
| "entry_point StatsLoop = StatsSelect (0, 0)"
| "entry_point (TunSendLoop q) = TunReading q"

datatype select_case = OnDone | OnTimer | OnPoll | OnChannel

record wake =
  wk_case :: select_case
  wk_now :: instant
  wk_hello_at :: instant
  wk_started :: instant
  wk_rnd :: "bytes option"
  wk_listen :: "string \<Rightarrow> carrier_error + udp_conn"
  wk_file :: "string \<Rightarrow> string option"

text \<open>What the closures started by \<open>run\<close> capture.\<close>

record 's closure =
  g_exec :: "'s exec"
  g_res :: resolver
  g_unicode :: unicode
  g_config :: Config
  g_key :: bytes

record 's daemon =
  d_node :: daemon_node
  d_host :: 's
  d_cancelled :: bool
  d_errCh :: "tun_error option"
  d_stats :: "stats_line list"
  d_threads :: "thread list"

subsection \<open>Blocking reads\<close>

text \<open>A read blocks as long as its socket or file is open and no outcome is left for it. A stream
  connection ends when its input does, so a stream carrier's read always returns in the end.\<close>

definition udp_blocks :: "udp_conn \<Rightarrow> bool" where
  "udp_blocks u \<longleftrightarrow> \<not> uc_closed u \<and> uc_reads u = []"

definition carrier_blocks :: "carrier \<Rightarrow> bool" where
  "carrier_blocks car = (case car of UDP u \<Rightarrow> udp_blocks (u_conn u) | _ \<Rightarrow> False)"

definition tun_blocks :: "int \<Rightarrow> tunDevice \<times> tun_kernel \<Rightarrow> bool" where
  "tun_blocks q tk \<longleftrightarrow>
     0 \<le> q \<and> q < QueueCount (fst tk) \<and>
     (let f = tk_files (snd tk) ! (t_queues (fst tk) ! nat q) in \<not> tf_closed f \<and> tf_reads f = [])"

subsection \<open>Wake-ups\<close>

definition recv_wake :: "'s closure \<Rightarrow> bool \<Rightarrow> wake \<Rightarrow> daemon_node \<Rightarrow> thread \<times> daemon_node" where
  "recv_wake g cancelled w n =
     (if carrier_blocks (n_carrier n) then (RecvRead, n)
      else case recvLoop (carrier_ops (g_res g)) tun_writer (g_key g) (Role (g_config g))
             [\<lparr>re_others = id, re_ctx_err = cancelled, re_now = wk_now w, re_rnd = wk_rnd w\<rparr>] n of
        (None, n) \<Rightarrow> (RecvRead, n)
      | (Some _, n) \<Rightarrow> (Returned, n))"

definition tun_wake :: "'s closure \<Rightarrow> bool \<Rightarrow> int \<Rightarrow> daemon_node \<Rightarrow> (thread \<times> tun_error option) \<times> daemon_node" where
  "tun_wake g cancelled q n =
     (if tun_blocks q (n_tun n) then ((TunReading q, None), n)
      else
        (let (t, k) = n_tun n; (r, k) = ReadQueue q 65535 t k
         in case tunSendLoop (carrier_ops (g_res g)) q [\<lparr>te_others = id, te_read = r, te_ctx_err = cancelled\<rparr>]
                   (n\<lparr>n_tun := (t, k)\<rparr>) of
              (None, n) \<Rightarrow> ((TunReading q, None), n)
            | (Some err, n) \<Rightarrow> ((Returned, if cancelled then None else err), n)))"

text \<open>The head of the client's loop: a handshake is begun when one is needed.\<close>

definition client_wake :: "'s closure \<Rightarrow> wake \<Rightarrow> daemon_node \<Rightarrow> thread \<times> daemon_node" where
  "client_wake g w n =
     (if \<not> needHandshake (g_config g) (wk_now w) (n_st n) then (ClientSelect, n)
      else
        (let ops = carrier_ops (g_res g); peer = DefaultPeer ops (n_carrier n)
         in case handshakeClient ops peer (g_key g) (wk_rnd w) (wk_hello_at w) (wk_started w) [] n of
              (Some _, n) \<Rightarrow> (ClientSelect, n)
            | (None, n) \<Rightarrow>
                (let cn = the (wk_rnd w)
                 in (ClientAwait \<lparr>hw_peer = peer, hw_cn = cn, hw_hello = makeHello (g_key g) cn (wk_hello_at w),
                       hw_started = wk_started w\<rparr>, n))))"

text \<open>One turn of the \<open>select\<close> of \<open>handshakeClient\<close>; its context ends after six seconds or with the
  daemon's.\<close>

definition handshake_select ::
  "'c packetCarrier \<Rightarrow> hello_wait \<Rightarrow> select_event \<Rightarrow> ('c, 't) node \<Rightarrow> handshake_error option option \<times> ('c, 't) node" where
  "handshake_select ops h e n =
     (case e of
        CtxIsDone \<Rightarrow> (Some (Some DeadlineExceeded), n)
      | Retry \<Rightarrow>
          (case write_packet ops (hw_hello h) (hw_peer h) n of
             (Some err, n) \<Rightarrow> (Some (Some (WriteFailed err)), n)
           | (None, n) \<Rightarrow> handshake_loop ops (hw_peer h) (hw_hello h) (hw_started h) [] n)
      | Poll \<Rightarrow> handshake_loop ops (hw_peer h) (hw_hello h) (hw_started h) [] n)"

definition hello_wake :: "'s closure \<Rightarrow> wake \<Rightarrow> hello_wait \<Rightarrow> daemon_node \<Rightarrow> thread \<times> daemon_node" where
  "hello_wake g w h n =
     (let turn = (\<lambda>e. case on_return (hw_cn h) (handshake_select (carrier_ops (g_res g)) h e n) of
                        (None, n) \<Rightarrow> (ClientAwait h, n)
                      | (Some _, n) \<Rightarrow> (ClientSelect, n))
      in case wk_case w of
           OnDone \<Rightarrow> turn CtxIsDone
         | OnTimer \<Rightarrow> turn Retry
         | OnPoll \<Rightarrow> turn Poll
         | OnChannel \<Rightarrow> (ClientAwait h, n))"

definition responder_wake :: "'s closure \<Rightarrow> wake \<Rightarrow> udp_conn \<Rightarrow> daemon_node \<Rightarrow> thread \<times> daemon_node" where
  "responder_wake g w pc n =
     (if udp_blocks pc then (ResponderRead pc, n)
      else case responder_loop (carrier_ops (g_res g)) (g_config g) (g_key g) [(id, wk_now w)] pc n of
        (None, pc, n) \<Rightarrow> (ResponderRead pc, n)
      | (Some _, pc, n) \<Rightarrow> (Returned, n))"

definition responder_start :: "'s closure \<Rightarrow> wake \<Rightarrow> daemon_node \<Rightarrow> thread \<times> daemon_node" where
  "responder_start g w n =
     (case runDirectProbeResponder (carrier_ops (g_res g)) (g_config g) (g_key g) (wk_listen w) [] n of
        (None, Some pc, n) \<Rightarrow> (ResponderRead pc, n)
      | (_, _, n) \<Rightarrow> (Returned, n))"

text \<open>A probe up to the point where it waits for its acknowledgement, and a turn of that wait. The
  monitor works on the node's shared state and on the host.\<close>

definition probe_begin :: "'s closure \<Rightarrow> wake \<Rightarrow> 's monitor \<Rightarrow> thread \<times> 's monitor" where
  "probe_begin g w m =
     (case probe (g_exec g) (g_config g) (g_key g) (wk_rnd w) (wk_now w) [] m of
        (Some _, m) \<Rightarrow> (MonitorSelect (m_controller m) (m_sock m), m)
      | (None, m) \<Rightarrow> (MonitorAwait (m_controller m) (m_sock m) (the (wk_rnd w)), m))"

definition probe_wait :: "'s closure \<Rightarrow> wait_event \<Rightarrow> bytes \<Rightarrow> 's monitor \<Rightarrow> thread \<times> 's monitor" where
  "probe_wait g e nonce m =
     (case wait_loop nonce [e] (m_st m) of
        (None, st) \<Rightarrow> (MonitorAwait (m_controller m) (m_sock m) nonce, m\<lparr>m_st := st\<rparr>)
      | (Some ok, st) \<Rightarrow>
          (let m = follow (g_exec g) (g_config g) ok (m\<lparr>m_st := st\<rparr>) in (MonitorSelect (m_controller m) (m_sock m), m)))"

definition monitor_start :: "'s closure \<Rightarrow> wake \<Rightarrow> tunnelState \<Rightarrow> 's \<Rightarrow> thread \<times> tunnelState \<times> 's" where
  "monitor_start g w st host =
     (let c = g_config g
      in if \<not> Enabled (SmartReturn c) \<or> Mode c \<noteq> ''direct-return'' \<or> Role c \<noteq> ''kharej'' then (Returned, st, host)
         else case wk_listen w (JoinHostPort (PublicIP (Network c)) ''0'') of
           Inl _ \<Rightarrow> (Returned, st, host)
         | Inr pc \<Rightarrow>
             (let host = snd (setKharejReturnPath (g_exec g) c returnPathDirect host);
                  (t, m) = probe_begin g w
                    \<lparr>m_controller = newReturnPathController (FailThreshold (SmartReturn c)) (RecoverThreshold (SmartReturn c)),
                     m_sock = pc, m_st = st, m_host = host\<rparr>
              in (t, m_st m, m_host m)))"

definition on_monitor :: "('s monitor \<Rightarrow> thread \<times> 's monitor) \<Rightarrow> returnPathController \<Rightarrow> udp_conn \<Rightarrow> tunnelState \<Rightarrow> 's \<Rightarrow>
    thread \<times> tunnelState \<times> 's" where
  "on_monitor f ctl pc st host =
     (let (t, m) = f \<lparr>m_controller = ctl, m_sock = pc, m_st = st, m_host = host\<rparr> in (t, m_st m, m_host m))"

definition monitor_wake :: "'s closure \<Rightarrow> bool \<Rightarrow> wake \<Rightarrow> thread \<Rightarrow> tunnelState \<Rightarrow> 's \<Rightarrow> thread \<times> tunnelState \<times> 's" where
  "monitor_wake g cancelled w t st host =
     (case t of
        MonitorStart \<Rightarrow> monitor_start g w st host
      | MonitorAwait ctl pc nonce \<Rightarrow>
          (case wk_case w of
             OnDone \<Rightarrow> if cancelled then on_monitor (probe_wait g CtxDone nonce) ctl pc st host else (t, st, host)
           | OnTimer \<Rightarrow> on_monitor (probe_wait g TimerFired nonce) ctl pc st host
           | OnChannel \<Rightarrow> on_monitor (probe_wait g Received nonce) ctl pc st host
           | OnPoll \<Rightarrow> (t, st, host))
      | MonitorSelect ctl pc \<Rightarrow>
          (case wk_case w of
             OnDone \<Rightarrow> (if cancelled then Returned else t, st, host)
           | OnTimer \<Rightarrow> on_monitor (probe_begin g w) ctl pc st host
           | _ \<Rightarrow> (t, st, host))
      | _ \<Rightarrow> (t, st, host))"

subsection \<open>The daemon\<close>

definition on_node :: "(daemon_node \<Rightarrow> thread \<times> daemon_node) \<Rightarrow> 's daemon \<Rightarrow> thread \<times> 's daemon" where
  "on_node f d = (let (t, n) = f (d_node d) in (t, d\<lparr>d_node := n\<rparr>))"

text \<open>A ticker or the end of the context, for the loops whose \<open>select\<close> has only these two cases.\<close>

definition ticker_wake :: "bool \<Rightarrow> wake \<Rightarrow> thread \<Rightarrow> ('s daemon \<Rightarrow> thread \<times> 's daemon) \<Rightarrow> 's daemon \<Rightarrow> thread \<times> 's daemon" where
  "ticker_wake cancelled w t tick d =
     (case wk_case w of
        OnDone \<Rightarrow> (if cancelled then Returned else t, d)
      | OnTimer \<Rightarrow> tick d
      | _ \<Rightarrow> (t, d))"

definition stats_wake :: "'s closure \<Rightarrow> wake \<Rightarrow> u64 \<times> u64 \<Rightarrow> 's daemon \<Rightarrow> thread \<times> 's daemon" where
  "stats_wake g w prev d =
     (let (line, prev) = stats_tick (g_config g) (readInterfaceCounter (g_unicode g) (wk_file w)) (wk_now w) (n_st (d_node d)) prev
      in (StatsSelect prev, d\<lparr>d_stats := d_stats d @ [line]\<rparr>))"

definition wake_thread :: "'s closure \<Rightarrow> wake \<Rightarrow> thread \<Rightarrow> 's daemon \<Rightarrow> thread \<times> 's daemon" where
  "wake_thread g w t d =
     (let ops = carrier_ops (g_res g); cancelled = d_cancelled d
      in case t of
           RecvRead \<Rightarrow> on_node (recv_wake g cancelled w) d
         | ClientHead \<Rightarrow> on_node (client_wake g w) d
         | ClientAwait h \<Rightarrow> on_node (hello_wake g w h) d
         | ClientSelect \<Rightarrow> ticker_wake cancelled w t (on_node (\<lambda>n. (ClientHead, send_keepalive ops n))) d
         | ServerSelect \<Rightarrow> ticker_wake cancelled w t (on_node (\<lambda>n. (ServerSelect, server_tick ops (g_config g) (wk_now w) n))) d
         | ResponderStart \<Rightarrow> on_node (responder_start g w) d
         | ResponderRead pc \<Rightarrow> on_node (responder_wake g w pc) d
         | StatsSelect prev \<Rightarrow> ticker_wake cancelled w t (stats_wake g w prev) d
         | TunReading q \<Rightarrow>
             (let ((t, err), n) = tun_wake g cancelled q (d_node d); d = d\<lparr>d_node := n\<rparr>
              in (t, case (err, d_errCh d) of (Some e, None) \<Rightarrow> d\<lparr>d_errCh := Some e\<rparr> | _ \<Rightarrow> d))
         | Returned \<Rightarrow> (Returned, d)
         | _ \<Rightarrow>
             (let (t, st, host) = monitor_wake g cancelled w t (n_st (d_node d)) (d_host d)
              in (t, d\<lparr>d_node := (d_node d)\<lparr>n_st := st\<rparr>, d_host := host\<rparr>)))"

datatype happening = Signal | Wake nat wake

definition happens :: "'s closure \<Rightarrow> happening \<Rightarrow> 's daemon \<Rightarrow> 's daemon" where
  "happens g h d =
     (case h of
        Signal \<Rightarrow> d\<lparr>d_cancelled := True\<rparr>
      | Wake i w \<Rightarrow>
          (if i < length (d_threads d) then
             (let (t, d) = wake_thread g w (d_threads d ! i) d in d\<lparr>d_threads := (d_threads d)[i := t]\<rparr>)
           else d))"

abbreviation perform :: "'s closure \<Rightarrow> happening list \<Rightarrow> 's daemon \<Rightarrow> 's daemon" where
  "perform g \<equiv> fold (happens g)"

definition start_daemon :: "Config \<Rightarrow> carrier \<Rightarrow> tunDevice \<times> tun_kernel \<Rightarrow> 's \<Rightarrow> 's daemon" where
  "start_daemon c car tk host =
     \<lparr>d_node = start_node c car tk, d_host = host, d_cancelled = False, d_errCh = None, d_stats = [],
      d_threads = map entry_point (goroutines c (QueueCount (fst tk)))\<rparr>"

text \<open>The end of \<open>run\<close>'s wait: the context is cancelled, the carrier and the device are closed, which
  wakes the goroutines blocked in their reads. Then the goroutines have five seconds to return.\<close>

definition close_down :: "'s closure \<Rightarrow> 's daemon \<Rightarrow> 's daemon" where
  "close_down g d =
     (let n = d_node d;
          car = snd (CloseCarrier (carrier_ops (g_res g)) (n_carrier n));
          tk = snd (tun_Close (n_tun n))
      in d\<lparr>d_cancelled := True, d_node := n\<lparr>n_carrier := car, n_tun := tk\<rparr>\<rparr>)"

definition all_returned :: "'s daemon \<Rightarrow> bool" where
  "all_returned d \<longleftrightarrow> list_all (\<lambda>t. t = Returned) (d_threads d)"

end
