(* ===== verification/Schedules.thy ===== *)
theory Schedules
  imports Scheduler
begin

text \<open>
  What holds in every schedule: the wake-ups are turns of the theory \<open>Workers\<close>, so the node's invariant
  and the refinement of the atomic operations carry over; every goroutine stays within its own control
  states; and the small steps add up to the loops of the goroutines.
\<close>

subsection \<open>Wake-ups are turns\<close>

lemma turn_once: "worker_turn res c key n n' \<Longrightarrow> worker_turns res c key n n'"
  by (rule worker_turns.turn [OF worker_turns.idle])

lemma turns_trans: "worker_turns res c key n1 n2 \<Longrightarrow> worker_turns res c key n n1 \<Longrightarrow> worker_turns res c key n n2"
  by (induction rule: worker_turns.induct) (auto intro: worker_turns.turn)

lemmas turn_intros = worker_turns.idle turn_once worker_turn.intros

lemma recv_wake_turns: "worker_turns (g_res g) (g_config g) (g_key g) n (snd (recv_wake g cancelled w n))"
proof -
  have "worker_turns (g_res g) (g_config g) (g_key g) n (snd (recvLoop (carrier_ops (g_res g)) tun_writer (g_key g) (Role (g_config g))
      [\<lparr>re_others = id, re_ctx_err = cancelled, re_now = wk_now w, re_rnd = wk_rnd w\<rparr>] n))"
    by (intro turn_once worker_turn.receive)
  then show ?thesis
    by (simp add: recv_wake_def worker_turns.idle case_prod_beta del: recvLoop.simps split: option.split)
qed

lemma tun_wake_turns: "worker_turns (g_res g) (g_config g) (g_key g) n (snd (tun_wake g cancelled q n))"
proof -
  obtain t k where tk: "n_tun n = (t, k)" by fastforce
  obtain r k' where r: "ReadQueue q 65535 t k = (r, k')" by fastforce
  from turn_once [OF worker_turn.tun_read [OF tk r, of "g_res g" "g_config g" "g_key g" cancelled]] show ?thesis
    by (simp add: tun_wake_def tk r worker_turns.idle case_prod_beta del: tunSendLoop.simps split: option.split)
qed

lemma disarm_turns: "worker_turns res c key n n1 \<Longrightarrow> worker_turns res c key n (on_state (disarm cn) n1)"
  by (rule worker_turns.turn [OF _ worker_turn.hello_over])

lemma on_return_turns: "worker_turns res c key n (snd r) \<Longrightarrow> worker_turns res c key n (snd (on_return cn r))"
  by (auto simp: on_return_def disarm_turns split: prod.splits option.splits)

lemma client_wake_turns: "worker_turns (g_res g) (g_config g) (g_key g) n (snd (client_wake g w n))"
proof -
  let ?ops = "carrier_ops (g_res g)"
  have "worker_turns (g_res g) (g_config g) (g_key g) n
      (snd (handshakeClient ?ops (DefaultPeer ?ops (n_carrier n)) (g_key g) (wk_rnd w) (wk_hello_at w) (wk_started w) [] n))"
  proof (cases "wk_rnd w")
    case (Some cn)
    have "worker_turns (g_res g) (g_config g) (g_key g) n (snd (write_packet ?ops (makeHello (g_key g) cn (wk_hello_at w))
        (DefaultPeer ?ops (n_carrier n)) (on_state (\<lambda>st. st\<lparr>pending := cn, pendingSet := True\<rparr>) n)))"
      by (intro turn_once worker_turn.hello)
    then show ?thesis
      by (auto simp: handshakeClient_def Some worker_turns.idle Let_def case_prod_beta intro!: on_return_turns split: option.split)
  qed (simp add: handshakeClient_def worker_turns.idle)
  then show ?thesis by (simp add: client_wake_def worker_turns.idle Let_def case_prod_beta split: option.split)
qed

lemma hello_wake_turns: "worker_turns (g_res g) (g_config g) (g_key g) n (snd (hello_wake g w h n))"
proof -
  let ?ops = "carrier_ops (g_res g)"
  have "worker_turns (g_res g) (g_config g) (g_key g) n (snd (write_packet ?ops (hw_hello h) (hw_peer h) n))"
    by (intro turn_once worker_turn.hello_again)
  then have "worker_turns (g_res g) (g_config g) (g_key g) n (snd (handshake_select ?ops h e n))" for e
    by (auto simp: handshake_select_def worker_turns.idle case_prod_beta split: select_event.split option.split)
  then have "worker_turns (g_res g) (g_config g) (g_key g) n (snd (on_return (hw_cn h) (handshake_select ?ops h e n)))" for e
    by (rule on_return_turns)
  then show ?thesis
    by (simp add: hello_wake_def worker_turns.idle Let_def case_prod_beta split: select_case.split option.split)
qed

lemma probe_reply_turns: "worker_turns res c key n (probe_reply (carrier_ops res) c key b peer now n)"
  by (intro turn_once worker_turn.respond)

lemma responder_turns:
  "worker_turns (g_res g) (g_config g) (g_key g) n (snd (responder_start g w n))"
  "worker_turns (g_res g) (g_config g) (g_key g) n (snd (responder_wake g w pc n))"
  by (auto simp: responder_start_def responder_wake_def runDirectProbeResponder_def close_on_return_def
      worker_turns.idle probe_reply_turns Let_def split: sum.split prod.splits option.splits)

lemma follow_state [simp]: "m_st (follow exec c ok m) = m_st m"
  by (simp add: follow_def Let_def case_prod_beta)

lemma probe_begin_state: "m_st (snd (probe_begin g w m)) = m_st m \<or> m_st (snd (probe_begin g w m)) = initProbeAck (m_st m)"
  by (auto simp: probe_begin_def probe_def waitProbeAck_def split: option.split prod.split)

lemma probe_wait_state: "m_st (snd (probe_wait g e nonce m)) = snd (wait_loop nonce [e] (m_st m))"
  by (simp add: probe_wait_def case_prod_beta Let_def del: wait_loop.simps split: option.split)

lemma monitor_wake_state:
  "fst (snd (monitor_wake g cancelled w t st host)) \<in>
     {st, initProbeAck st} \<union> {snd (wait_loop nonce [e] st) | nonce e. \<forall>f. e \<noteq> Others f}"
proof -
  have b: "fst (snd (on_monitor (probe_begin g w) ctl pc st host)) \<in> {st, initProbeAck st}" for ctl pc host
    using probe_begin_state [of g w "\<lparr>m_controller = ctl, m_sock = pc, m_st = st, m_host = host\<rparr>"]
    by (simp add: on_monitor_def case_prod_beta Let_def)
  have q: "fst (snd (on_monitor (probe_wait g e nonce) ctl pc st host)) = snd (wait_loop nonce [e] st)" for e nonce ctl pc
    using probe_wait_state [of g e nonce "\<lparr>m_controller = ctl, m_sock = pc, m_st = st, m_host = host\<rparr>"]
    by (simp add: on_monitor_def case_prod_beta Let_def)
  have s: "fst (snd (monitor_start g w st host)) \<in> {st, initProbeAck st}"
    using b by (auto simp: monitor_start_def on_monitor_def Let_def split: sum.split)
  show ?thesis
    using b q s
    by (cases t; cases "wk_case w") (auto simp: monitor_wake_def simp del: wait_loop.simps; blast)+
qed

lemma monitor_turns:
  "worker_turns res c key n (n\<lparr>n_st := fst (snd (monitor_wake g cancelled w t (n_st n) host))\<rparr>)"
proof -
  have "worker_turns res c key n (n\<lparr>n_st := initProbeAck (n_st n)\<rparr>)"
    using turn_once [OF worker_turn.await] by simp
  moreover have "worker_turns res c key n (n\<lparr>n_st := snd (wait_loop nonce [e] (n_st n))\<rparr>)" if "\<forall>f. e \<noteq> Others f" for nonce e
    using turn_once [OF worker_turn.await_more, of e] that by (simp del: wait_loop.simps)
  ultimately show ?thesis
    using monitor_wake_state [of g cancelled w t "n_st n" host]
    by (auto simp: worker_turns.idle simp del: wait_loop.simps)
qed

lemma wake_turns:
  "worker_turns (g_res g) (g_config g) (g_key g) (d_node d) (d_node (snd (wake_thread g w t d)))"
proof -
  note turns = recv_wake_turns [of g "d_node d"] tun_wake_turns [of g "d_node d"] client_wake_turns [of g "d_node d"]
    hello_wake_turns [of g "d_node d"] responder_turns [of g "d_node d"] monitor_turns [of _ _ _ "d_node d"]
    turn_once [OF worker_turn.keepalive] turn_once [OF worker_turn.server] worker_turns.idle
  show ?thesis
    by (cases t; cases "wk_case w")
      (simp_all add: wake_thread_def on_node_def ticker_wake_def stats_wake_def turns case_prod_beta Let_def
        split: option.split)
qed

lemma happens_turns:
  "worker_turns (g_res g) (g_config g) (g_key g) (d_node d) (d_node (happens g h d))"
  using wake_turns by (auto simp: happens_def worker_turns.idle case_prod_beta Let_def split: happening.split)

lemma perform_turns:
  "worker_turns (g_res g) (g_config g) (g_key g) (d_node d) (d_node (perform g hs d))"
proof (induction hs arbitrary: d)
  case (Cons h hs)
  from turns_trans [OF Cons happens_turns] show ?case by simp
qed (simp add: worker_turns.idle)

subsection \<open>Every goroutine stays in its own code\<close>

primrec belongs :: "goroutine \<Rightarrow> thread \<Rightarrow> bool" where
  "belongs RecvLoop t = (t = RecvRead \<or> t = Returned)"
| "belongs ClientSupervisor t = (case t of ClientHead \<Rightarrow> True | ClientAwait _ \<Rightarrow> True | ClientSelect \<Rightarrow> True | Returned \<Rightarrow> True | _ \<Rightarrow> False)"
| "belongs ServerSupervisor t = (t = ServerSelect \<or> t = Returned)"
| "belongs ProbeResponder t = (case t of ResponderStart \<Rightarrow> True | ResponderRead _ \<Rightarrow> True | Returned \<Rightarrow> True | _ \<Rightarrow> False)"
| "belongs ProbeMonitor t =
     (case t of MonitorStart \<Rightarrow> True | MonitorAwait _ _ _ \<Rightarrow> True | MonitorSelect _ _ \<Rightarrow> True | Returned \<Rightarrow> True | _ \<Rightarrow> False)"
| "belongs StatsLoop t = (case t of StatsSelect _ \<Rightarrow> True | Returned \<Rightarrow> True | _ \<Rightarrow> False)"
| "belongs (TunSendLoop q) t = (t = TunReading q \<or> t = Returned)"

lemma belongs_Returned: "belongs r Returned"
  by (cases r) simp_all

lemma probe_threads:
  "belongs ProbeMonitor (fst (probe_begin g w m))" "belongs ProbeMonitor (fst (probe_wait g e nonce m))"
  by (simp_all add: probe_begin_def probe_wait_def case_prod_beta Let_def del: wait_loop.simps split: option.split)

lemma monitor_threads:
  "belongs ProbeMonitor t \<Longrightarrow> belongs ProbeMonitor (fst (monitor_wake g cancelled w t st host))"
  using probe_threads
  by (auto simp: monitor_wake_def monitor_start_def on_monitor_def belongs_Returned case_prod_beta Let_def simp del: belongs.simps(5)
      split: thread.splits select_case.split sum.split)

lemma wake_belongs:
  assumes "belongs r t"
  shows "belongs r (fst (wake_thread g w t d))"
proof -
  note wakes = recv_wake_def client_wake_def hello_wake_def responder_wake_def responder_start_def tun_wake_def stats_wake_def
  show ?thesis
  proof (cases "r = ProbeMonitor")
    case True
    with assms monitor_threads [of t g "d_cancelled d" w "n_st (d_node d)" "d_host d"] show ?thesis
      by (auto simp: wake_thread_def case_prod_beta Let_def split: thread.splits)
  next
    case False
    with assms show ?thesis
      by (cases r; cases t)
        (auto simp: wake_thread_def on_node_def ticker_wake_def wakes case_prod_beta Let_def
          simp del: recvLoop.simps tunSendLoop.simps responder_loop.simps split: select_case.split option.split)
  qed
qed

lemma wake_fields [simp]:
  "d_threads (snd (wake_thread g w t d)) = d_threads d" "d_cancelled (snd (wake_thread g w t d)) = d_cancelled d"
  by (cases t; simp add: wake_thread_def on_node_def ticker_wake_def stats_wake_def case_prod_beta Let_def
      split: select_case.split option.split)+

lemma happens_belongs: "list_all2 belongs rs (d_threads d) \<Longrightarrow> list_all2 belongs rs (d_threads (happens g h d))"
  by (auto simp: happens_def case_prod_beta Let_def list_all2_conv_all_nth nth_list_update wake_belongs split: happening.split)

lemma perform_belongs: "list_all2 belongs rs (d_threads d) \<Longrightarrow> list_all2 belongs rs (d_threads (perform g hs d))"
  by (induction hs arbitrary: d) (simp_all add: happens_belongs)

lemma entry_point_belongs: "belongs r (entry_point r)"
  by (cases r) simp_all

subsection \<open>The small steps add up to the loops\<close>

lemma handshake_loop_selects:
  "handshake_loop ops (hw_peer h) (hw_hello h) (hw_started h) ((others, e) # es) n =
     (if has_fresh_session (hw_started h) (n_st n) then (Some None, n)
      else case handshake_select ops h e (others n) of
        (Some r, n') \<Rightarrow> (Some r, n')
      | (None, n') \<Rightarrow> handshake_loop ops (hw_peer h) (hw_hello h) (hw_started h) es n')"
proof -
  have fresh: "handshake_loop ops p hello st es n' = (Some None, n')" if "has_fresh_session st (n_st n')" for p hello st n'
    using that by (cases es) auto
  show ?thesis
    by (auto simp: handshake_select_def fresh split: select_event.split option.split prod.split)
qed

lemma wait_loop_Cons:
  "(\<And>f. e \<noteq> Others f) \<Longrightarrow> wait_loop nonce (e # es) st =
     (case wait_loop nonce [e] st of (None, st) \<Rightarrow> wait_loop nonce es st | r \<Rightarrow> r)"
  by (cases e) (auto simp: Let_def split: option.split list.split)

lemma probe_steps:
  "probe exec c key rnd now waits m =
     (case probe exec c key rnd now [] m of
        (Some r, m) \<Rightarrow> (Some r, m)
      | (None, m) \<Rightarrow>
          (case wait_loop (the rnd) waits (m_st m) of
             (None, st) \<Rightarrow> (None, m\<lparr>m_st := st\<rparr>)
           | (Some ok, st) \<Rightarrow> (Some (), follow exec c ok (m\<lparr>m_st := st\<rparr>))))"
  by (cases rnd) (auto simp: probe_def waitProbeAck_def makeDirectProbe_def Let_def split: option.split prod.split)

subsection \<open>Properties\<close>

text \<open>C7: the state of a running node is always well formed. After every schedule, however the signals
  and the wake-ups of the goroutines interleave, the current session exists and has keys of the right
  size, session addresses are never reused, the acknowledgement queue is within its capacity, and the
  device still has exactly the open queues it was started with.\<close>

theorem running_node_invariant:
  assumes "tun_ok tk"
  shows "let n = d_node (perform g hs (start_daemon (g_config g) car tk host))
     in wf_state (n_st n) \<and> tun_ok (n_tun n) \<and> t_queues (fst (n_tun n)) = t_queues (fst tk) \<and>
       open_files (snd (n_tun n)) = open_files (snd tk)"
  using worker_turns_inv [OF perform_turns [of g "start_daemon (g_config g) car tk host" hs], of "t_queues (fst tk)" "open_files (snd tk)"]
    start_node_inv [OF assms]
  by (simp add: Let_def start_daemon_def node_inv_def device_inv_def)

definition demo_closure :: "unit closure" where
  "demo_closure = \<lparr>g_exec = (\<lambda>_ s. (None, s)), g_res = no_resolver, g_unicode = \<lparr>uni_trim_space = id, uni_to_lower = id\<rparr>,
     g_config = zero_config\<lparr>c_Performance := (c_Performance zero_config)\<lparr>ReceiveWorkers := 1\<rparr>\<rparr>, g_key = []\<rparr>"

definition demo_wake :: "select_case \<Rightarrow> wake" where
  "demo_wake e = \<lparr>wk_case = e, wk_now = demo_now, wk_hello_at = demo_now, wk_started = demo_now, wk_rnd = Some (replicate 32 7),
     wk_listen = demo_listen, wk_file = (\<lambda>_. None)\<rparr>"

theorem running_node_invariant_witness:
  "wf_state (n_st (d_node (perform demo_closure [Wake 1 (demo_wake OnTimer), Signal, Wake 2 (demo_wake OnDone)]
     (start_daemon (g_config demo_closure) demo_carrier demo_tun ()))))"
  using running_node_invariant [OF demo_tun_eq(2), of demo_closure _ demo_carrier "()"] unfolding Let_def by blast




end
