(* ===== verification/Shutdown.thy ===== *)
theory Shutdown
  imports Schedules
begin

text \<open>
  The end of a run: closing the carrier and the device wakes the goroutines, and every goroutine but
  the probe responder returns; the responder's socket is closed by nobody.
\<close>

subsection \<open>What the goroutines keep of the carrier\<close>

lemma handleEncrypted_carrier [simp]: "n_carrier (handleEncrypted tw peer b now n) = n_carrier n"
  by (simp add: handleEncrypted_def Let_def case_prod_beta split: option.split)

text \<open>A property of the carrier that reads and writes keep is kept by every turn of a goroutine.\<close>

locale carrier_property =
  fixes res :: resolver and P :: "carrier \<Rightarrow> bool"
  assumes read_keeps: "P car \<Longrightarrow> P (snd (ReadPacket (carrier_ops res) len car))"
    and write_keeps: "P car \<Longrightarrow> P (snd (WritePacket (carrier_ops res) p peer car))"
begin

lemma write_packet_keeps_P: "P (n_carrier n) \<Longrightarrow> P (n_carrier (snd (write_packet (carrier_ops res) p peer n)))"
  using write_keeps by (simp add: write_packet_def case_prod_beta)

lemma send_keeps_P: "P (n_carrier n) \<Longrightarrow> P (n_carrier (snd (sendEncrypted (carrier_ops res) i typ pl n)))"
  using write_keeps
  by (cases "heap (n_st n) i") (simp_all add: sendEncrypted_eq Let_def case_prod_beta, simp add: sendEncrypted_def)

lemma hello_keeps_P: "P (n_carrier n) \<Longrightarrow> P (n_carrier (handleHello (carrier_ops res) peer b key now rnd n))"
  by (auto simp: handleHello_def Let_def case_prod_beta intro!: write_packet_keeps_P split: option.split sum.split)

lemma dispatch_keeps_P:
  "P (n_carrier n) \<Longrightarrow> P (n_carrier (recv_dispatch (carrier_ops res) tw key role peer b now rnd n))"
  by (simp add: recv_dispatch_def hello_keeps_P)

lemma turn_keeps_P: "worker_turn res c key n n' \<Longrightarrow> P (n_carrier n) \<Longrightarrow> P (n_carrier n')"
proof (induction rule: worker_turn.induct)
  case (receive n cancelled now rnd)
  then show ?case
    unfolding recv_turn using read_keeps [of "n_carrier n" maxCarrierFrame]
    by (auto intro!: dispatch_keeps_P split: prod.split sum.split)
next
  case (tun_read n t k q r k' cancelled)
  then show ?case by (auto simp: tun_send_step_def send_keeps_P Let_def split: sum.split option.split)
qed (auto simp: send_keepalive_def server_tick_def probe_reply_def send_keeps_P write_packet_keeps_P
    split: option.split)

lemma turns_keep_P: "worker_turns res c key n n' \<Longrightarrow> P (n_carrier n) \<Longrightarrow> P (n_carrier n')"
  by (induction rule: worker_turns.induct) (auto intro: turn_keeps_P)

end

text \<open>A closed carrier stays closed.\<close>

definition carrier_down :: "carrier \<Rightarrow> bool" where
  "carrier_down car =
     (case car of UDP u \<Rightarrow> uc_closed (u_conn u) | TCP s \<Rightarrow> s_closed s | KCPStream k \<Rightarrow> s_closed (k_stream k))"

lemma read_turn_down:
  assumes "s_closed s"
  shows "s_closed (snd (read_turn len s)) \<and> (\<forall>r. fst (read_turn len s) = Some r \<longrightarrow> r = Inl ContextErr)"
  using assms
  by (auto simp: read_turn_def ensureConn_with_def current_conn_def ctx_err_def Let_def split: list.split)

lemma stream_ReadPacket_down:
  "s_closed s \<Longrightarrow> s_closed (snd (stream_ReadPacket len s)) \<and> fst (stream_ReadPacket len s) = Inl ContextErr"
proof (induction len s rule: stream_ReadPacket.induct)
  case (1 len s)
  show ?case
  proof (cases "fst (read_turn len s)")
    case None
    then have "read_turn len s = (None, snd (read_turn len s))" by (simp add: prod_eq_iff)
    with 1 read_turn_down [of s len] show ?thesis by (auto simp: stream_ReadPacket.simps [of len s] split: prod.splits)
  next
    case (Some r)
    with read_turn_down [OF 1(2), of len] show ?thesis
      by (auto simp: stream_ReadPacket.simps [of len s] split: prod.splits)
  qed
qed

lemma stream_WritePacket_down: "s_closed s \<Longrightarrow> s_closed (snd (stream_WritePacket p peer s))"
  by (simp add: stream_WritePacket_def numeral_2_eq_2 ensureConn_with_def current_conn_def)

lemma udp_down:
  "uc_closed (u_conn u) \<Longrightarrow> udp_ReadPacket len u = (Inl ErrClosedPipe, u)"
  "uc_closed (u_conn u) \<Longrightarrow> uc_closed (u_conn (snd (udp_WritePacket res p peer u)))"
  by (auto simp: udp_ReadPacket_def ReadFromUDP_def udp_WritePacket_def WriteToUDP_def Let_def split: option.split)

lemma read_down: "carrier_down car \<Longrightarrow> \<exists>e. fst (ReadPacket (carrier_ops res) len car) = Inl e"
  using stream_ReadPacket_down
  by (cases car) (auto simp: carrier_down_def carrier_ops_def udp_down on_stream_def Let_def case_prod_beta)

interpretation down: carrier_property res carrier_down for res
proof
  fix car :: carrier and len p peer
  assume d: "carrier_down car"
  show "carrier_down (snd (ReadPacket (carrier_ops res) len car))"
    using d stream_ReadPacket_down
    by (cases car) (auto simp: carrier_down_def carrier_ops_def udp_down on_stream_def Let_def case_prod_beta)
  show "carrier_down (snd (WritePacket (carrier_ops res) p peer car))"
    using d stream_WritePacket_down
    by (cases car) (auto simp: carrier_down_def carrier_ops_def udp_down on_stream_def Let_def case_prod_beta)
qed

lemma CloseCarrier_down: "carrier_down (snd (CloseCarrier (carrier_ops res) car))"
  by (cases car) (auto simp: carrier_down_def carrier_ops_def udp_Close_def kcp_Close_def CloseUDP_def stream_Close_def
      on_conn_def Let_def case_prod_beta split: option.split)

subsection \<open>A daemon that shuts down\<close>

text \<open>The context is cancelled, the carrier is closed, and the device has no queues and has left the
  files \<open>files\<close> open.\<close>

definition shutting_down :: "nat set \<Rightarrow> 's daemon \<Rightarrow> bool" where
  "shutting_down files d \<longleftrightarrow> d_cancelled d \<and> carrier_down (n_carrier (d_node d)) \<and> node_inv [] files (d_node d)"

lemma happens_cancelled: "d_cancelled d \<Longrightarrow> d_cancelled (happens g h d)"
  by (simp add: happens_def case_prod_beta Let_def split: happening.split)

lemma happens_shutting_down: "shutting_down files d \<Longrightarrow> shutting_down files (happens g h d)"
  using happens_cancelled down.turns_keep_P [OF happens_turns] worker_turns_inv [OF happens_turns]
  by (auto simp: shutting_down_def)

lemma perform_shutting_down: "shutting_down files d \<Longrightarrow> shutting_down files (perform g hs d)"
  by (induction hs arbitrary: d) (simp_all add: happens_shutting_down)

lemma tun_Close_inv:
  assumes "device_inv qs files tk"
  shows "device_inv [] (files - set qs) (snd (tun_Close tk))"
proof -
  obtain err t' k' where c: "tun_Close (fst tk, snd tk) = (err, t', k')" by (metis prod_cases3)
  from tun_Close_final [of "fst tk" "snd tk", OF _ c] assms c show ?thesis
    by (auto simp: device_inv_def tun_ok_def tun_Close_def Let_def case_prod_beta split: prod.splits)
qed

lemma close_down_shutting:
  assumes "node_inv qs files (d_node d)"
  shows "shutting_down (files - set qs) (close_down g d)"
  using assms CloseCarrier_down tun_Close_inv
  by (simp add: shutting_down_def close_down_def node_inv_def Let_def)

lemma close_down_threads [simp]: "d_threads (close_down g d) = d_threads d"
  by (simp add: close_down_def Let_def)

subsection \<open>How far a goroutine is from its return\<close>

primrec turns_left :: "thread \<Rightarrow> nat" where
  "turns_left RecvRead = 1"
| "turns_left ClientHead = 3"
| "turns_left (ClientAwait h) = 2"
| "turns_left ClientSelect = 1"
| "turns_left ServerSelect = 1"
| "turns_left ResponderStart = 1"
| "turns_left (ResponderRead pc) = 1"
| "turns_left MonitorStart = 3"
| "turns_left (MonitorAwait ctl pc nonce) = 2"
| "turns_left (MonitorSelect ctl pc) = 1"
| "turns_left (StatsSelect prev) = 1"
| "turns_left (TunReading q) = 1"
| "turns_left Returned = 0"

lemma turns_left_bound: "turns_left t \<le> 3"
  by (cases t) simp_all

definition responding :: "thread \<Rightarrow> bool" where
  "responding t = (case t of ResponderStart \<Rightarrow> True | ResponderRead _ \<Rightarrow> True | _ \<Rightarrow> False)"

lemma recv_wake_down:
  assumes "carrier_down (n_carrier n)"
  shows "fst (recv_wake g True w n) = Returned"
proof -
  obtain e car where "ReadPacket (carrier_ops (g_res g)) maxCarrierFrame (n_carrier n) = (Inl e, car)"
    using read_down [OF assms] by (metis prod.collapse)
  moreover have "\<not> carrier_blocks (n_carrier n)"
    using assms by (auto simp: carrier_blocks_def carrier_down_def udp_blocks_def split: carrier.splits)
  ultimately show ?thesis by (simp add: recv_wake_def)
qed

lemma tun_wake_down:
  assumes "t_queues (fst (n_tun n)) = []"
  shows "fst (tun_wake g True q n) = (Returned, None)"
proof -
  have "ReadQueue q 65535 (fst (n_tun n)) (snd (n_tun n)) = (Inl (InvalidQueueIndex q), snd (n_tun n))"
    using assms by (auto simp: ReadQueue_def)
  then show ?thesis using assms by (simp add: tun_wake_def tun_blocks_def QueueCount_def case_prod_beta)
qed

lemma monitor_done:
  "turns_left (fst (probe_begin g w m)) \<le> 2 \<and> \<not> responding (fst (probe_begin g w m))"
  "turns_left (fst (probe_wait g CtxDone nonce m)) \<le> 1 \<and> \<not> responding (fst (probe_wait g CtxDone nonce m))"
  by (simp_all add: probe_begin_def probe_wait_def responding_def case_prod_beta Let_def split: option.split)

lemma done_wake_progress:
  assumes "shutting_down files d" "wk_case w = OnDone" "\<not> responding t"
  shows "turns_left (fst (wake_thread g w t d)) \<le> turns_left t - 1 \<and> \<not> responding (fst (wake_thread g w t d))"
proof -
  have d: "d_cancelled d" "carrier_down (n_carrier (d_node d))" "t_queues (fst (n_tun (d_node d))) = []"
    using assms(1) by (auto simp: shutting_down_def node_inv_def device_inv_def)
  show ?thesis
    using assms(2,3) d recv_wake_down [OF d(2), of g] tun_wake_down [OF d(3), of g] monitor_done [of g, unfolded responding_def]
    by (cases t)
      (auto simp: wake_thread_def on_node_def ticker_wake_def client_wake_def hello_wake_def monitor_wake_def monitor_start_def
        on_monitor_def on_return_def handshake_select_def responding_def
        case_prod_beta Let_def split: option.split sum.split)
qed

definition wakes_of :: "nat \<Rightarrow> happening list \<Rightarrow> nat" where
  "wakes_of i hs = length (filter (\<lambda>h. case h of Signal \<Rightarrow> False | Wake j _ \<Rightarrow> j = i) hs)"

definition done_wakes :: "happening list \<Rightarrow> bool" where
  "done_wakes hs = list_all (\<lambda>h. case h of Signal \<Rightarrow> True | Wake _ w \<Rightarrow> wk_case w = OnDone) hs"

lemma happens_progress:
  assumes "shutting_down files d" "\<forall>t\<in>set (d_threads d). \<not> responding t" "done_wakes [h]" "i < length (d_threads d)"
  shows "turns_left (d_threads (happens g h d) ! i) \<le> turns_left (d_threads d ! i) - wakes_of i [h] \<and>
    (\<forall>t\<in>set (d_threads (happens g h d)). \<not> responding t)"
proof (cases h)
  case (Wake j w)
  show ?thesis
  proof (cases "j < length (d_threads d)")
    case True
    let ?t = "fst (wake_thread g w (d_threads d ! j) d)"
    have t: "turns_left ?t \<le> turns_left (d_threads d ! j) - 1 \<and> \<not> responding ?t"
      using done_wake_progress [OF assms(1)] assms(2,3) True Wake by (simp add: done_wakes_def)
    have "d_threads (happens g h d) = (d_threads d)[j := ?t]"
      using True Wake by (simp add: happens_def case_prod_beta Let_def)
    with t assms(2,4) Wake show ?thesis
      by (auto simp: wakes_of_def nth_list_update dest: set_update_subset_insert [THEN subsetD])
  qed (use assms Wake in \<open>auto simp: happens_def wakes_of_def\<close>)
qed (use assms in \<open>simp add: happens_def wakes_of_def\<close>)

lemma happens_length [simp]: "length (d_threads (happens g h d)) = length (d_threads d)"
  by (simp add: happens_def case_prod_beta Let_def split: happening.split)

lemma perform_progress:
  assumes "shutting_down files d" "\<forall>t\<in>set (d_threads d). \<not> responding t" "done_wakes hs" "i < length (d_threads d)"
  shows "turns_left (d_threads (perform g hs d) ! i) \<le> turns_left (d_threads d ! i) - wakes_of i hs"
  using assms
proof (induction hs arbitrary: d)
  case (Cons h hs)
  have h: "done_wakes [h]" "done_wakes hs" using Cons.prems(3) by (simp_all add: done_wakes_def)
  have p: "turns_left (d_threads (happens g h d) ! i) \<le> turns_left (d_threads d ! i) - wakes_of i [h]"
    "\<forall>t\<in>set (d_threads (happens g h d)). \<not> responding t"
    using happens_progress [OF Cons.prems(1,2) h(1) Cons.prems(4)] by blast+
  have "wakes_of i (h # hs) = wakes_of i [h] + wakes_of i hs" by (simp add: wakes_of_def)
  with Cons.IH [OF happens_shutting_down [OF Cons.prems(1)] p(2) h(2)] p(1) Cons.prems(4) show ?case by simp
qed (simp add: wakes_of_def)

lemma not_responding: "belongs r t \<Longrightarrow> r \<noteq> ProbeResponder \<Longrightarrow> \<not> responding t"
  by (cases r; cases t) (simp_all add: responding_def)

lemma wake_blocked_responder: "udp_blocks pc \<Longrightarrow> fst (wake_thread g w (ResponderRead pc) d) = ResponderRead pc"
  by (simp add: wake_thread_def on_node_def responder_wake_def)

lemma happens_blocked_responder:
  "udp_blocks pc \<Longrightarrow> i < length (d_threads d) \<Longrightarrow> d_threads d ! i = ResponderRead pc \<Longrightarrow>
     d_threads (happens g h d) ! i = ResponderRead pc"
  by (auto simp: happens_def case_prod_beta Let_def nth_list_update wake_blocked_responder split: happening.split)

lemma perform_blocked_responder:
  "udp_blocks pc \<Longrightarrow> i < length (d_threads d) \<Longrightarrow> d_threads d ! i = ResponderRead pc \<Longrightarrow>
     d_threads (perform g hs d) ! i = ResponderRead pc \<and> i < length (d_threads (perform g hs d))"
  by (induction hs arbitrary: d) (simp_all add: happens_blocked_responder)

subsection \<open>Properties\<close>



text \<open>C38: the probe responder holds the shutdown up. Its socket is closed only by the responder itself, so
  while no datagram arrives it stays in its read whatever happens: after the context is cancelled and
  the carrier and the device are closed, no schedule lets all goroutines return, and \<open>run\<close> waits for
  the full five seconds.\<close>

theorem responder_holds_shutdown:
  assumes "i < length (d_threads d)" "d_threads d ! i = ResponderRead pc" "udp_blocks pc"
  shows "\<not> all_returned (perform g hs (close_down g d))"
  using perform_blocked_responder [of pc i "close_down g d" g hs] assms
  by (auto simp: all_returned_def list_all_length)

definition iran_closure :: "unit closure" where
  "iran_closure = demo_closure\<lparr>g_config := (demo_config ''udp'' 25)\<lparr>Role := ''iran''\<rparr>\<rparr>"

theorem responder_holds_shutdown_witness:
  "\<not> all_returned (perform iran_closure [Wake 0 (demo_wake OnDone), Wake 2 (demo_wake OnDone)]
     (close_down iran_closure (perform iran_closure [Wake 2 (demo_wake OnTimer)]
       (start_daemon (g_config iran_closure) demo_carrier demo_tun ()))))"
proof -
  have th: "d_threads (start_daemon (g_config iran_closure) demo_carrier demo_tun ()) =
      [RecvRead, ClientHead, ResponderStart, StatsSelect (0, 0), TunReading 0, TunReading 1]"
    by (simp add: iran_closure_def start_daemon_def demo_config_def goroutines_def recvWorkers_def QueueCount_def demo_tun_eq
        applySmartReturnDefaults_def zero_smart_return_def applyPerformanceDefaults_def zero_performance_def upto_rec1)
  let ?a = "''0.0.0.0:'' @ itoa (ProbePort (SmartReturn (g_config iran_closure)))"
  let ?d = "perform iran_closure [Wake 2 (demo_wake OnTimer)] (start_daemon (g_config iran_closure) demo_carrier demo_tun ())"
  obtain pc where pc: "wk_listen (demo_wake OnTimer) ?a = Inr pc" "udp_blocks pc"
    by (simp add: demo_wake_def demo_listen_def listenMarkedPacket_def socketMarkControl_def udp_blocks_def)
  have c: "Enabled (SmartReturn (g_config iran_closure))" "Mode (g_config iran_closure) = ''direct-return''"
    "Role (g_config iran_closure) = ''iran''"
    by (simp_all add: iran_closure_def demo_config_def applySmartReturnDefaults_def zero_smart_return_def)
  have "fst (responder_start iran_closure (demo_wake OnTimer) n) = ResponderRead pc" for n
    using pc(1) by (simp add: responder_start_def runDirectProbeResponder_def close_on_return_def c)
  then have "2 < length (d_threads ?d) \<and> d_threads ?d ! 2 = ResponderRead pc"
    by (simp add: happens_def wake_thread_def on_node_def th Let_def case_prod_beta)
  with responder_holds_shutdown [of 2 ?d pc] pc(2) show ?thesis by blast
qed

end
