(* ===== verification/Daemon.thy ===== *)
theory Daemon
  imports Shutdown Firewall_Setup
begin

text \<open>
  The program (\<open>main.go\<close>): the command line, the key generator, the configuration summary, and
  \<open>run\<close>, which opens the device, sets the host up, creates the carrier, starts the goroutines, waits
  for a signal or an error and takes everything down again.

  All of \<open>run\<close> is here, with its early returns and its deferred calls in their order. While it serves,
  the goroutines take the turns of the schedule \<open>rn_before\<close> (theory \<open>Scheduler\<close>); the wait then ends with
  the error in \<open>errCh\<close> or with a signal, and the goroutines have the turns \<open>rn_after\<close>, those of the last
  five seconds, to return. A goroutine that has not returned by then keeps running beside the deferred
  calls, until the process ends; \<open>rn_late\<close> are its turns after the cleanup (those before the cleanup
  belong to \<open>rn_after\<close>). A result \<open>None\<close> means that a cleanup loop did not end. Log output is not
  modelled.
\<close>

subsection \<open>Generating a key\<close>

definition keygen :: "bytes option \<Rightarrow> string option" where
  "keygen rnd = map_option b64_encode rnd"

subsection \<open>Configuration summary\<close>

definition print_bool :: "bool \<Rightarrow> string" where
  "print_bool b = (if b then ''true'' else ''false'')"

fun join_strings :: "string \<Rightarrow> string list \<Rightarrow> string" where
  "join_strings sep [] = ''''"
| "join_strings sep [x] = x"
| "join_strings sep (x # xs) = x @ sep @ join_strings sep xs"

definition printConfigSummary :: "Config \<Rightarrow> string list" where
  "printConfigSummary c =
     (let ports = map (\<lambda>p. itoa (p_Port p) @ ''/'' @ p_Protocol p) (Ports c);
          t = c_Transport c; perf = c_Performance c; net = Network c; smart = SmartReturn c;
          peer = (if Peer t = '''' then ''-'' else Peer t)
      in [''role='' @ Role c, ''mode='' @ Mode c, ''transport='' @ t_Type t, ''tun_name='' @ Name (Tun c),
          ''tun_cidr='' @ LocalCIDR (Tun c), ''tun_peer='' @ PeerIP (Tun c), ''mtu='' @ itoa (MTU (Tun c)),
          ''public_interface='' @ PublicInterface net, ''public_ip='' @ PublicIP net,
          ''foreign_public_ip='' @ ForeignPublicIP net, ''iran_public_ip='' @ IranPublicIP net,
          ''carrier_listen='' @ Listen t, ''carrier_peer='' @ peer, ''service_ports='' @ join_strings '','' ports,
          ''performance_profile='' @ Profile perf, ''tun_queues='' @ itoa (TunQueues perf),
          ''receive_workers='' @ itoa (ReceiveWorkers perf), ''tx_queue_len='' @ itoa (TxQueueLen perf),
          ''qdisc='' @ Qdisc perf, ''socket_buffer='' @ itoa (SocketBuffer perf),
          ''smart_return='' @ print_bool (Enabled smart)] @
         (if Enabled smart
          then [''smart_probe_port='' @ itoa (ProbePort smart), ''smart_interval='' @ itoa (IntervalSeconds smart),
                ''smart_timeout='' @ itoa (TimeoutSeconds smart),
                ''smart_thresholds='' @ itoa (FailThreshold smart) @ ''/'' @ itoa (RecoverThreshold smart)]
          else []) @
         (if t_Type t = ''kcp''
          then [''kcp_fec='' @ itoa (DataShards (KCP t)) @ ''/'' @ itoa (ParityShards (KCP t)),
                ''kcp_window='' @ itoa (SendWindow (KCP t)) @ ''/'' @ itoa (ReceiveWindow (KCP t))]
          else []))"

subsection \<open>Setting the host up\<close>

definition cleanup :: "'s exec \<Rightarrow> Config \<Rightarrow> 's \<Rightarrow> 's option" where
  "cleanup exec c s = cleanupRouting exec c (cleanupSmartReturnPolicy exec c s)"

definition setup_host :: "'s exec \<Rightarrow> Config \<Rightarrow> 's \<Rightarrow> (cmd_error option \<times> 's) option" where
  "setup_host exec c s =
     (case cleanup exec c s of
        None \<Rightarrow> None
      | Some s \<Rightarrow>
          (case setupTun exec c s of
             (Some e, s) \<Rightarrow> Some (Some e, s)
           | (None, s) \<Rightarrow>
               (case setupRouting exec c s of
                  (Some e, s) \<Rightarrow> map_option (Pair (Some e)) (cleanupRouting exec c s)
                | (None, s) \<Rightarrow>
                    (case setupSmartReturnPolicy exec c s of
                       (Some e, s) \<Rightarrow> map_option (Pair (Some e)) (cleanup exec c s)
                     | (None, s) \<Rightarrow>
                         (case setupCarrierFirewall exec c s of
                            (Some e, s) \<Rightarrow> map_option (Pair (Some e)) (cleanup exec c s)
                          | (None, s) \<Rightarrow> Some (None, s))))))"

subsection \<open>run\<close>

datatype run_error =
    OpenTunError tun_error
  | SetupError cmd_error
  | CarrierError carrier_error
  | DataPlaneError tun_error

record run_env =
  rn_kernel :: tun_kernel
  rn_resolver :: resolver
  rn_unicode :: unicode
  rn_net :: carrier_net
  rn_before :: "happening list"
  rn_takes_error :: bool
  rn_after :: "happening list"
  rn_late :: "happening list"

record 's run_result =
  rr_err :: "run_error option"
  rr_host :: 's
  rr_tun :: "(tunDevice \<times> tun_kernel) option"
  rr_kernel :: tun_kernel
  rr_carrier :: "carrier option"
  rr_socket :: "udp_conn option"
  rr_complete :: bool

text \<open>\<open>key, _ := base64.StdEncoding.DecodeString(c.Transport.Key)\<close>: for an accepted configuration the
  key decodes.\<close>

definition run_key :: "Config \<Rightarrow> bytes" where
  "run_key c = (case b64_decode (Key (c_Transport c)) of Some k \<Rightarrow> k | None \<Rightarrow> [])"

definition run_closure :: "'s exec \<Rightarrow> Config \<Rightarrow> run_env \<Rightarrow> 's closure" where
  "run_closure exec c env =
     \<lparr>g_exec = exec, g_res = rn_resolver env, g_unicode = rn_unicode env, g_config = c, g_key = run_key c\<rparr>"

text \<open>The \<open>select\<close> over the context and \<open>errCh\<close>: when both are ready it takes either of them.\<close>

definition main_select :: "bool \<Rightarrow> 's daemon \<Rightarrow> run_error option" where
  "main_select takes_error d =
     (if d_cancelled d \<and> \<not> takes_error then None else map_option DataPlaneError (d_errCh d))"

text \<open>The result says why the wait ended and whether the goroutines returned in time.\<close>

definition serve :: "'s exec \<Rightarrow> Config \<Rightarrow> run_env \<Rightarrow> tunDevice \<times> tun_kernel \<Rightarrow> carrier \<Rightarrow> 's \<Rightarrow>
    run_error option \<times> bool \<times> 's daemon" where
  "serve exec c env tk car s =
     (let g = run_closure exec c env;
          d = perform g (rn_before env) (start_daemon c car tk s);
          runErr = main_select (rn_takes_error env) d;
          d = close_down g d;
          d = perform g (rn_after env) d
      in (runErr, all_returned d, d))"

definition run :: "'s exec \<Rightarrow> Config \<Rightarrow> run_env \<Rightarrow> 's \<Rightarrow> 's run_result option" where
  "run exec c env s =
     (case openTun (Name (Tun c)) (TunQueues (c_Performance c)) (rn_kernel env) of
        (Inl e, k) \<Rightarrow>
          Some \<lparr>rr_err = Some (OpenTunError e), rr_host = s, rr_tun = None, rr_kernel = k, rr_carrier = None, rr_socket = None, rr_complete = True\<rparr>
      | (Inr tun, k) \<Rightarrow>
          (let finish = (\<lambda>err s tk car sock complete. let tk = snd (tun_Close tk) in
                  \<lparr>rr_err = err, rr_host = s, rr_tun = Some tk, rr_kernel = snd tk, rr_carrier = car, rr_socket = sock,
                   rr_complete = complete\<rparr>)
           in case setup_host exec c s of
                None \<Rightarrow> None
              | Some (Some e, s) \<Rightarrow> Some (finish (Some (SetupError e)) s (tun, k) None None True)
              | Some (None, s) \<Rightarrow>
                  (case newCarrier (rn_resolver env) c (rn_net env) of
                     Inl (e, sock) \<Rightarrow> map_option (\<lambda>s. finish (Some (CarrierError e)) s (tun, k) None sock True) (cleanup exec c s)
                   | Inr car \<Rightarrow>
                       (case serve exec c env (tun, k) car s of
                          (err, complete, d) \<Rightarrow>
                            (let car = snd (CloseCarrier (carrier_ops (rn_resolver env)) (n_carrier (d_node d)));
                                 late = (\<lambda>s. perform (run_closure exec c env) (rn_late env)
                                          (d\<lparr>d_node := (d_node d)\<lparr>n_carrier := car\<rparr>, d_host := s\<rparr>))
                             in map_option (\<lambda>s. let d = late s
                                                in finish err (d_host d) (n_tun (d_node d)) (Some (n_carrier (d_node d))) None complete)
                                  (cleanup exec c (d_host d)))))))"

subsection \<open>The command line\<close>

record flags =
  fl_noargs :: bool
  fl_menu :: bool
  fl_version :: bool
  fl_keygen :: bool
  fl_summary :: bool
  fl_check :: bool
  fl_cleanup :: bool

datatype main_error =
    ManagerNotInstalled
  | ManagerFailed string
  | RandError
  | ConfigError config_error
  | NotRoot
  | RunError run_error

datatype outcome = Printed "string list" | Fatal main_error

text \<open>The management panel is a shell script: \<open>manager\<close> is \<open>None\<close> when it is not installed and
  otherwise the result of running it.\<close>

definition launchManager :: "string option option \<Rightarrow> main_error option" where
  "launchManager manager =
     (case manager of None \<Rightarrow> Some ManagerNotInstalled | Some r \<Rightarrow> map_option ManagerFailed r)"

definition version :: string where "version = ''0.3.0-alpha''"

definition config_ok_line :: "Config \<Rightarrow> string" where
  "config_ok_line c = ''Hashshashin '' @ version @ '': config ok (transport='' @ t_Type (c_Transport c) @
     '' profile='' @ Profile (c_Performance c) @ '' queues='' @ itoa (TunQueues (c_Performance c)) @ '')''"

definition main_program ::
  "'s exec \<Rightarrow> load_env \<Rightarrow> flags \<Rightarrow> string option option \<Rightarrow> bytes option \<Rightarrow> string \<Rightarrow> config_file \<Rightarrow> int \<Rightarrow> run_env \<Rightarrow>
     's \<Rightarrow> (outcome \<times> 's) option" where
  "main_program exec env fl manager rnd buildRef file euid renv s =
     (if fl_noargs fl \<or> fl_menu fl then
        Some ((case launchManager manager of Some e \<Rightarrow> Fatal e | None \<Rightarrow> Printed []), s)
      else if fl_version fl then Some (Printed [''Hashshashin '' @ version @ '' ('' @ buildRef @ '')''], s)
      else if fl_keygen fl then
        Some ((case keygen rnd of None \<Rightarrow> Fatal RandError | Some k \<Rightarrow> Printed [k]), s)
      else case loadConfig env file of
        Inl e \<Rightarrow> Some (Fatal (ConfigError e), s)
      | Inr cfg \<Rightarrow>
          (if fl_summary fl then Some (Printed (printConfigSummary cfg), s)
           else if fl_check fl then Some (Printed [config_ok_line cfg], s)
           else if euid \<noteq> 0 then Some (Fatal NotRoot, s)
           else if fl_cleanup fl then map_option (Pair (Printed [])) (cleanup exec cfg s)
           else map_option (\<lambda>r. (case rr_err r of Some e \<Rightarrow> Fatal (RunError e) | None \<Rightarrow> Printed [], rr_host r))
                  (run exec cfg renv s)))"

end
