(* ===== verification/Daemon_Safe.thy ===== *)
theory Daemon_Safe
  imports Daemon
begin

text \<open>
  Correctness of the program as a whole: whichever way \<open>run\<close> returns, the packet filter, the kernel's
  files and the sockets are as they were before; the command line modes that should not touch the
  host do not; a generated key is the key the daemon uses; and the summary does not depend on the
  key.
\<close>

subsection \<open>The host\<close>

lemma cleanup_restores:
  assumes "netfilter exec nf" "clean f0" "frame f0 (nf s)"
  shows "\<exists>s'. cleanup exec c s = Some s' \<and> nf s' = f0"
  using cleanupRouting_restores [OF assms(1,2)]
    host_property.cleanupSmartReturnPolicy_keeps [OF netfilter_host_property [OF assms(1)] assms(3)]
  by (simp add: cleanup_def)

lemma quiet_nf: "netfilter exec nf \<Longrightarrow> name \<noteq> ''iptables'' \<Longrightarrow> keeps (\<lambda>s. nf s = f) (runCmd exec (name, args))"
  by (simp add: keeps_def netfilter_other)

lemma setupTun_nf:
  assumes "netfilter exec nf"
  shows "nf (snd (setupTun exec c s)) = nf s"
proof -
  have "keeps (\<lambda>s'. nf s' = nf s) (setupTun exec c)"
    unfolding setupTun_def Let_def
    by (intro steps_keeps) (simp add: quiet_nf [OF assms] keeps_def runQuiet_def netfilter_other [OF assms])
  then show ?thesis by (simp add: keeps_def)
qed

lemma setup_host_frame:
  assumes "netfilter exec nf" "clean (nf s)"
  shows "case setup_host exec c s of
      None \<Rightarrow> False | Some (None, s') \<Rightarrow> frame (nf s) (nf s') | Some (Some e, s') \<Rightarrow> nf s' = nf s"
proof -
  let ?f0 = "nf s"
  note hp = netfilter_host_property [OF assms(1), of c ?f0]
  note restores = cleanup_restores [OF assms, of _ c] cleanupRouting_restores [OF assms, of _ c]
  obtain s1 where s1: "cleanup exec c s = Some s1" "nf s1 = ?f0" using restores(1) frame_clean [OF assms(2)] by blast
  obtain e2 s2 where s2: "setupTun exec c s1 = (e2, s2)" by fastforce
  have n2: "nf s2 = ?f0" using setupTun_nf [OF assms(1), of c s1] s1 s2 by simp
  then have f2: "frame ?f0 (nf s2)" using frame_clean [OF assms(2)] by simp
  obtain e3 s3 where s3: "setupRouting exec c s2 = (e3, s3)" by fastforce
  have f3: "frame ?f0 (nf s3)" using keepsD [OF host_property.setupRouting_keeps [OF hp] f2] s3 by simp
  obtain e4 s4 where s4: "setupSmartReturnPolicy exec c s3 = (e4, s4)" by fastforce
  have f4: "frame ?f0 (nf s4)" using keepsD [OF host_property.setupSmartReturnPolicy_keeps [OF hp] f3] s4 by simp
  obtain e5 s5 where s5: "setupCarrierFirewall exec c s4 = (e5, s5)" by fastforce
  have f5: "frame ?f0 (nf s5)" using keepsD [OF host_property.setupCarrierFirewall_keeps [OF hp] f4] s5 by simp
  consider "e2 \<noteq> None" | "e2 = None" "e3 \<noteq> None" | "e2 = None" "e3 = None" "e4 \<noteq> None"
    | "e2 = None" "e3 = None" "e4 = None" "e5 \<noteq> None" | "e2 = None" "e3 = None" "e4 = None" "e5 = None"
    by blast
  then show ?thesis
    using restores(2) [OF f3] restores(1) [OF f4] restores(1) [OF f5] n2 f5
    by cases (auto simp: setup_host_def s1 s2 s3 s4 s5)
qed

text \<open>The monitor only changes the host through \<open>setKharejReturnPath\<close>.\<close>

lemma probe_keeps:
  assumes "\<And>p. keeps I (setKharejReturnPath exec c p)" "I (m_host m)"
  shows "I (m_host (snd (probe exec c key rnd now waits m)))"
proof -
  have f: "I (m_host (follow exec c ok m))" if "I (m_host m)" for ok m
    using keepsD [OF assms(1) that] that by (simp add: follow_def Let_def case_prod_beta)
  show ?thesis by (simp add: probe_def f assms(2) split: option.split prod.split)
qed

lemma monitor_wake_keeps:
  assumes k: "\<And>p. keeps I (setKharejReturnPath (g_exec g) (g_config g) p)" and "I host"
  shows "I (snd (snd (monitor_wake g cancelled w t st host)))"
proof -
  have f: "I (m_host (follow (g_exec g) (g_config g) ok m))" if "I (m_host m)" for ok m
    using keepsD [OF k that] that by (simp add: follow_def Let_def case_prod_beta)
  have b: "I (m_host (snd (probe_begin g w m)))" if "I (m_host m)" for m
    using probe_keeps [OF k that, of "g_key g" "wk_rnd w" "wk_now w" "[]"]
    by (simp add: probe_begin_def case_prod_beta split: option.split)
  have q: "I (m_host (snd (probe_wait g e nonce m)))" if "I (m_host m)" for e nonce m
    using that f by (simp add: probe_wait_def case_prod_beta Let_def del: wait_loop.simps split: option.split)
  have s: "I (snd (snd (monitor_start g w st host)))"
    using assms(2) keepsD [OF k assms(2)] b by (auto simp: monitor_start_def case_prod_beta Let_def split: sum.split)
  show ?thesis
    using assms(2) b q s
    by (auto simp: monitor_wake_def on_monitor_def case_prod_beta Let_def split: thread.split select_case.split)
qed

lemma perform_keeps:
  assumes "\<And>p. keeps I (setKharejReturnPath (g_exec g) (g_config g) p)"
  shows "I (d_host d) \<Longrightarrow> I (d_host (perform g hs d))"
proof (induction hs arbitrary: d)
  case (Cons h hs)
  have "I (d_host (snd (wake_thread g w t d)))" for w t
    using Cons.prems monitor_wake_keeps [OF assms Cons.prems]
    by (cases t) (simp_all add: wake_thread_def on_node_def ticker_wake_def stats_wake_def case_prod_beta Let_def
        split: select_case.split option.split)
  then have "I (d_host (happens g h d))"
    using Cons.prems by (simp add: happens_def case_prod_beta Let_def split: happening.split)
  then show ?case using Cons.IH by simp
qed simp

text \<open>Only the probe monitor touches the host.\<close>

definition monitoring :: "thread \<Rightarrow> bool" where
  "monitoring t = (case t of MonitorStart \<Rightarrow> True | MonitorAwait _ _ _ \<Rightarrow> True | MonitorSelect _ _ \<Rightarrow> True | _ \<Rightarrow> False)"

lemma not_monitoring: "belongs r t \<Longrightarrow> r \<noteq> ProbeMonitor \<Longrightarrow> \<not> monitoring t"
  by (cases r; cases t) (simp_all add: monitoring_def)

lemma wake_not_monitoring:
  "\<not> monitoring t \<Longrightarrow> \<not> monitoring (fst (wake_thread g w t d)) \<and> d_host (snd (wake_thread g w t d)) = d_host d"
  by (cases t)
    (auto simp: wake_thread_def on_node_def recv_wake_def tun_wake_def client_wake_def hello_wake_def responder_wake_def
      responder_start_def ticker_wake_def stats_wake_def monitoring_def case_prod_beta Let_def split: option.split select_case.split)

lemma happens_not_monitoring:
  assumes "\<forall>t\<in>set (d_threads d). \<not> monitoring t"
  shows "(\<forall>t\<in>set (d_threads (happens g h d)). \<not> monitoring t) \<and> d_host (happens g h d) = d_host d"
proof (cases h)
  case (Wake i w)
  with assms wake_not_monitoring [of "d_threads d ! i" g w d] show ?thesis
    by (auto simp: happens_def case_prod_beta Let_def dest!: set_update_subset_insert [THEN subsetD])
qed (use assms in \<open>simp add: happens_def\<close>)

lemma perform_not_monitoring: "\<forall>t\<in>set (d_threads d). \<not> monitoring t \<Longrightarrow> d_host (perform g hs d) = d_host d"
  by (induction hs arbitrary: d) (simp_all add: happens_not_monitoring)

subsection \<open>The device and the carrier\<close>

definition carrier_closed :: "carrier \<Rightarrow> bool" where
  "carrier_closed car =
     (case car of
        UDP u \<Rightarrow> uc_closed (u_conn u)
      | TCP s \<Rightarrow> s_closed s \<and> s_conn s = None \<and> s_listener s \<noteq> Some True
      | KCPStream k \<Rightarrow> s_closed (k_stream k) \<and> s_conn (k_stream k) = None \<and> s_listener (k_stream k) \<noteq> Some True \<and>
          uc_closed (k_packetConn k))"

lemma on_conn_stream: "s_closed (snd (on_conn i f s)) = s_closed s" "s_listener (snd (on_conn i f s)) = s_listener s"
  by (simp_all add: on_conn_def Let_def case_prod_beta)

lemma stream_Close_closed:
  "s_closed (snd (stream_Close s)) \<and> s_conn (snd (stream_Close s)) = None \<and> s_listener (snd (stream_Close s)) \<noteq> Some True"
  by (simp add: stream_Close_def Let_def case_prod_beta on_conn_stream split: option.split)

lemma CloseCarrier_closed: "carrier_closed (snd (CloseCarrier (carrier_ops res) car))"
  using stream_Close_closed
  by (cases car) (auto simp: carrier_closed_def carrier_ops_def udp_Close_def kcp_Close_def CloseUDP_def Let_def case_prod_beta)

text \<open>A closed stream carrier is left alone by reads and writes, but for the answers of the context.\<close>

lemma read_turn_closed:
  assumes "s_closed s"
  shows "\<exists>x. snd (read_turn len s) = s\<lparr>s_ctx := x\<rparr>"
proof -
  have "snd (read_turn len s) = snd (ctx_err s)"
    using assms by (simp add: read_turn_def ensureConn_with_def current_conn_def case_prod_beta)
  moreover have "s = s\<lparr>s_ctx := s_ctx s\<rparr>" by simp
  then have "\<exists>x. s = s\<lparr>s_ctx := x\<rparr>" by (rule exI)
  ultimately show ?thesis by (auto simp: ctx_err_def split: list.split)
qed

lemma stream_ReadPacket_closed: "s_closed s \<Longrightarrow> \<exists>x. snd (stream_ReadPacket len s) = s\<lparr>s_ctx := x\<rparr>"
proof (induction len s rule: stream_ReadPacket.induct)
  case (1 len s)
  obtain x where x: "snd (read_turn len s) = s\<lparr>s_ctx := x\<rparr>" using read_turn_closed [OF 1(2)] by blast
  show ?case
  proof (cases "fst (read_turn len s)")
    case None
    then have "read_turn len s = (None, s\<lparr>s_ctx := x\<rparr>)" using x by (simp add: prod_eq_iff)
    moreover from 1(1) [OF this [symmetric]] 1(2) obtain y where
      "snd (stream_ReadPacket len (s\<lparr>s_ctx := x\<rparr>)) = s\<lparr>s_ctx := x, s_ctx := y\<rparr>" by auto
    ultimately show ?thesis by (auto simp: stream_ReadPacket.simps [of len s])
  next
    case (Some r)
    with x show ?thesis by (auto simp: stream_ReadPacket.simps [of len s] split: prod.splits)
  qed
qed

lemma stream_WritePacket_closed: "s_closed s \<Longrightarrow> snd (stream_WritePacket p peer s) = s"
  by (simp add: stream_WritePacket_def numeral_2_eq_2 ensureConn_with_def current_conn_def)

interpretation closed: carrier_property res carrier_closed for res
proof
  fix car :: carrier and len p peer
  assume c: "carrier_closed car"
  show "carrier_closed (snd (ReadPacket (carrier_ops res) len car))"
  proof (cases car)
    case (TCP s)
    with c stream_ReadPacket_closed [of s len] show ?thesis
      by (auto simp: carrier_closed_def carrier_ops_def on_stream_def Let_def case_prod_beta)
  next
    case (KCPStream k)
    with c stream_ReadPacket_closed [of "k_stream k" len] show ?thesis
      by (auto simp: carrier_closed_def carrier_ops_def on_stream_def Let_def case_prod_beta)
  qed (use c in \<open>simp add: carrier_closed_def carrier_ops_def udp_down Let_def case_prod_beta\<close>)
  show "carrier_closed (snd (WritePacket (carrier_ops res) p peer car))"
    using c stream_WritePacket_closed udp_down(2)
    by (cases car) (auto simp: carrier_closed_def carrier_ops_def on_stream_def Let_def case_prod_beta)
qed

lemma tun_Close_files:
  assumes "tun_ok tk"
  shows "open_files (snd (snd (tun_Close tk))) = open_files (snd tk) - set (t_queues (fst tk))"
    and "tun_Close (snd (tun_Close tk)) = (None, snd (tun_Close tk))"
proof -
  obtain err t' k' where c: "tun_Close (fst tk, snd tk) = (err, t', k')" by (metis prod_cases3)
  from tun_Close_final [of "fst tk" "snd tk", OF _ c] assms
  show "open_files (snd (snd (tun_Close tk))) = open_files (snd tk) - set (t_queues (fst tk))" using c by simp
  show "tun_Close (snd (tun_Close tk)) = (None, snd (tun_Close tk))"
    by (cases tk) (simp add: tun_Close_def Let_def case_prod_beta)
qed

lemma serve_shutting:
  assumes "tun_ok tk" "serve exec c env tk car s = (err, complete, d)"
  shows "shutting_down (open_files (snd tk) - set (t_queues (fst tk))) d"
proof -
  let ?g = "run_closure exec c env"
  have "node_inv (t_queues (fst tk)) (open_files (snd tk)) (d_node (perform ?g (rn_before env) (start_daemon c car tk s)))"
    using worker_turns_inv [OF perform_turns [of ?g "start_daemon c car tk s"]] start_node_inv [OF assms(1)]
    by (simp add: start_daemon_def)
  from perform_shutting_down [OF close_down_shutting [OF this, of ?g], of ?g "rn_after env"] assms(2) show ?thesis
    by (auto simp: serve_def Let_def)
qed

text \<open>The deferred closing of the carrier, and the turns that a goroutine which has not returned takes beside
  the other deferred calls.\<close>

definition leftover :: "'s exec \<Rightarrow> Config \<Rightarrow> run_env \<Rightarrow> 's daemon \<Rightarrow> 's \<Rightarrow> 's daemon" where
  "leftover exec c env d s =
     perform (run_closure exec c env) (rn_late env)
       (d\<lparr>d_node := (d_node d)\<lparr>n_carrier := snd (CloseCarrier (carrier_ops (rn_resolver env)) (n_carrier (d_node d)))\<rparr>, d_host := s\<rparr>)"

lemma leftover_node:
  assumes "shutting_down files d"
  shows "device_inv [] files (n_tun (d_node (leftover exec c env d s)))" "carrier_closed (n_carrier (d_node (leftover exec c env d s)))"
proof -
  let ?g = "run_closure exec c env"
  let ?car = "snd (CloseCarrier (carrier_ops (rn_resolver env)) (n_carrier (d_node d)))"
  let ?d = "d\<lparr>d_node := (d_node d)\<lparr>n_carrier := ?car\<rparr>, d_host := s\<rparr>"
  have "shutting_down files ?d" using assms CloseCarrier_down by (simp add: shutting_down_def node_inv_def)
  from perform_shutting_down [OF this, of ?g "rn_late env"]
  show "device_inv [] files (n_tun (d_node (leftover exec c env d s)))" by (simp add: leftover_def shutting_down_def node_inv_def)
  have "carrier_closed (n_carrier (d_node ?d))" using CloseCarrier_closed by simp
  from closed.turns_keep_P [OF perform_turns [of ?g ?d "rn_late env"] this]
  show "carrier_closed (n_carrier (d_node (leftover exec c env d s)))" by (simp add: leftover_def)
qed

lemma leftover_host:
  assumes "\<And>p. keeps I (setKharejReturnPath exec c p)" "I s"
  shows "I (d_host (leftover exec c env d s))"
  unfolding leftover_def by (rule perform_keeps) (simp_all add: assms run_closure_def)

lemma serve_host:
  assumes "\<And>p. keeps I (setKharejReturnPath exec c p)" "I s" "serve exec c env tk car s = (err, complete, d)"
  shows "I (d_host d)"
proof -
  let ?g = "run_closure exec c env"
  have k: "\<And>p. keeps I (setKharejReturnPath (g_exec ?g) (g_config ?g) p)" using assms(1) by (simp add: run_closure_def)
  have "I (d_host (close_down ?g (perform ?g (rn_before env) (start_daemon c car tk s))))"
    using perform_keeps [OF k, of "start_daemon c car tk s"] assms(2) by (simp add: close_down_def start_daemon_def Let_def)
  from perform_keeps [OF k this] assms(3) show ?thesis by (auto simp: serve_def Let_def)
qed

text \<open>When every goroutine has returned, or none of them is a monitor, nothing happens to the host any more.\<close>

lemma serve_not_monitoring:
  assumes "serve exec c env tk car s = (err, complete, d)" "complete \<or> Role c = ''iran'' \<or> \<not> Enabled (SmartReturn c)"
  shows "\<forall>t\<in>set (d_threads d). \<not> monitoring t"
proof (cases complete)
  case True
  with assms(1) have "all_returned d" by (auto simp: serve_def Let_def)
  then show ?thesis by (auto simp: all_returned_def list_all_iff monitoring_def)
next
  case False
  let ?g = "run_closure exec c env"
  have "list_all2 belongs (goroutines c (QueueCount (fst tk))) (d_threads d)"
  proof -
    have "list_all2 belongs (goroutines c (QueueCount (fst tk)))
        (d_threads (perform ?g (rn_after env) (close_down ?g (perform ?g (rn_before env) (start_daemon c car tk s)))))"
      by (intro perform_belongs, unfold close_down_threads, intro perform_belongs)
        (simp add: start_daemon_def list_all2_conv_all_nth entry_point_belongs)
    with assms(1) show ?thesis by (auto simp: serve_def Let_def)
  qed
  moreover have "ProbeMonitor \<notin> set (goroutines c (QueueCount (fst tk)))"
    using assms(2) False by (auto simp: goroutines_def)
  ultimately show ?thesis by (metis in_set_conv_nth list_all2_conv_all_nth not_monitoring)
qed

lemma leftover_quiet: "\<forall>t\<in>set (d_threads d). \<not> monitoring t \<Longrightarrow> d_host (leftover exec c env d s) = s"
  by (simp add: leftover_def perform_not_monitoring)

lemma setKharejReturnPath_nf: "netfilter exec nf \<Longrightarrow> keeps (\<lambda>s. nf s = f) (setKharejReturnPath exec c p)"
  by (simp add: keeps_def setKharejReturnPath_def runQuiet_def netfilter_other)

lemma run_served:
  assumes "openTun (Name (Tun c)) (TunQueues (c_Performance c)) (rn_kernel env) = (Inr tun, k)"
    and "setup_host exec c s = Some (None, s')" "newCarrier (rn_resolver env) c (rn_net env) = Inr car"
    and "serve exec c env (tun, k) car s' = (err, complete, d)" "cleanup exec c (d_host d) = Some s3"
  shows "\<exists>r. run exec c env s = Some r \<and> rr_complete r = complete \<and> rr_host r = d_host (leftover exec c env d s3) \<and>
    rr_kernel r = snd (snd (tun_Close (n_tun (d_node (leftover exec c env d s3))))) \<and>
    rr_carrier r = Some (n_carrier (d_node (leftover exec c env d s3))) \<and> rr_socket r = None"
  using assms by (simp add: run_def leftover_def Let_def)

lemma run_after_setup:
  assumes "netfilter exec nf" "clean (nf s)"
    and o: "openTun (Name (Tun c)) (TunQueues (c_Performance c)) (rn_kernel env) = (Inr tun, k)"
    and ok: "tun_ok (tun, k)" and f: "open_files k - set (t_queues tun) = open_files (rn_kernel env)"
    and up: "setup_host exec c s = Some (None, s')" "frame (nf s) (nf s')"
  shows "\<exists>r. run exec c env s = Some r \<and> nf (rr_host r) = nf s \<and>
    open_files (rr_kernel r) = open_files (rn_kernel env) \<and> pred_option carrier_closed (rr_carrier r) \<and> pred_option uc_closed (rr_socket r)"
proof (cases "newCarrier (rn_resolver env) c (rn_net env)")
  case (Inl x)
  obtain e sock where x: "x = (e, sock)" by (cases x)
  obtain s2 where "cleanup exec c s' = Some s2" "nf s2 = nf s"
    using cleanup_restores [OF assms(1,2) up(2)] by blast
  with o up(1) Inl tun_Close_files(1) [OF ok, simplified, unfolded f] newCarrier_fails_closed [OF Inl [unfolded x]]
  show ?thesis by (simp add: x run_def Let_def)
next
  case (Inr car)
  obtain err complete d where sv: "serve exec c env (tun, k) car s' = (err, complete, d)" by (metis prod_cases3)
  have "frame (nf s) (nf (d_host d))"
    by (rule serve_host [where I = "\<lambda>s'. frame (nf s) (nf s')", OF _ _ sv])
      (simp_all add: up(2) host_property.setKharejReturnPath_keeps [OF netfilter_host_property [OF assms(1)]])
  then obtain s3 where s3: "cleanup exec c (d_host d) = Some s3" "nf s3 = nf s"
    using cleanup_restores [OF assms(1,2)] by blast
  let ?d = "leftover exec c env d s3"
  note sh = serve_shutting [OF ok sv]
  have "nf (d_host ?d) = nf s"
    using leftover_host [where I = "\<lambda>s1. nf s1 = nf s", of exec c s3 env d] s3(2) setKharejReturnPath_nf [OF assms(1)] by blast
  moreover have "device_inv [] (open_files (rn_kernel env)) (snd (tun_Close (n_tun (d_node ?d))))"
    using tun_Close_inv [OF leftover_node(1) [OF sh]] f by simp
  moreover note leftover_node(2) [OF sh, of exec c env s3]
  ultimately show ?thesis using run_served [OF o up(1) Inr sv s3(1)] by (auto simp: device_inv_def)
qed

subsection \<open>Properties\<close>

text \<open>Whichever way it returns, by an error of any setup step, by an error of the data plane or by a
  signal, and whatever the schedule of the goroutines was, \<open>run\<close> does return, the packet filter is what it was before, no file of the TUN device is left open, and the
  carrier and the socket of a carrier that could not be created are closed.\<close>

lemma run_returns:
  assumes "netfilter exec nf" "clean (nf s)"
  shows "\<exists>r. run exec c env s = Some r \<and> nf (rr_host r) = nf s \<and>
    open_files (rr_kernel r) = open_files (rn_kernel env) \<and> pred_option carrier_closed (rr_carrier r) \<and> pred_option uc_closed (rr_socket r)"
proof -
  obtain o1 k where o: "openTun (Name (Tun c)) (TunQueues (c_Performance c)) (rn_kernel env) = (o1, k)" by fastforce
  note op = openTun_open [where name = "Name (Tun c)" and queueCount = "TunQueues (c_Performance c)" and k = "rn_kernel env", unfolded o]
  show ?thesis
  proof (cases o1)
    case (Inl e)
    with op o show ?thesis by (simp add: run_def Let_def)
  next
    case (Inr tun)
    have ok: "tun_ok (tun, k)" and f: "open_files k - set (t_queues tun) = open_files (rn_kernel env)"
      using op by (auto simp: Inr)
    note cl = tun_Close_files(1) [OF ok, simplified, unfolded f]
    note h = setup_host_frame [OF assms(1,2), of c]
    consider (fail) e s' where "setup_host exec c s = Some (Some e, s')" "nf s' = nf s"
      | (up) s' where "setup_host exec c s = Some (None, s')" "frame (nf s) (nf s')"
      using h by (cases "setup_host exec c s"; cases "fst (the (setup_host exec c s))") (auto split: prod.splits)
    then show ?thesis
    proof cases
      case fail
      with o Inr cl show ?thesis by (simp add: run_def Let_def)
    next
      case up
      show ?thesis by (rule run_after_setup [OF assms o [unfolded Inr] ok f up])
    qed
  qed
qed

definition demo_run_env :: run_env where
  "demo_run_env = \<lparr>rn_kernel = \<lparr>tk_files = [], tk_opens = []\<rparr>, rn_resolver = no_resolver, rn_unicode = g_unicode demo_closure,
     rn_net = demo_net, rn_before = [Wake 2 (demo_wake OnTimer), Wake 3 (demo_wake OnTimer)], rn_takes_error = False,
     rn_after = [Wake 2 (demo_wake OnDone)], rn_late = [Wake 0 (demo_wake OnDone)]\<rparr>"

text \<open>An unprivileged invocation never touches the host, whatever the flags and the configuration:
  the program always ends and the host is unchanged.\<close>

lemma unprivileged_harmless:
  assumes "euid \<noteq> 0"
  shows "\<exists>out. main_program exec env fl manager rnd buildRef file euid renv s = Some (out, s)"
  using assms by (auto simp: main_program_def split: sum.split option.split)

text \<open>\<open>-cleanup\<close> after any history of setup operations, also after a daemon that was killed, gives the
  administrator's packet filter back.\<close>

lemma cleanup_mode_restores:
  assumes "netfilter exec nf" "clean (nf s0)" "host_run exec cfg s0 s"
    and "loadConfig env file = Inr cfg" "fl_cleanup fl"
    and "\<not> fl_noargs fl" "\<not> fl_menu fl" "\<not> fl_version fl" "\<not> fl_keygen fl" "\<not> fl_summary fl" "\<not> fl_check fl"
  shows "\<exists>s'. main_program exec env fl manager rnd buildRef file 0 renv s = Some (Printed [], s') \<and> nf s' = nf s0"
proof -
  have "frame (nf s0) (nf s)"
    using host_run_keeps [OF netfilter_host_property [OF assms(1), of cfg "nf s0"] assms(3)] frame_clean [OF assms(2)] by blast
  from cleanup_restores [OF assms(1,2) this, of cfg] assms(4-) show ?thesis by (auto simp: main_program_def)
qed

text \<open>A generated key works: the text that \<open>-keygen\<close> prints for 32 random bytes, put into a
  configuration, is decoded by the daemon to exactly these bytes and passes the key check.\<close>

lemma keygen_roundtrip:
  assumes "length b = 32"
  shows "\<exists>k. keygen (Some b) = Some k \<and> run_key (c\<lparr>c_Transport := (c_Transport c)\<lparr>Key := k\<rparr>\<rparr>) = b \<and>
    check_addresses res (c\<lparr>c_Transport := (c_Transport c)\<lparr>Key := k\<rparr>\<rparr>) \<noteq> Some BadKey"
  using assms by (auto simp: keygen_def run_key_def b64_decode_encode check_addresses_def Let_def split: if_splits)

text \<open>The configuration summary is safe to show: it is the same whatever the shared key is.\<close>

lemma summary_hides_key:
  "printConfigSummary (c\<lparr>c_Transport := (c_Transport c)\<lparr>Key := k\<rparr>\<rparr>) = printConfigSummary c"
  by (simp add: printConfigSummary_def Let_def)

end
