(* ===== verification/Installed_Rules.thy ===== *)
theory Installed_Rules
  imports Daemon_Safe
begin

text \<open>
  The chains of the packet filter after a successful start: which rules each Hashshashin chain holds,
  and that its hook jumps to it first.
\<close>

subsection \<open>The input chain of Kharej\<close>

lemma or_cleanup_appends: "appends nf k f rs \<Longrightarrow> appends nf k (or_cleanup exec c f) rs"
  by (auto simp: appends_def or_cleanup_def split: prod.splits option.splits)

lemma quiet_appends: "(\<And>s. nf (f s) = nf s) \<Longrightarrow> appends nf k (\<lambda>s. (None, f s)) []"
  by (simp add: appends_def)

lemma cleanupSmartReturnPolicy_nf: "netfilter exec nf \<Longrightarrow> nf (cleanupSmartReturnPolicy exec c s) = nf s"
  by (simp add: cleanupSmartReturnPolicy_def quiet_all_nf)

lemma setKharejReturnPath_appends:
  assumes "netfilter exec nf"
  shows "appends nf k (setKharejReturnPath exec c path) []"
  using runCmd_appends [OF assms, of "(''ip'', _)" k] netfilter_other [OF assms]
  by (auto simp: appends_def setKharejReturnPath_def runQuiet_def)

lemma smart_rules_append:
  assumes "netfilter exec nf"
  shows "list_all2 (appends nf (''filter'', ch)) (smart_port_rules exec c p proto) (map (\<lambda>_. []) (smart_port_rules exec c p proto))"
  using ipt_appends [OF assms, of "(''filter'', ch)" "''mangle''"]
  by (auto simp: smart_port_rules_def Let_def intro!: or_cleanup_appends)

lemma setupSmartReturnPolicy_filter:
  assumes "netfilter exec nf"
  shows "appends nf (''filter'', ch) (setupSmartReturnPolicy exec c) []"
proof -
  let ?k = "(''filter'', ch)"
  let ?rules = "per_service c (smart_port_rules exec c)"
  have "list_all2 (appends nf ?k)
      ([\<lambda>s. (None, cleanupSmartReturnPolicy exec c s),
        runCmd exec (''ip'', [''rule'', ''add'', ''priority'', ''68'', ''fwmark'', hex_mark returnMark, ''lookup'', itoa returnTable])] @
       ?rules @ [setKharejReturnPath exec c returnPathDirect])
      ([[], []] @ per_service c (\<lambda>p proto. map (\<lambda>_. []) (smart_port_rules exec c p proto)) @ [[]])"
    using quiet_appends [of nf "cleanupSmartReturnPolicy exec c" ?k, OF cleanupSmartReturnPolicy_nf [OF assms]]
      setKharejReturnPath_appends [OF assms] runCmd_appends [OF assms]
    by (intro list_all2_appendI list_all2_appends_concat smart_rules_append [OF assms]) simp_all
  from appends_steps [OF this] show ?thesis
    by (simp add: appends_def setupSmartReturnPolicy_def concat_concat_map concat_Nils)
qed

text \<open>The carrier's rule goes in front of the chain and nothing else changes.\<close>

lemma setupCarrierFirewall_input:
  assumes nf: "netfilter exec nf" and ok: "setupCarrierFirewall exec c s = (None, s')"
    and k: "nf s (''filter'', ''HSH_INPUT'') = Some rs" "nf s (''filter'', ''INPUT'') = Some ins" "[''-j'', ''HSH_INPUT''] \<in> set ins"
  shows "nf s' (''filter'', ''INPUT'') = Some ins \<and>
    (\<exists>pre. nf s' (''filter'', ''HSH_INPUT'') = Some (pre @ rs) \<and>
      (\<forall>r\<in>set pre. \<exists>port src. listenPort (Listen (c_Transport c)) = Inr port \<and> r = carrier_rule c src port \<and>
         src = (if Role c = ''iran'' then ForeignPublicIP (Network c) else IranPublicIP (Network c))))"
proof -
  let ?src = "if Role c = ''iran'' then ForeignPublicIP (Network c) else IranPublicIP (Network c)"
  show ?thesis
  proof (cases "PublicInterface (Network c) = '''' \<or> PublicIP (Network c) = '''' \<or> ?src = ''''")
    case True
    with ok have "s' = s" by (auto simp: setupCarrierFirewall_def Let_def split: if_splits)
    with k show ?thesis by (intro conjI exI [of _ "[]"]) simp_all
  next
    case False
    then obtain port where port: "listenPort (Listen (c_Transport c)) = Inr port"
      using ok by (auto simp: setupCarrierFirewall_def Let_def split: if_splits sum.splits)
    let ?args = "carrier_rule c ?src port"
    define s1 where "s1 = snd (exec (ipt_cmd ''filter'' [''-N'', ''HSH_INPUT'']) s)"
    obtain e2 s2 where s2: "exec (ipt_cmd ''filter'' [''-C'', ''INPUT'', ''-j'', ''HSH_INPUT'']) s1 = (e2, s2)" by fastforce
    obtain e3 s3 where s3: "exec (ipt_cmd ''filter'' ([''-C'', ''HSH_INPUT''] @ ?args)) s2 = (e3, s3)" by fastforce
    have n1: "nf s1 = nf s"
      using netfilter_cases [OF nf, of "[''-t'', ''filter'', ''-N'', ''HSH_INPUT'']" s] k(1)
      by (auto simp: s1_def ipt_cmd_def ipt_effect_def)
    have rel: "reliable [''-t'', ''filter'', ''-C'', ''INPUT'', ''-j'', ''HSH_INPUT'']"
      "reliable ([''-t'', ''filter'', ''-C'', ''HSH_INPUT''] @ ?args)"
      by (simp_all add: reliable_def)
    have e2: "e2 = None" "nf s2 = nf s"
      using netfilter_reliable [OF nf rel(1), of s1] s2 k(2,3) n1 by (simp_all add: ipt_cmd_def ipt_effect_def chain_effect_def)
    have e3: "nf s3 = nf s"
      using netfilter_reliable(1) [OF nf rel(2), of s2] s3 k(1) e2 by (simp add: ipt_cmd_def ipt_effect_def chain_effect_def split: if_splits)
    have run: "e3 = None \<and> s' = s3 \<or> exec (ipt_cmd ''filter'' ([''-I'', ''HSH_INPUT'', ''1''] @ ?args)) s3 = (None, s')"
      using ok False port s2 s3 e2(1)
      by (auto simp: setupCarrierFirewall_def Let_def runQuiet_def s1_def [symmetric] ipt_def runCmd_def
          split: if_splits prod.splits option.splits)
    then have "nf s' = nf s \<or> nf s' = (nf s)((''filter'', ''HSH_INPUT'') \<mapsto> ?args # rs)"
      using netfilter_ok [OF nf, of "[''-t'', ''filter'', ''-I'', ''HSH_INPUT'', ''1''] @ ?args" s3] k(1) e3
      by (auto simp: ipt_cmd_def ipt_effect_def chain_effect_def)
    then show ?thesis
    proof
      assume "nf s' = nf s"
      with k show ?thesis by (intro conjI exI [of _ "[]"]) simp_all
    next
      assume "nf s' = (nf s)((''filter'', ''HSH_INPUT'') \<mapsto> ?args # rs)"
      with k port show ?thesis by (intro conjI exI [of _ "[?args]"]) simp_all
    qed
  qed
qed

lemma clean_no_jump: "clean f \<Longrightarrow> f k = Some rs \<Longrightarrow> (t, h, cu) \<in> set all_chains \<Longrightarrow> [''-j'', cu] \<notin> set rs"
  by (cases k) (force simp: clean_def list_all_iff plain_rule_def custom_chains_def)

text \<open>The steps of a successful \<open>setup_host\<close>, the first of which restore the administrator's filter.\<close>

lemma setup_host_steps:
  assumes "netfilter exec nf" "clean (nf s)" "setup_host exec c s = Some (None, s')"
  obtains s1 s2 s3 where "nf s1 = nf s" "setupRouting exec c s1 = (None, s2)" "setupSmartReturnPolicy exec c s2 = (None, s3)"
    "setupCarrierFirewall exec c s3 = (None, s')"
proof -
  obtain s0 where s0: "cleanup exec c s = Some s0" "nf s0 = nf s"
    using cleanup_restores [OF assms(1,2) frame_clean [OF assms(2)]] by blast
  obtain e1 s1 where s1: "setupTun exec c s0 = (e1, s1)" by fastforce
  then have n1: "nf s1 = nf s" using setupTun_nf [OF assms(1), of c s0] s0(2) by simp
  show ?thesis
    using assms(3) s0(1) s1 that [OF n1]
    by (auto simp: setup_host_def split: prod.splits option.splits)
qed

lemma kharej_input_installed:
  assumes nf: "netfilter exec nf" "clean (nf s)" and c: "Role c \<noteq> ''iran''" "Ports c \<noteq> []"
    and ok: "setup_host exec c s = Some (None, s')"
  obtains pre rest where "nf s' (''filter'', ''INPUT'') = Some ([''-j'', ''HSH_INPUT''] # rest)"
    "nf s' (''filter'', ''HSH_INPUT'') = Some (pre @ per_service c (service_rules c))"
    "\<And>r. r \<in> set pre \<Longrightarrow> \<exists>port. listenPort (Listen (c_Transport c)) = Inr port \<and> r = carrier_rule c (IranPublicIP (Network c)) port"
proof -
  obtain s1 s2 s3 where s: "nf s1 = nf s" "setupRouting exec c s1 = (None, s2)" "setupSmartReturnPolicy exec c s2 = (None, s3)"
    "setupCarrierFirewall exec c s3 = (None, s')"
    using setup_host_steps [OF nf ok] by blast
  have "setupKharejRouting exec c s1 = (None, s2)" using s(2) c by (simp add: setupRouting_def)
  from kharej_services_installed [OF nf(1) this] obtain rs0 where
    r: "nf s2 (''filter'', ''HSH_INPUT'') = Some (per_service c (service_rules c))" "nf s (''filter'', ''INPUT'') = Some rs0"
    "[''-j'', ''HSH_INPUT''] \<notin> set rs0 \<longrightarrow> nf s2 (''filter'', ''INPUT'') = Some ([''-j'', ''HSH_INPUT''] # rs0)"
    using s(1) by auto
  have "[''-j'', ''HSH_INPUT''] \<notin> set rs0"
    by (rule clean_no_jump [OF nf(2) r(2), of "''filter''" "''INPUT''"]) (simp add: all_chains_def)
  with r s(3) setupSmartReturnPolicy_filter [OF nf(1), of "''INPUT''" c] setupSmartReturnPolicy_filter [OF nf(1), of "''HSH_INPUT''" c]
  have s3: "nf s3 (''filter'', ''HSH_INPUT'') = Some (per_service c (service_rules c))"
    "nf s3 (''filter'', ''INPUT'') = Some ([''-j'', ''HSH_INPUT''] # rs0)"
    by (auto simp: appends_def)
  obtain pre where
    "nf s' (''filter'', ''INPUT'') = Some ([''-j'', ''HSH_INPUT''] # rs0)"
    "nf s' (''filter'', ''HSH_INPUT'') = Some (pre @ per_service c (service_rules c))"
    "\<And>r. r \<in> set pre \<Longrightarrow> \<exists>port. listenPort (Listen (c_Transport c)) = Inr port \<and> r = carrier_rule c (IranPublicIP (Network c)) port"
    using setupCarrierFirewall_input [of exec nf c s3 s' "per_service c (service_rules c)" "[''-j'', ''HSH_INPUT''] # rs0"]
      nf(1) s(4) s3 c(1) by simp metis
  then show ?thesis by (rule that)
qed

subsection \<open>The chains of Iran\<close>

text \<open>The rules that \<open>setupIranRouting\<close> appends, with their chains, in order.\<close>

definition iran_service_rules :: "Config \<Rightarrow> Port \<Rightarrow> string \<Rightarrow> (string \<times> string \<times> rule) list" where
  "iran_service_rules c p proto =
     (let net = Network c; tun = Name (Tun c); port = itoa (p_Port p)
      in [(''mangle'', ''HSH_MPRE'', [''-i'', PublicInterface net, ''-d'', PublicIP net, ''-p'', proto, ''--dport'', port,
             ''-j'', ''MARK'', ''--set-mark'', hex_mark dataMark]),
          (''nat'', ''HSH_NPRE'', [''-i'', PublicInterface net, ''-d'', PublicIP net, ''-p'', proto, ''--dport'', port,
             ''-j'', ''DNAT'', ''--to-destination'', ForeignPublicIP net @ '':'' @ itoa (p_Port p)]),
          (''filter'', ''HSH_FWD'', [''-i'', PublicInterface net, ''-o'', tun, ''-d'', ForeignPublicIP net, ''-p'', proto,
             ''--dport'', port, ''-m'', ''conntrack'', ''--ctstate'', ''NEW,ESTABLISHED'', ''-j'', ''ACCEPT''])])"

definition iran_rules :: "Config \<Rightarrow> (string \<times> string \<times> rule) list" where
  "iran_rules c =
     (let net = Network c; tun = Name (Tun c); mss = itoa (MTU (Tun c) - 40)
      in (if Enabled (SmartReturn c)
          then [(''filter'', ''HSH_INPUT'', [''-i'', PublicInterface net, ''-d'', IranPublicIP net, ''-s'', ForeignPublicIP net,
                  ''-p'', ''udp'', ''--dport'', itoa (ProbePort (SmartReturn c)), ''-j'', ''ACCEPT''])]
          else []) @
         per_service c (iran_service_rules c) @
         [(''nat'', ''HSH_NPOST'', [''-o'', tun, ''-d'', ForeignPublicIP net, ''-j'', ''SNAT'', ''--to-source'', IranPublicIP net]),
          (''filter'', ''HSH_FWD'', [''-i'', tun, ''-o'', PublicInterface net, ''-m'', ''conntrack'', ''--ctstate'',
             ''ESTABLISHED,RELATED'', ''-j'', ''ACCEPT'']),
          (''filter'', ''HSH_FWD'', [''-i'', PublicInterface net, ''-o'', PublicInterface net, ''-m'', ''conntrack'', ''--ctstate'',
             ''ESTABLISHED,RELATED'', ''-j'', ''ACCEPT'']),
          (''mangle'', ''HSH_MFWD'',
           if Mode c = ''full''
           then [''-o'', tun, ''-m'', ''mark'', ''--mark'', hex_mark dataMark, ''-p'', ''tcp'', ''--tcp-flags'', ''SYN,RST'', ''SYN'',
                 ''-j'', ''TCPMSS'', ''--set-mss'', mss]
           else [''-i'', PublicInterface net, ''-o'', PublicInterface net, ''-s'', ForeignPublicIP net, ''-p'', ''tcp'',
                 ''--tcp-flags'', ''SYN,RST'', ''SYN'', ''-m'', ''conntrack'', ''--ctstate'', ''ESTABLISHED'',
                 ''-j'', ''TCPMSS'', ''--set-mss'', mss])])"

definition add_rule :: "'s exec \<Rightarrow> string \<times> string \<times> rule \<Rightarrow> 's \<Rightarrow> cmd_error option \<times> 's" where
  "add_rule exec x = (case x of (t, ch, r) \<Rightarrow> ipt exec t (''-A'' # ch # r))"

definition added :: "string \<times> string \<Rightarrow> (string \<times> string \<times> rule) list \<Rightarrow> rule list" where
  "added k xs = concat (map (\<lambda>(t, ch, r). if k = (t, ch) then [r] else []) xs)"

lemma add_rules_append:
  assumes "netfilter exec nf"
  shows "appends nf k (steps (map (add_rule exec) xs)) (added k xs)"
  unfolding added_def
  by (intro appends_steps) (auto simp: list_all2_conv_all_nth add_rule_def ipt_appends [OF assms] split: prod.split)

definition iran_ip_commands :: "Config \<Rightarrow> command list" where
  "iran_ip_commands c =
     [(''ip'', [''rule'', ''add'', ''priority'', ''66'', ''fwmark'', hex_mark dataMark, ''lookup'', itoa dataTable]),
      (''ip'', [''route'', ''add'', ''table'', itoa dataTable, ForeignPublicIP (Network c) @ ''/32'', ''dev'', Name (Tun c)])]"

lemma map_concat_map: "map f (concat (map g xs)) = concat (map (\<lambda>x. map f (g x)) xs)"
  by (induction xs) simp_all

lemma setupIranRouting_parts:
  "setupIranRouting exec c =
     steps (map (runCmd exec) (iran_ip_commands c) @ map (resetChain exec) iran_hooks @ map (add_rule exec) (iran_rules c))"
proof -
  have "iran_port_rules exec c = (\<lambda>p t. map (add_rule exec) (iran_service_rules c p t))"
    by (simp add: fun_eq_iff iran_port_rules_def iran_service_rules_def add_rule_def Let_def)
  then have "map (add_rule exec) (per_service c (iran_service_rules c)) = per_service c (iran_port_rules exec c)"
    by (simp add: map_concat_map comp_def)
  then show ?thesis
    by (simp add: setupIranRouting_def iran_ip_commands_def iran_rules_def add_rule_def [of exec "(_, _, _)"] Let_def)
qed

lemma runCmds_nf:
  assumes "netfilter exec nf" "list_all (\<lambda>cmd. fst cmd \<noteq> ''iptables'') cmds" "steps (map (runCmd exec) cmds) s = (None, s')"
  shows "nf s' = nf s"
  using assms(2,3)
proof (induction cmds arbitrary: s)
  case (Cons cmd cmds)
  then obtain s1 where "exec cmd s = (None, s1)" "steps (map (runCmd exec) cmds) s1 = (None, s')"
    by (cases "exec cmd s"; cases "fst (exec cmd s)") (auto simp: runCmd_def [of exec cmd s])
  with Cons netfilter_other [OF assms(1), of "fst cmd" "snd cmd" s] show ?case by simp
qed simp

lemma ipt_only:
  assumes "netfilter exec nf" "k \<noteq> (t, ch)"
  shows "nf (snd (exec (ipt_cmd t (op # ch # r)) s)) k = nf s k"
  using netfilter_cases [OF assms(1), of "''-t'' # t # op # ch # r" s] assms(2)
  by (auto simp: ipt_cmd_def ipt_effect_def chain_effect_def split: option.splits if_splits) (metis fun_upd_apply)+

lemma setupCarrierFirewall_other:
  assumes "netfilter exec nf" "k \<noteq> (''filter'', ''INPUT'')" "k \<noteq> (''filter'', ''HSH_INPUT'')"
  shows "nf (snd (setupCarrierFirewall exec c s)) k = nf s k"
proof -
  have o: "nf s2 k = nf s1 k" if "exec (ipt_cmd ''filter'' (op # ch # r)) s1 = (e, s2)" "ch = ''INPUT'' \<or> ch = ''HSH_INPUT''" for op ch r e s1 s2
    using ipt_only [OF assms(1), of k "''filter''" ch op r s1] that assms(2,3) by auto
  show ?thesis
    using ipt_only [OF assms(1,3), of "''-N''" "[]" s]
    by (auto simp: setupCarrierFirewall_def Let_def runQuiet_def ipt_def runCmd_def split: sum.split prod.split option.split dest!: o)
qed

lemma iran_installed:
  assumes nf: "netfilter exec nf" "clean (nf s)" and c: "Role c = ''iran''" "Ports c \<noteq> []"
    and ok: "setup_host exec c s = Some (None, s')" and x: "(t, h, cu) \<in> set iran_hooks" "cu \<noteq> ''HSH_INPUT''"
  shows "nf s' (t, cu) = Some (added (t, cu) (iran_rules c)) \<and> (\<exists>rest. nf s' (t, h) = Some ([''-j'', cu] # rest))"
proof -
  obtain s1 s2 s3 where st: "nf s1 = nf s" "setupRouting exec c s1 = (None, s2)" "setupSmartReturnPolicy exec c s2 = (None, s3)"
    "setupCarrierFirewall exec c s3 = (None, s')"
    by (rule setup_host_steps [OF nf ok])
  have s3: "s3 = s2" using st(3) c(1) by (simp add: setupSmartReturnPolicy_def)
  obtain sa sb where i: "steps (map (runCmd exec) (iran_ip_commands c)) s1 = (None, sa)"
    "steps (map (resetChain exec) iran_hooks) sa = (None, sb)" "steps (map (add_rule exec) (iran_rules c)) sb = (None, s2)"
    using st(2) c by (auto simp: setupRouting_def setupIranRouting_parts steps_append split: prod.splits option.splits)
  have sa: "nf sa = nf s" using runCmds_nf [OF nf(1) _ i(1)] st(1) by (simp add: iran_ip_commands_def)
  have "distinct (concat (map touched iran_hooks))" by (simp add: iran_hooks_def touched_def)
  from conjunct2 [OF hooks_installed [OF nf(1) this i(2)]] x(1)
  obtain rs0 where r: "nf sb (t, cu) = Some []" "nf s (t, h) = Some rs0"
    "[''-j'', cu] \<notin> set rs0 \<longrightarrow> nf sb (t, h) = Some ([''-j'', cu] # rs0)" using sa by fastforce
  have hx: "(t, h, cu) \<in> set all_chains" using x(1) by (auto simp: iran_hooks_def all_chains_def)
  then have "nf sb (t, h) = Some ([''-j'', cu] # rs0)" using r(3) clean_no_jump [OF nf(2) r(2)] by blast
  with r(1) add_rules_append [OF nf(1), of "(t, cu)" "iran_rules c"] add_rules_append [OF nf(1), of "(t, h)" "iran_rules c"] i(3)
  have "nf s2 (t, cu) = Some (added (t, cu) (iran_rules c))" "\<exists>rest. nf s2 (t, h) = Some ([''-j'', cu] # rest)"
    by (auto simp: appends_def)
  moreover have "(t, cu) \<noteq> (''filter'', ''INPUT'')" "(t, h) \<noteq> (''filter'', ''INPUT'')" "(t, h) \<noteq> (''filter'', ''HSH_INPUT'')"
    using x by (auto simp: iran_hooks_def)
  ultimately show ?thesis using setupCarrierFirewall_other [OF nf(1), of _ c s3] st(4) s3 x(2) by auto
qed

end
