(* ===== verification/Sim_Host.thy ===== *)
theory Sim_Host
  imports Installed_Rules
begin

text \<open>
  A concrete host on which a start succeeds: the hypotheses of the theorems about a running daemon can
  be met by every configuration.
\<close>

subsection \<open>A concrete host\<close>

text \<open>On a host whose commands fail only when they cannot succeed and whose filter has the built-in chains,
  setting up succeeds. \<open>goes K f\<close>: the step \<open>f\<close> succeeds and keeps the chains \<open>K\<close>.\<close>

definition has :: "(string \<times> string) set \<Rightarrow> firewall \<Rightarrow> bool" where
  "has K f \<longleftrightarrow> (\<forall>k\<in>K. f k \<noteq> None)"

definition goes :: "(string \<times> string) set \<Rightarrow> (firewall \<Rightarrow> 'e option \<times> firewall) \<Rightarrow> bool" where
  "goes K g \<longleftrightarrow> (\<forall>f. has K f \<longrightarrow> fst (g f) = None \<and> has K (snd (g f)))"

lemma goes_steps: "list_all (goes K) gs \<Longrightarrow> goes K (steps gs)"
proof (induction gs)
  case (Cons g gs)
  then show ?case by (auto simp: goes_def split: prod.split option.split)
qed (simp add: goes_def)

lemma goes_append: "(t, ch) \<in> K \<Longrightarrow> goes K (ipt sim_host t (''-A'' # ch # r))"
  by (force simp: goes_def has_def ipt_def ipt_cmd_def runCmd_def sim_host_def ipt_effect_def chain_effect_def split: option.split)

lemma goes_insert: "(t, ch) \<in> K \<Longrightarrow> goes K (ipt sim_host t (''-I'' # ch # r))"
  by (force simp: goes_def has_def ipt_def ipt_cmd_def runCmd_def sim_host_def ipt_effect_def chain_effect_def split: option.split)

lemma goes_other: "fst cmd \<noteq> ''iptables'' \<Longrightarrow> goes K (runCmd sim_host cmd)"
  by (simp add: goes_def runCmd_def sim_host_def)

lemma goes_quiet: "fst cmd \<noteq> ''iptables'' \<Longrightarrow> goes K (\<lambda>f. (None, runQuiet sim_host cmd f))"
  by (simp add: goes_def runQuiet_def sim_host_def)

lemma sim_has: "has K f \<Longrightarrow> op \<noteq> ''-X'' \<Longrightarrow> has K (snd (sim_host (ipt_cmd t (op # r)) f))"
  by (auto simp: sim_host_def ipt_cmd_def ipt_effect_def chain_effect_def has_def split: list.split option.split)

lemma sim_reset:
  assumes "(t, h) \<in> K" "has K f"
  shows "fst (resetChain sim_host (t, h, cu) f) = None \<and> has (insert (t, cu) K) (snd (resetChain sim_host (t, h, cu) f))"
proof -
  let ?K = "insert (t, cu) K"
  let ?f1 = "runQuiet sim_host (ipt_cmd t [''-N'', cu]) f"
  have "?f1 (t, cu) \<noteq> None" by (auto simp: runQuiet_def sim_host_def ipt_cmd_def ipt_effect_def)
  then obtain rs where rs: "?f1 (t, cu) = Some rs" by blast
  then have h1: "has ?K ?f1" using sim_has [OF assms(2)] by (simp add: runQuiet_def has_def)
  have F: "ipt sim_host t [''-F'', cu] ?f1 = (None, ?f1((t, cu) \<mapsto> []))"
    using rs by (simp add: ipt_def ipt_cmd_def runCmd_def sim_host_def ipt_effect_def chain_effect_def)
  have h2: "has ?K (?f1((t, cu) \<mapsto> []))" using h1 by (simp add: has_def)
  have "snd (sim_host (ipt_cmd t [''-C'', h, ''-j'', cu]) f) = f" for f
    by (auto simp: sim_host_def ipt_cmd_def ipt_effect_def chain_effect_def split: option.split)
  with F h2 goes_insert [of t h ?K "[''1'', ''-j'', cu]"] assms(1) show ?thesis
    by (simp add: resetChain_def goes_def Let_def case_prod_beta split: option.split)
qed

lemma sim_hooks:
  "\<forall>(t, h, cu)\<in>set hs. (t, h) \<in> K \<Longrightarrow> has K f \<Longrightarrow>
     fst (steps (map (resetChain sim_host) hs) f) = None \<and>
     has (K \<union> (\<lambda>(t, h, cu). (t, cu)) ` set hs) (snd (steps (map (resetChain sim_host) hs) f))"
proof (induction hs arbitrary: K f)
  case (Cons x hs)
  obtain t h cu where x: "x = (t, h, cu)" by (cases x)
  obtain f1 where f1: "resetChain sim_host x f = (None, f1)" "has (insert (t, cu) K) f1"
    using sim_reset [of t h K f cu] Cons.prems by (auto simp: x prod_eq_iff)
  have "\<forall>(t', h', cu')\<in>set hs. (t', h') \<in> insert (t, cu) K" using Cons.prems(1) by auto
  from Cons.IH [OF this f1(2)] f1(1) show ?case by (simp add: x)
qed simp

lemma goes_per_service:
  "(\<And>p t. list_all (goes K) (f p t)) \<Longrightarrow> list_all (goes K) (per_service c f)"
  by (auto simp: list_all_iff)

definition hook_keys :: "(string \<times> string) set" where
  "hook_keys = (\<lambda>(t, h, cu). (t, h)) ` set all_chains"

lemma goes_or_cleanup: "goes K g \<Longrightarrow> goes K (or_cleanup exec c g)"
  by (auto simp: goes_def or_cleanup_def split: prod.split option.split)

lemma sim_after_hooks:
  assumes "has hook_keys f" "set hs \<subseteq> set all_chains" "list_all (goes (hook_keys \<union> (\<lambda>(t, h, cu). (t, cu)) ` set hs)) gs"
  shows "fst (steps (map (resetChain sim_host) hs @ gs) f) = None \<and>
    has (hook_keys \<union> (\<lambda>(t, h, cu). (t, cu)) ` set hs) (snd (steps (map (resetChain sim_host) hs @ gs) f))"
proof -
  have "\<forall>(t, h, cu)\<in>set hs. (t, h) \<in> hook_keys" using assms(2) by (force simp: hook_keys_def)
  from sim_hooks [OF this assms(1)] obtain f1 where "steps (map (resetChain sim_host) hs) f = (None, f1)"
    "has (hook_keys \<union> (\<lambda>(t, h, cu). (t, cu)) ` set hs) f1" by (metis prod.collapse)
  with goes_steps [OF assms(3)] show ?thesis by (simp add: steps_append goes_def)
qed

lemma sim_setupKharejRouting:
  assumes "has hook_keys f"
  shows "fst (setupKharejRouting sim_host c f) = None \<and>
    has (hook_keys \<union> (\<lambda>(t, h, cu). (t, cu)) ` set kharej_hooks) (snd (setupKharejRouting sim_host c f))"
proof -
  let ?K = "hook_keys \<union> (\<lambda>(t, h, cu). (t, cu)) ` set kharej_hooks"
  have k: "(''filter'', ''HSH_INPUT'') \<in> ?K" "(''filter'', ''HSH_OUTPUT'') \<in> ?K" "(''mangle'', ''HSH_MOUT'') \<in> ?K"
    by (simp_all add: kharej_hooks_def)
  have "list_all (goes ?K) (kharej_port_rules sim_host c p t)" for p t
    using k(1) by (simp add: kharej_port_rules_def Let_def goes_append)
  moreover have "goes ?K (setupTransportBypass sim_host c)"
    unfolding setupTransportBypass_def Let_def by (intro goes_steps) (simp add: goes_other)
  then have "list_all (goes ?K) (kharej_rest sim_host c)"
    using k by (auto simp: kharej_rest_def output_rule_def goes_append goes_other list_all_iff)
  ultimately have "list_all (goes ?K) (per_service c (kharej_port_rules sim_host c) @ kharej_rest sim_host c)"
    using goes_per_service [of ?K "kharej_port_rules sim_host c" c] by simp
  from sim_after_hooks [OF assms _ this] show ?thesis
    unfolding setupKharejRouting_parts by (simp add: kharej_hooks_def all_chains_def)
qed

lemma goes_smart_policy:
  assumes "(''mangle'', ''HSH_MOUT'') \<in> K"
  shows "goes K (setupSmartReturnPolicy sim_host c)"
proof -
  have "goes K (\<lambda>f. (None, cleanupSmartReturnPolicy sim_host c f))"
    by (simp add: goes_def cleanupSmartReturnPolicy_nf [OF sim_netfilter, simplified])
  moreover have "goes K (setKharejReturnPath sim_host c returnPathDirect)"
    by (simp add: goes_def setKharejReturnPath_def runQuiet_def sim_host_def)
  moreover have "list_all (goes K) (smart_port_rules sim_host c p t)" for p t
    using assms by (simp add: smart_port_rules_def Let_def goes_or_cleanup goes_append)
  ultimately have "goes K (steps ([\<lambda>s. (None, cleanupSmartReturnPolicy sim_host c s),
            runCmd sim_host (''ip'', [''rule'', ''add'', ''priority'', ''68'', ''fwmark'', hex_mark returnMark, ''lookup'', itoa returnTable])] @
           per_service c (smart_port_rules sim_host c) @ [setKharejReturnPath sim_host c returnPathDirect]))"
    using goes_per_service [of K "smart_port_rules sim_host c"] by (intro goes_steps) (simp add: goes_other)
  then show ?thesis by (simp add: goes_def setupSmartReturnPolicy_def)
qed

lemma sim_setupIranRouting:
  assumes "has hook_keys f"
  shows "fst (setupIranRouting sim_host c f) = None \<and> has hook_keys (snd (setupIranRouting sim_host c f))"
proof -
  let ?K = "hook_keys \<union> (\<lambda>(t, h, cu). (t, cu)) ` set iran_hooks"
  have "goes ?K (add_rule sim_host x)" if "x \<in> set (iran_rules c)" for x
    using that by (auto simp: iran_rules_def iran_service_rules_def add_rule_def iran_hooks_def Let_def intro!: goes_append split: if_splits)
  then have "list_all (goes ?K) (map (add_rule sim_host) (iran_rules c))" by (simp add: list_all_iff)
  note run = sim_after_hooks [OF _ _ this]
  have "goes hook_keys (steps (map (runCmd sim_host) (iran_ip_commands c)))"
    by (intro goes_steps) (simp add: iran_ip_commands_def goes_other)
  then obtain f1 where "steps (map (runCmd sim_host) (iran_ip_commands c)) f = (None, f1)" "has hook_keys f1"
    using assms by (metis goes_def prod.collapse)
  with run [of f1] show ?thesis
    unfolding setupIranRouting_parts by (auto simp: steps_append iran_hooks_def all_chains_def has_def)
qed

lemma sim_setupCarrierFirewall:
  assumes "has hook_keys f" "listenPort (Listen (c_Transport c)) = Inr port"
  shows "fst (setupCarrierFirewall sim_host c f) = None"
proof -
  let ?f1 = "runQuiet sim_host (ipt_cmd ''filter'' [''-N'', ''HSH_INPUT'']) f"
  let ?K = "insert (''filter'', ''HSH_INPUT'') hook_keys"
  have "?f1 (''filter'', ''HSH_INPUT'') \<noteq> None" by (auto simp: runQuiet_def sim_host_def ipt_cmd_def ipt_effect_def)
  then have h1: "has ?K ?f1" using sim_has [OF assms(1)] by (auto simp: runQuiet_def has_def)
  have C: "snd (sim_host (ipt_cmd t (''-C'' # r)) f) = f" for t r f
    by (auto simp: sim_host_def ipt_cmd_def ipt_effect_def chain_effect_def split: option.split list.split)
  have "goes ?K (\<lambda>s. case sim_host (ipt_cmd ''filter'' [''-C'', ''INPUT'', ''-j'', ''HSH_INPUT'']) s of
      (None, s) \<Rightarrow> (None, s) | (Some _, s) \<Rightarrow> ipt sim_host ''filter'' [''-I'', ''INPUT'', ''1'', ''-j'', ''HSH_INPUT''] s)"
    using C goes_insert [of "''filter''" "''INPUT''" ?K]
    by (auto simp: goes_def hook_keys_def all_chains_def case_prod_beta split: option.split)
  moreover have "goes ?K (\<lambda>s. case sim_host (ipt_cmd ''filter'' ([''-C'', ''HSH_INPUT''] @ args)) s of
      (None, s) \<Rightarrow> (None, s)
    | (Some _, s) \<Rightarrow> (case ipt sim_host ''filter'' ([''-I'', ''HSH_INPUT'', ''1''] @ args) s of
         (None, s) \<Rightarrow> (None, s) | (Some e, s) \<Rightarrow> (Some (CarrierRule (t_Type (c_Transport c)) e), s)))" for args
    using C goes_insert [of "''filter''" "''HSH_INPUT''" ?K]
    by (auto simp: goes_def case_prod_beta split: option.split)
  ultimately have "goes ?K (steps [\<lambda>s. case sim_host (ipt_cmd ''filter'' [''-C'', ''INPUT'', ''-j'', ''HSH_INPUT'']) s of
      (None, s) \<Rightarrow> (None, s) | (Some _, s) \<Rightarrow> ipt sim_host ''filter'' [''-I'', ''INPUT'', ''1'', ''-j'', ''HSH_INPUT''] s,
     \<lambda>s. case sim_host (ipt_cmd ''filter'' ([''-C'', ''HSH_INPUT''] @ args)) s of
      (None, s) \<Rightarrow> (None, s)
    | (Some _, s) \<Rightarrow> (case ipt sim_host ''filter'' ([''-I'', ''HSH_INPUT'', ''1''] @ args) s of
         (None, s) \<Rightarrow> (None, s) | (Some e, s) \<Rightarrow> (Some (CarrierRule (t_Type (c_Transport c)) e), s))])" for args
    by (intro goes_steps) simp
  with h1 assms(2) show ?thesis by (simp add: setupCarrierFirewall_def goes_def Let_def)
qed

text \<open>Starting succeeds on every such host, for both roles.\<close>

lemma sim_setup_host:
  assumes "clean f" "has hook_keys f" "listenPort (Listen (c_Transport c)) = Inr port"
  shows "\<exists>f'. setup_host sim_host c f = Some (None, f')"
proof -
  have "goes hook_keys (setupTun sim_host c)"
    unfolding setupTun_def Let_def by (intro goes_steps) (simp add: goes_other goes_quiet)
  then obtain f1 where f1: "setupTun sim_host c f = (None, f1)" "has hook_keys f1" using assms(2) by (metis goes_def prod.collapse)
  have k: "fst (setupKharejRouting sim_host c f1) = None"
    "has (insert (''mangle'', ''HSH_MOUT'') hook_keys) (snd (setupKharejRouting sim_host c f1))"
    using sim_setupKharejRouting [OF f1(2), of c] by (auto simp: kharej_hooks_def has_def)
  note i = sim_setupIranRouting [OF f1(2), of c]
  obtain f2 where f2: "setupRouting sim_host c f1 = (None, f2)" "has hook_keys f2"
    "Role c \<noteq> ''iran'' \<Longrightarrow> Ports c \<noteq> [] \<Longrightarrow> has (insert (''mangle'', ''HSH_MOUT'') hook_keys) f2"
    using k i f1(2) that [of "snd (setupRouting sim_host c f1)"] by (auto simp: setupRouting_def has_def prod_eq_iff)
  have "fst (setupSmartReturnPolicy sim_host c f2) = None \<and> has hook_keys (snd (setupSmartReturnPolicy sim_host c f2))"
  proof (cases "Role c \<noteq> ''iran'' \<and> Ports c \<noteq> []")
    case True
    with goes_smart_policy [of "insert (''mangle'', ''HSH_MOUT'') hook_keys" c] f2(3) show ?thesis by (auto simp: goes_def has_def)
  next
    case False
    with f2(2) show ?thesis by (auto simp: setupSmartReturnPolicy_def)
  qed
  then obtain f3 where f3: "setupSmartReturnPolicy sim_host c f2 = (None, f3)" "has hook_keys f3" by (metis prod.collapse)
  obtain f4 where f4: "setupCarrierFirewall sim_host c f3 = (None, f4)"
    using sim_setupCarrierFirewall [OF f3(2) assms(3)] by (metis prod.collapse)
  have "cleanup sim_host c f = Some f"
    using cleanup_restores [OF sim_netfilter, of f f c] assms(1) frame_clean [of f] by auto
  then show ?thesis by (simp add: setup_host_def f1 f2(1) f3(1) f4)
qed

lemma demo_filter_has: "has hook_keys demo_filter"
  by (simp add: has_def hook_keys_def all_chains_def demo_filter_def)

lemma demo_host_up:
  "\<exists>f. setup_host sim_host (demo_config typ t) demo_filter = Some (None, f)"
  by (intro sim_setup_host [where port = 9000] demo_filter_clean demo_filter_has) (simp add: demo_config_def demo_addresses)

end
