(* ===== verification/Services.thy ===== *)
theory Services
  imports Packet_Filter Sim_Host
begin

text \<open>
  What the rules mean for the packets of the configured services, on Kharej and on Iran.
\<close>

subsection \<open>Which packets the rules match\<close>

text \<open>What the rules rely on of the configuration: valid addresses, and two interfaces with exact names.\<close>

definition filterable :: "Config \<Rightarrow> bool" where
  "filterable c \<longleftrightarrow> exact_iface (PublicInterface (Network c)) \<and> exact_iface (Name (Tun c)) \<and>
     PublicInterface (Network c) \<noteq> Name (Tun c) \<and>
     is_ipv4 (PublicIP (Network c)) \<and> is_ipv4 (ForeignPublicIP (Network c)) \<and> is_ipv4 (IranPublicIP (Network c))"

definition ifaces_ok :: "Config \<Rightarrow> bool" where
  "ifaces_ok c \<longleftrightarrow> exact_iface (PublicInterface (Network c)) \<and> exact_iface (Name (Tun c)) \<and>
     PublicInterface (Network c) \<noteq> Name (Tun c)"

lemma accepted_services:
  assumes "loadConfig env file = Inr c" "p \<in> set (Ports c)" "ifaces_ok c"
  shows "filterable c" "set (protocols (p_Protocol p)) \<subseteq> {''tcp'', ''udp''}"
    and "listenPort (Listen (c_Transport c)) = Inr (p_Port p) \<Longrightarrow> t \<in> set (protocols (p_Protocol p)) \<Longrightarrow>
      t \<noteq> transportNetwork (t_Type (c_Transport c))"
    and "transportNetwork (t_Type (c_Transport c)) \<in> {''tcp'', ''udp''}"
proof -
  have "check_services c = None" using loadConfig_ok [OF assms(1)] by (simp add: config_ok_def)
  moreover have "Ports c \<noteq> []" using assms(2) by auto
  ultimately obtain port where s: "check_ports [] (Ports c) = None" "listenPort (Listen (c_Transport c)) = Inr port"
    "check_conflicts c port (transportNetwork (t_Type (c_Transport c))) (Ports c) = None"
    "is_ipv4 (PublicIP (Network c))" "is_ipv4 (ForeignPublicIP (Network c))" "is_ipv4 (IranPublicIP (Network c))"
    by (rule check_services_None)
  show "filterable c" using s assms(3) by (simp add: filterable_def ifaces_ok_def)
  have p: "p_Protocol p \<in> {''tcp'', ''udp'', ''both''}" using check_ports_None [OF s(1)] assms(2) by blast
  then show "set (protocols (p_Protocol p)) \<subseteq> {''tcp'', ''udp''}" by (auto simp: protocols_def)
  show "t \<noteq> transportNetwork (t_Type (c_Transport c))"
    if "listenPort (Listen (c_Transport c)) = Inr (p_Port p)" "t \<in> set (protocols (p_Protocol p))"
    using check_conflicts_None [OF s(3) assms(2)] that s(2) p
    by (auto simp: protocols_def protocolIncludes_def split: if_splits)
  show "transportNetwork (t_Type (c_Transport c)) \<in> {''tcp'', ''udp''}"
    using transportNetwork_cases [of "t_Type (c_Transport c)"] by auto
qed

lemma commas_ct:
  "commas ''NEW,ESTABLISHED'' = [''NEW'', ''ESTABLISHED'']" "commas ''ESTABLISHED,RELATED'' = [''ESTABLISHED'', ''RELATED'']"
  "commas ''ESTABLISHED'' = [''ESTABLISHED'']"
  by simp_all

lemma service_rules_match:
  assumes "match_laws m" "filterable c" "proto \<in> {''tcp'', ''udp''}" "r \<in> set (service_rules c p proto)" "m r pk"
  shows "(pk_in pk = Name (Tun c) \<and> decision r = Some Accepts \<or> pk_in pk = PublicInterface (Network c) \<and> decision r = Some Drops)"
  using assms
  by (auto simp: service_rules_def filterable_def match_rules decision_def target_args_def split: if_splits)

lemma carrier_rule_match:
  assumes "match_laws m" "filterable c" "transportNetwork (t_Type (c_Transport c)) \<in> {''tcp'', ''udp''}" "Role c \<noteq> ''iran''"
  shows "m (carrier_rule c (IranPublicIP (Network c)) port) pk \<longleftrightarrow>
      pk_in pk = PublicInterface (Network c) \<and> pk_dst pk = PublicIP (Network c) \<and> pk_src pk = IranPublicIP (Network c) \<and>
      pk_proto pk = transportNetwork (t_Type (c_Transport c)) \<and> pk_dport pk = port"
    and "decision (carrier_rule c (IranPublicIP (Network c)) port) = Some Accepts"
  using assms
  by (auto simp: carrier_rule_def filterable_def match_rules decision_def target_args_def Let_def)

lemma service_rules_hit:
  assumes "match_laws m" "filterable c" "proto \<in> {''tcp'', ''udp''}"
    and "pk_dst pk = ForeignPublicIP (Network c)" "pk_proto pk = proto" "pk_dport pk = p_Port p"
  shows "pk_in pk = Name (Tun c) \<Longrightarrow> pk_ct pk \<in> {''NEW'', ''ESTABLISHED''} \<Longrightarrow> \<exists>r\<in>set (service_rules c p proto). m r pk"
    and "pk_in pk = PublicInterface (Network c) \<Longrightarrow> LockServicePorts (Network c) \<Longrightarrow> \<exists>r\<in>set (service_rules c p proto). m r pk"
  using assms by (auto simp: service_rules_def filterable_def match_rules commas_ct)

lemma set_per_service:
  "r \<in> set (per_service c f) \<longleftrightarrow> (\<exists>p\<in>set (Ports c). \<exists>t\<in>set (protocols (p_Protocol p)). r \<in> set (f p t))"
  by auto

subsection \<open>Packets for a service\<close>

text \<open>A packet for the service \<open>p\<close> of an accepted configuration.\<close>

definition for_service :: "Config \<Rightarrow> Port \<Rightarrow> string \<Rightarrow> packet \<Rightarrow> bool" where
  "for_service c p dst pk \<longleftrightarrow> p \<in> set (Ports c) \<and> pk_dst pk = dst \<and> pk_proto pk \<in> set (protocols (p_Protocol p)) \<and>
     pk_dport pk = p_Port p"

lemma carrier_rule_misses:
  assumes "match_laws m" "loadConfig env file = Inr c" "Role c \<noteq> ''iran''" "ifaces_ok c" "for_service c p dst pk"
    and "listenPort (Listen (c_Transport c)) = Inr port"
  shows "\<not> m (carrier_rule c (IranPublicIP (Network c)) port) pk"
proof -
  have p: "p \<in> set (Ports c)" "pk_proto pk \<in> set (protocols (p_Protocol p))" "pk_dport pk = p_Port p"
    using assms(5) by (simp_all add: for_service_def)
  note acc = accepted_services [OF assms(2) p(1) assms(4)]
  from carrier_rule_match(1) [OF assms(1) acc(1,4) assms(3)] acc(3) [OF _ p(2)] assms(6) p(3) show ?thesis by auto
qed

lemma input_rules_decide:
  assumes "match_laws m" "loadConfig env file = Inr c" "Role c \<noteq> ''iran''" "ifaces_ok c"
    and pk: "for_service c p (ForeignPublicIP (Network c)) pk"
    and pre: "\<And>r. r \<in> set pre \<Longrightarrow> \<exists>port. listenPort (Listen (c_Transport c)) = Inr port \<and> r = carrier_rule c (IranPublicIP (Network c)) port"
  shows "r \<in> set (pre @ per_service c (service_rules c)) \<Longrightarrow> m r pk \<Longrightarrow>
      pk_in pk = Name (Tun c) \<and> decision r = Some Accepts \<or> pk_in pk = PublicInterface (Network c) \<and> decision r = Some Drops"
    and "pk_in pk = PublicInterface (Network c) \<and> LockServicePorts (Network c) \<or>
        pk_in pk = Name (Tun c) \<and> pk_ct pk \<in> {''NEW'', ''ESTABLISHED''} \<Longrightarrow>
      \<exists>r\<in>set (pre @ per_service c (service_rules c)). m r pk"
proof -
  have p: "p \<in> set (Ports c)" using pk by (simp add: for_service_def)
  note acc = accepted_services [OF assms(2) _ assms(4)]
  note fc = acc(1) [OF p]
  show "pk_in pk = Name (Tun c) \<and> decision r = Some Accepts \<or> pk_in pk = PublicInterface (Network c) \<and> decision r = Some Drops"
    if "r \<in> set (pre @ per_service c (service_rules c))" "m r pk"
  proof -
    have "r \<notin> set pre" using pre carrier_rule_misses [OF assms(1-4) pk] that(2) by blast
    then have "r \<in> set (per_service c (service_rules c))" using that by simp
    then obtain q t where q: "q \<in> set (Ports c)" "t \<in> set (protocols (p_Protocol q))" "r \<in> set (service_rules c q t)"
      by (auto simp: set_per_service)
    then have "t \<in> {''tcp'', ''udp''}" using acc(2) by blast
    from service_rules_match [OF assms(1) fc this q(3) that(2)] show ?thesis .
  qed
  show "\<exists>r\<in>set (pre @ per_service c (service_rules c)). m r pk"
    if "pk_in pk = PublicInterface (Network c) \<and> LockServicePorts (Network c) \<or>
        pk_in pk = Name (Tun c) \<and> pk_ct pk \<in> {''NEW'', ''ESTABLISHED''}"
  proof -
    have "\<exists>r\<in>set (service_rules c p (pk_proto pk)). m r pk"
      using that service_rules_hit [OF assms(1) fc, of "pk_proto pk" pk p] acc(2) [OF p] pk by (auto simp: for_service_def)
    then show ?thesis using pk by (auto simp: for_service_def)
  qed
qed

subsection \<open>The chains of Iran\<close>

lemma set_added: "r \<in> set (added (t, ch) xs) \<longleftrightarrow> (t, ch, r) \<in> set xs"
  by (auto simp: added_def split: if_splits)

lemma iran_chains:
  "r \<in> set (added (''mangle'', ''HSH_MPRE'') (iran_rules c)) \<longleftrightarrow>
     (\<exists>p\<in>set (Ports c). \<exists>t\<in>set (protocols (p_Protocol p)). r = snd (snd (iran_service_rules c p t ! 0)))"
  "r \<in> set (added (''nat'', ''HSH_NPRE'') (iran_rules c)) \<longleftrightarrow>
     (\<exists>p\<in>set (Ports c). \<exists>t\<in>set (protocols (p_Protocol p)). r = snd (snd (iran_service_rules c p t ! 1)))"
  "p \<in> set (Ports c) \<Longrightarrow> t \<in> set (protocols (p_Protocol p)) \<Longrightarrow>
     snd (snd (iran_service_rules c p t ! 2)) \<in> set (added (''filter'', ''HSH_FWD'') (iran_rules c))"
  by (auto simp: set_added iran_rules_def set_per_service iran_service_rules_def Let_def)

lemma forward_accepts: "r \<in> set (added (''filter'', ''HSH_FWD'') (iran_rules c)) \<Longrightarrow> decision r = Some Accepts"
  by (auto simp: set_added iran_rules_def set_per_service iran_service_rules_def decision_def target_args_def Let_def split: if_splits)

lemma redirect_decision:
  "decision (r @ [''-j'', ''DNAT'', ''--to-destination'', a @ '':'' @ b]) = Some (Redirects (a @ '':'' @ b))"
proof -
  have "a @ '':'' @ b \<noteq> ''-j''"
  proof
    assume "a @ '':'' @ b = ''-j''"
    then have "CHR '':'' \<in> set ''-j''" by (metis in_set_conv_decomp append_Cons append_Nil)
    then show False by simp
  qed
  then show ?thesis by (simp add: decision_def target_args_def)
qed

lemma iran_mark_rule:
  assumes "match_laws m" "filterable c" "t \<in> {''tcp'', ''udp''}" "r = snd (snd (iran_service_rules c p t ! 0))"
  shows "m r pk \<longleftrightarrow> pk_in pk = PublicInterface (Network c) \<and> pk_dst pk = PublicIP (Network c) \<and> pk_proto pk = t \<and> pk_dport pk = p_Port p"
    and "target_args r = [''MARK'', ''--set-mark'', hex_mark dataMark]"
proof -
  have "hex_mark dataMark \<noteq> ''-j''" by (simp add: hex_mark_def)
  then show "target_args r = [''MARK'', ''--set-mark'', hex_mark dataMark]"
    by (simp add: assms(4) iran_service_rules_def target_args_def Let_def)
  show "m r pk \<longleftrightarrow> pk_in pk = PublicInterface (Network c) \<and> pk_dst pk = PublicIP (Network c) \<and> pk_proto pk = t \<and> pk_dport pk = p_Port p"
    using assms by (simp add: filterable_def match_rules iran_service_rules_def Let_def)
qed

lemma iran_dnat_rule:
  assumes "match_laws m" "filterable c" "t \<in> {''tcp'', ''udp''}" "r = snd (snd (iran_service_rules c p t ! 1))"
  shows "m r pk \<longleftrightarrow> pk_in pk = PublicInterface (Network c) \<and> pk_dst pk = PublicIP (Network c) \<and> pk_proto pk = t \<and> pk_dport pk = p_Port p"
    and "decision r = Some (Redirects (ForeignPublicIP (Network c) @ '':'' @ itoa (p_Port p)))"
proof -
  show "decision r = Some (Redirects (ForeignPublicIP (Network c) @ '':'' @ itoa (p_Port p)))"
    using redirect_decision [of "[_, _, _, _, _, _, _, _]" _ "itoa (p_Port p)"]
    by (simp add: assms(4) iran_service_rules_def Let_def)
  show "m r pk \<longleftrightarrow> pk_in pk = PublicInterface (Network c) \<and> pk_dst pk = PublicIP (Network c) \<and> pk_proto pk = t \<and> pk_dport pk = p_Port p"
    using assms by (simp add: filterable_def match_rules iran_service_rules_def Let_def)
qed

lemma iran_forward_rule:
  assumes "match_laws m" "filterable c" "t \<in> {''tcp'', ''udp''}"
  shows "m (snd (snd (iran_service_rules c p t ! 2))) pk \<longleftrightarrow>
    pk_in pk = PublicInterface (Network c) \<and> pk_out pk = Name (Tun c) \<and> pk_dst pk = ForeignPublicIP (Network c) \<and>
    pk_proto pk = t \<and> pk_dport pk = p_Port p \<and> pk_ct pk \<in> {''NEW'', ''ESTABLISHED''}"
  using assms by (auto simp: filterable_def match_rules iran_service_rules_def commas_ct Let_def)

text \<open>The packet for a service in each of the three chains.\<close>

lemma iran_marks:
  assumes m: "match_laws m" and "loadConfig env file = Inr c" "ifaces_ok c"
    and pk: "for_service c p (PublicIP (Network c)) pk" "pk_in pk = PublicInterface (Network c)"
  shows "walk (Suc d) m f ''mangle'' pk (added (''mangle'', ''HSH_MPRE'') (iran_rules c)) = (None, pk\<lparr>pk_mark := hex_mark dataMark\<rparr>)"
proof -
  let ?rs = "added (''mangle'', ''HSH_MPRE'') (iran_rules c)"
  note acc = accepted_services [OF assms(2) _ assms(3)]
  have p: "p \<in> set (Ports c)" "pk_proto pk \<in> set (protocols (p_Protocol p))" using pk(1) by (simp_all add: for_service_def)
  note rule = iran_mark_rule [OF m acc(1) [OF p(1)]]
  have r: "\<exists>q t. t \<in> {''tcp'', ''udp''} \<and> r = snd (snd (iran_service_rules c q t ! 0))" if "r \<in> set ?rs" for r
    using that acc(2) unfolding iran_chains by blast
  have hit: "\<exists>r\<in>set ?rs. m r pk"
  proof
    let ?r = "snd (snd (iran_service_rules c p (pk_proto pk) ! 0))"
    show "?r \<in> set ?rs" unfolding iran_chains using p by blast
    show "m ?r pk" using rule(1) [of "pk_proto pk" ?r p pk] acc(2) [OF p(1)] p pk by (auto simp: for_service_def)
  qed
  have "walk (Suc d) m f ''mangle'' pk ?rs = (None, if \<exists>r\<in>set ?rs. m r pk then pk\<lparr>pk_mark := hex_mark dataMark\<rparr> else pk)"
  proof (rule walk_marked)
    show "target_args r = [''MARK'', ''--set-mark'', hex_mark dataMark]" if "r \<in> set ?rs" for r using r [OF that] rule(2) by blast
    show "m r (pk\<lparr>pk_mark := x\<rparr>) = m r pk" if "r \<in> set ?rs" for r x using r [OF that] rule(1) by fastforce
  qed
  with hit show ?thesis by simp
qed

lemma iran_redirects:
  assumes m: "match_laws m" and "loadConfig env file = Inr c" "ifaces_ok c"
    and pk: "for_service c p (PublicIP (Network c)) pk" "pk_in pk = PublicInterface (Network c)"
    and ch: "f (''nat'', ''HSH_NPRE'') = Some (added (''nat'', ''HSH_NPRE'') (iran_rules c))"
  shows "walk (Suc (Suc d)) m f ''nat'' pk ([''-j'', ''HSH_NPRE''] # rest) =
    (Some (Redirects (ForeignPublicIP (Network c) @ '':'' @ itoa (p_Port p))), pk)"
proof -
  let ?rs = "added (''nat'', ''HSH_NPRE'') (iran_rules c)"
  note acc = accepted_services [OF assms(2) _ assms(3)]
  have p: "p \<in> set (Ports c)" "pk_proto pk \<in> set (protocols (p_Protocol p))" "pk_dport pk = p_Port p"
    using pk(1) by (simp_all add: for_service_def)
  note rule = iran_dnat_rule [OF m acc(1) [OF p(1)]]
  show ?thesis
  proof (rule walk_hook [where rs = ?rs])
    show "decision r = Some (Redirects (ForeignPublicIP (Network c) @ '':'' @ itoa (p_Port p)))" if r: "r \<in> set ?rs" "m r pk" for r
    proof -
      obtain q t where qt: "q \<in> set (Ports c)" "t \<in> set (protocols (p_Protocol q))" "r = snd (snd (iran_service_rules c q t ! 1))"
        using r(1) unfolding iran_chains by blast
      then have q: "t \<in> {''tcp'', ''udp''}" "r = snd (snd (iran_service_rules c q t ! 1))" using acc(2) by blast+
      have "p_Port q = p_Port p" using rule(1) [OF q] r(2) p(3) by simp
      with rule(2) [OF q] show ?thesis by simp
    qed
    show "\<exists>r\<in>set ?rs. m r pk"
    proof
      let ?r = "snd (snd (iran_service_rules c p (pk_proto pk) ! 1))"
      show "?r \<in> set ?rs" unfolding iran_chains using p by blast
      show "m ?r pk" using rule(1) [of "pk_proto pk" ?r p pk] acc(2) [OF p(1)] p pk by (auto simp: for_service_def)
    qed
  qed (use m ch in simp_all)
qed

lemma iran_forwards:
  assumes m: "match_laws m" and "loadConfig env file = Inr c" "ifaces_ok c"
    and pk: "for_service c p (PublicIP (Network c)) pk" "pk_in pk = PublicInterface (Network c)"
    and ch: "f (''filter'', ''HSH_FWD'') = Some (added (''filter'', ''HSH_FWD'') (iran_rules c))"
    and pk': "pk' = pk\<lparr>pk_dst := ForeignPublicIP (Network c), pk_out := Name (Tun c)\<rparr> \<and> pk_ct pk \<in> {''NEW'', ''ESTABLISHED''}"
  shows "walk (Suc (Suc d)) m f ''filter'' pk' ([''-j'', ''HSH_FWD''] # rest) = (Some Accepts, pk')"
proof -
  let ?rs = "added (''filter'', ''HSH_FWD'') (iran_rules c)"
  note acc = accepted_services [OF assms(2) _ assms(3)]
  have p: "p \<in> set (Ports c)" "pk_proto pk \<in> set (protocols (p_Protocol p))" "pk_dport pk = p_Port p"
    using pk(1) by (simp_all add: for_service_def)
  have "m (snd (snd (iran_service_rules c p (pk_proto pk) ! 2))) pk'"
    using iran_forward_rule [OF m acc(1) [OF p(1)], of "pk_proto pk" p pk'] acc(2) [OF p(1)] p pk(2) pk' by auto
  with iran_chains(3) [OF p(1,2)] have hit: "\<exists>r\<in>set ?rs. m r pk'" by blast
  show ?thesis by (rule walk_hook [where rs = ?rs]) (use m ch hit forward_accepts in simp_all)
qed

subsection \<open>Properties\<close>

text \<open>C9: the services of Kharej are locked. After a successful start with an accepted configuration and
  locking on, every packet for a service that arrives on the public interface is dropped, whatever its
  source and connection state and whatever rules the administrator has; one that comes out of the
  tunnel in a new or established connection is accepted.\<close>

theorem kharej_services_locked:
  assumes "netfilter exec nf" "clean (nf s)" "match_laws m"
    and "loadConfig env file = Inr c" "Role c = ''kharej''" "LockServicePorts (Network c)" "ifaces_ok c"
    and "setup_host exec c s = Some (None, s')" "for_service c p (ForeignPublicIP (Network c)) pk"
  shows "\<exists>rs. nf s' (''filter'', ''INPUT'') = Some rs \<and>
    (pk_in pk = PublicInterface (Network c) \<longrightarrow> walk (Suc (Suc d)) m (nf s') ''filter'' pk rs = (Some Drops, pk)) \<and>
    (pk_in pk = Name (Tun c) \<and> pk_ct pk \<in> {''NEW'', ''ESTABLISHED''} \<longrightarrow>
       walk (Suc (Suc d)) m (nf s') ''filter'' pk rs = (Some Accepts, pk))"
proof -
  have ne: "Role c \<noteq> ''iran''" "Ports c \<noteq> []" using assms(5,9) by (auto simp: for_service_def)
  obtain pre rest where in': "nf s' (''filter'', ''INPUT'') = Some ([''-j'', ''HSH_INPUT''] # rest)"
    and ch: "nf s' (''filter'', ''HSH_INPUT'') = Some (pre @ per_service c (service_rules c))"
    and pre: "\<And>r. r \<in> set pre \<Longrightarrow> \<exists>port. listenPort (Listen (c_Transport c)) = Inr port \<and> r = carrier_rule c (IranPublicIP (Network c)) port"
    using that by (rule kharej_input_installed [OF assms(1,2) ne assms(8)])
  have hook: "walk (Suc (Suc d)) m (nf s') ''filter'' pk ([''-j'', ''HSH_INPUT''] # rest) = (Some v, pk)"
    if "\<And>r. r \<in> set (pre @ per_service c (service_rules c)) \<Longrightarrow> m r pk \<Longrightarrow> decision r = Some v"
      "\<exists>r\<in>set (pre @ per_service c (service_rules c)). m r pk" for v
    by (rule walk_hook [where rs = "pre @ per_service c (service_rules c)"]) (use assms(3) ch that in \<open>simp_all\<close>)
  note decide = input_rules_decide [OF assms(3,4) ne(1) assms(7,9) pre]
  have diff: "PublicInterface (Network c) \<noteq> Name (Tun c)" using assms(7) by (simp add: ifaces_ok_def)
  show ?thesis
  proof (intro exI conjI impI)
    show "nf s' (''filter'', ''INPUT'') = Some ([''-j'', ''HSH_INPUT''] # rest)" by (rule in')
  next
    assume i: "pk_in pk = PublicInterface (Network c)"
    show "walk (Suc (Suc d)) m (nf s') ''filter'' pk ([''-j'', ''HSH_INPUT''] # rest) = (Some Drops, pk)"
      by (rule hook) (use decide(1) i diff in force, rule decide(2), simp_all add: i assms(6))
  next
    assume i: "pk_in pk = Name (Tun c) \<and> pk_ct pk \<in> {''NEW'', ''ESTABLISHED''}"
    show "walk (Suc (Suc d)) m (nf s') ''filter'' pk ([''-j'', ''HSH_INPUT''] # rest) = (Some Accepts, pk)"
      by (rule hook) (use decide(1) i diff in force, rule decide(2), use i in simp_all)
  qed
qed

definition demo_packet :: packet where
  "demo_packet = \<lparr>pk_in = ''eth0'', pk_out = '''', pk_src = ''203.0.113.5'', pk_dst = ''192.0.2.7'', pk_proto = ''udp'', pk_sport = 40000,
     pk_dport = 53, pk_ct = ''NEW'', pk_mark = ''0x0''\<rparr>"

lemma demo_ifaces: "ifaces_ok (demo_config typ t)"
  by (simp add: ifaces_ok_def exact_iface_def demo_config_def)

theorem kharej_services_locked_witness:
  "\<exists>f rs. setup_host sim_host (demo_config ''udp'' 25) demo_filter = Some (None, f) \<and> f (''filter'', ''INPUT'') = Some rs \<and>
     walk 2 sim_matches f ''filter'' demo_packet rs = (Some Drops, demo_packet)"
proof -
  obtain f where f: "setup_host sim_host (demo_config ''udp'' 25) demo_filter = Some (None, f)" using demo_host_up by blast
  have p: "for_service (demo_config ''udp'' 25) \<lparr>p_Port = 53, p_Protocol = ''both''\<rparr> (ForeignPublicIP (Network (demo_config ''udp'' 25))) demo_packet"
    by (simp add: for_service_def demo_config_def demo_packet_def protocols_def)
  from kharej_services_locked [OF sim_netfilter _ sim_match_laws demo_config_loaded _ _ demo_ifaces f p, of 0] demo_filter_clean f
  show ?thesis by (simp add: demo_config_def demo_packet_def numeral_2_eq_2)
qed

text \<open>C10: the services of Iran go into the tunnel. After a successful start with an accepted configuration,
  a packet for a service that arrives on the public interface is given the data mark by the chain that
  the mangle hook jumps to first, is redirected to the same port of the Kharej address by the NAT hook,
  and once it is routed to the tunnel the forward hook accepts it in a new or established connection,
  whatever rules the administrator has.\<close>

theorem iran_services_tunnelled:
  assumes nf: "netfilter exec nf" "clean (nf s)" and m: "match_laws m"
    and "loadConfig env file = Inr c" "Role c = ''iran''" "ifaces_ok c" and up: "setup_host exec c s = Some (None, s')"
    and pk: "for_service c p (PublicIP (Network c)) pk" "pk_in pk = PublicInterface (Network c)"
  shows "(\<exists>rs rest. nf s' (''mangle'', ''PREROUTING'') = Some ([''-j'', ''HSH_MPRE''] # rest) \<and>
      nf s' (''mangle'', ''HSH_MPRE'') = Some rs \<and>
      walk (Suc d) m (nf s') ''mangle'' pk rs = (None, pk\<lparr>pk_mark := hex_mark dataMark\<rparr>)) \<and>
    (\<exists>rs. nf s' (''nat'', ''PREROUTING'') = Some rs \<and>
      walk (Suc (Suc d)) m (nf s') ''nat'' pk rs = (Some (Redirects (ForeignPublicIP (Network c) @ '':'' @ itoa (p_Port p))), pk)) \<and>
    (\<exists>rs. nf s' (''filter'', ''FORWARD'') = Some rs \<and>
      (\<forall>pk'. pk' = pk\<lparr>pk_dst := ForeignPublicIP (Network c), pk_out := Name (Tun c)\<rparr> \<and> pk_ct pk \<in> {''NEW'', ''ESTABLISHED''} \<longrightarrow>
         walk (Suc (Suc d)) m (nf s') ''filter'' pk' rs = (Some Accepts, pk')))"
proof -
  have p: "p \<in> set (Ports c)" "pk_proto pk \<in> set (protocols (p_Protocol p))" "pk_dport pk = p_Port p" "pk_dst pk = PublicIP (Network c)"
    using pk(1) by (simp_all add: for_service_def)
  then have ne: "Ports c \<noteq> []" by auto
  note acc = accepted_services [OF assms(4) _ assms(6)]
  note fc = acc(1) [OF p(1)]
  have tp: "pk_proto pk \<in> {''tcp'', ''udp''}" using acc(2) [OF p(1)] p(2) by blast
  note inst = iran_installed [OF nf assms(5) ne up]
  have "nf s' (''mangle'', ''HSH_MPRE'') = Some (added (''mangle'', ''HSH_MPRE'') (iran_rules c)) \<and>
      (\<exists>rest. nf s' (''mangle'', ''PREROUTING'') = Some ([''-j'', ''HSH_MPRE''] # rest))"
    by (rule inst) (simp_all add: iran_hooks_def)
  moreover have "nf s' (''nat'', ''HSH_NPRE'') = Some (added (''nat'', ''HSH_NPRE'') (iran_rules c)) \<and>
      (\<exists>rest. nf s' (''nat'', ''PREROUTING'') = Some ([''-j'', ''HSH_NPRE''] # rest))"
    by (rule inst) (simp_all add: iran_hooks_def)
  moreover have "nf s' (''filter'', ''HSH_FWD'') = Some (added (''filter'', ''HSH_FWD'') (iran_rules c)) \<and>
      (\<exists>rest. nf s' (''filter'', ''FORWARD'') = Some ([''-j'', ''HSH_FWD''] # rest))"
    by (rule inst) (simp_all add: iran_hooks_def)
  ultimately show ?thesis
    using iran_marks [OF m assms(4,6) pk, of d "nf s'"] iran_redirects [OF m assms(4,6) pk, of "nf s'" d]
      iran_forwards [OF m assms(4,6) pk(1,2), of "nf s'" _ d] by metis
qed

definition demo_iran :: Config where
  "demo_iran = (demo_config ''udp'' 25)\<lparr>Role := ''iran'',
     c_Transport := (c_Transport (demo_config ''udp'' 25))\<lparr>Peer := ''192.0.2.7:9000''\<rparr>,
     Network := (Network (demo_config ''udp'' 25))\<lparr>PublicIP := ''198.51.100.9''\<rparr>\<rparr>"

lemma demo_peer:
  "resolveAddr4 \<lparr>dns_lookup = (\<lambda>_. None), service_port = (\<lambda>_ _. None)\<rparr> ''udp4'' ''192.0.2.7:9000'' = Some (Some [192, 0, 2, 7], 9000)"
  by code_simp

lemma demo_iran_loaded: "loadConfig demo_env (Decoded demo_iran) = Inr demo_iran"
proof (rule loadConfig_fix)
  have ok: "config_ok demo_env (demo_config ''udp'' 25)" by (rule demo_config_ok) simp_all
  have "basics_ok demo_iran" "tuning_ok demo_env demo_iran" "smart_ok demo_iran"
    using ok by (simp_all add: config_ok_def basics_ok_def tuning_ok_def smart_ok_def demo_iran_def)
  moreover have "check_addresses (env_resolver demo_env) demo_iran = None"
    by (simp add: check_addresses_def demo_iran_def demo_config_def demo_env_def b64_decode_encode validateTransportAddress_def
        ResolveUDPAddr_def demo_addresses demo_peer)
  moreover have "check_services demo_iran = None"
    by (simp add: check_services_def demo_iran_def demo_config_def demo_addresses transportNetwork_def protocolIncludes_def
        applySmartReturnDefaults_def zero_smart_return_def port_key_def [symmetric])
  ultimately show "config_ok demo_env demo_iran" by (simp add: config_ok_def)
qed

lemma demo_iran_up: "\<exists>f. setup_host sim_host demo_iran demo_filter = Some (None, f)"
  by (intro sim_setup_host [where port = 9000] demo_filter_clean demo_filter_has) (simp add: demo_iran_def demo_config_def demo_addresses)

theorem iran_services_tunnelled_witness:
  "\<exists>f rs. setup_host sim_host demo_iran demo_filter = Some (None, f) \<and> f (''nat'', ''PREROUTING'') = Some rs \<and>
     walk 2 sim_matches f ''nat'' (demo_packet\<lparr>pk_dst := ''198.51.100.9''\<rparr>) rs =
       (Some (Redirects (''192.0.2.7'' @ '':'' @ itoa 53)), demo_packet\<lparr>pk_dst := ''198.51.100.9''\<rparr>)"
proof -
  obtain f where f: "setup_host sim_host demo_iran demo_filter = Some (None, f)" using demo_iran_up by blast
  let ?pk = "demo_packet\<lparr>pk_dst := ''198.51.100.9''\<rparr>"
  have p: "for_service demo_iran \<lparr>p_Port = 53, p_Protocol = ''both''\<rparr> (PublicIP (Network demo_iran)) ?pk"
    and i: "pk_in ?pk = PublicInterface (Network demo_iran)" "Role demo_iran = ''iran''" "ifaces_ok demo_iran"
      "ForeignPublicIP (Network demo_iran) = ''192.0.2.7''" "clean (id demo_filter)"
    using demo_filter_clean
    by (simp_all add: for_service_def demo_iran_def demo_config_def demo_packet_def protocols_def ifaces_ok_def exact_iface_def)
  from iran_services_tunnelled [OF sim_netfilter i(5) sim_match_laws demo_iran_loaded i(2,3) f p i(1), of 0] f i(4)
  show ?thesis by (auto simp: numeral_2_eq_2)
qed

end
