(* ===== verification/Policy_Routing.thy ===== *)
theory Policy_Routing
  imports Sim_Host "HOL-Library.AList"
begin

text \<open>
  What the program does to the host's policy routing. \<open>ip\<close> is outside the repository; what the code
  relies on of it is \<open>policy_routing exec rp\<close>: the documented effect of \<open>ip rule add\<close> and \<open>del\<close> on the
  list of rules and of \<open>ip route add\<close>, \<open>replace\<close> and \<open>flush\<close> on the routes of a table given by its
  number, that adding a rule or a route that exists already fails, that a failed command changes
  nothing, and that deleting a rule that exists removes it and flushing a table leaves it empty. The
  main table, which other commands change too, is not part of the state.
\<close>

subsection \<open>Rules and tables\<close>

text \<open>A rule is its selector and action as written behind \<open>ip rule add\<close>; a route is its destination and the
  rest of its description.\<close>

record policy =
  rp_rules :: "string list list"
  rp_tables :: "string \<Rightarrow> (string \<times> string list) list"

definition rule_effect :: "string \<Rightarrow> string list \<Rightarrow> policy \<Rightarrow> policy option" where
  "rule_effect op r p =
     (if op = ''add'' then (if r \<in> set (rp_rules p) then None else Some (p\<lparr>rp_rules := rp_rules p @ [r]\<rparr>))
      else if op = ''del'' then (if r \<in> set (rp_rules p) then Some (p\<lparr>rp_rules := remove1 r (rp_rules p)\<rparr>) else None)
      else None)"

definition table_effect :: "string \<Rightarrow> string \<Rightarrow> string list \<Rightarrow> policy \<Rightarrow> policy option" where
  "table_effect op t r p =
     (let set_table = (\<lambda>rs. p\<lparr>rp_tables := (rp_tables p)(t := rs)\<rparr>); rs = rp_tables p t
      in if op = ''flush'' then Some (set_table [])
         else if r = [] then None
         else if op = ''add'' then (if hd r \<in> fst ` set rs then None else Some (set_table (rs @ [(hd r, tl r)])))
         else if op = ''replace'' then Some (set_table (AList.update (hd r) (tl r) rs))
         else None)"

definition ip_effect :: "string list \<Rightarrow> policy \<Rightarrow> policy option" where
  "ip_effect args p =
     (case args of
        obj # op # a # b # r \<Rightarrow>
          if obj = ''rule'' then rule_effect op (a # b # r) p
          else if obj = ''route'' \<and> a = ''table'' then table_effect op b r p
          else Some p
      | _ \<Rightarrow> Some p)"

definition sure :: "string list \<Rightarrow> bool" where
  "sure args \<longleftrightarrow> take 2 args \<in> {[''rule'', ''del''], [''route'', ''flush'']}"

definition policy_routing :: "'s exec \<Rightarrow> ('s \<Rightarrow> policy) \<Rightarrow> bool" where
  "policy_routing exec rp \<longleftrightarrow>
     (\<forall>name args s. name \<noteq> ''ip'' \<longrightarrow> rp (snd (exec (name, args) s)) = rp s) \<and>
     (\<forall>args s. fst (exec (''ip'', args) s) = None \<longrightarrow> ip_effect args (rp s) = Some (rp (snd (exec (''ip'', args) s)))) \<and>
     (\<forall>args s. fst (exec (''ip'', args) s) \<noteq> None \<longrightarrow> rp (snd (exec (''ip'', args) s)) = rp s) \<and>
     (\<forall>args s. sure args \<longrightarrow> ip_effect args (rp s) \<in> {None, Some (rp (snd (exec (''ip'', args) s)))})"

lemma policy_other: "policy_routing exec rp \<Longrightarrow> name \<noteq> ''ip'' \<Longrightarrow> rp (snd (exec (name, args) s)) = rp s"
  and policy_ok: "policy_routing exec rp \<Longrightarrow> fst (exec (''ip'', args) s) = None \<Longrightarrow>
    ip_effect args (rp s) = Some (rp (snd (exec (''ip'', args) s)))"
  and policy_err: "policy_routing exec rp \<Longrightarrow> fst (exec (''ip'', args) s) \<noteq> None \<Longrightarrow> rp (snd (exec (''ip'', args) s)) = rp s"
  by (simp_all add: policy_routing_def)

lemma policy_cases:
  "policy_routing exec rp \<Longrightarrow>
     ip_effect args (rp s) = Some (rp (snd (exec (''ip'', args) s))) \<or> rp (snd (exec (''ip'', args) s)) = rp s"
  using policy_ok policy_err by metis

lemma policy_sure:
  assumes "policy_routing exec rp" "sure args"
  shows "rp (snd (exec (''ip'', args) s)) = (case ip_effect args (rp s) of None \<Rightarrow> rp s | Some p \<Rightarrow> p)"
proof (cases "ip_effect args (rp s)")
  case None
  then show ?thesis using policy_cases [OF assms(1), of args s] by auto
next
  case (Some p)
  have "ip_effect args (rp s) \<in> {None, Some (rp (snd (exec (''ip'', args) s)))}"
    using assms unfolding policy_routing_def by blast
  then show ?thesis by (simp add: Some)
qed

subsection \<open>The administrator's part\<close>

definition rule66 :: "string list" where
  "rule66 = [''priority'', ''66'', ''fwmark'', hex_mark dataMark, ''lookup'', itoa dataTable]"

definition rule77 :: "string list" where
  "rule77 = [''priority'', ''77'', ''fwmark'', hex_mark (nat transportMark), ''lookup'', itoa transportTable]"

definition rule68 :: "string list" where
  "rule68 = [''priority'', ''68'', ''fwmark'', hex_mark returnMark, ''lookup'', itoa returnTable]"

lemmas rule_defs = rule66_def rule77_def rule68_def

definition own_rules :: "string list list" where
  "own_rules = [rule66, rule77, rule68]"

definition own_tables :: "string list" where
  "own_tables = [itoa dataTable, itoa transportTable, itoa returnTable]"

definition no_policy :: "policy \<Rightarrow> bool" where
  "no_policy p \<longleftrightarrow> (\<forall>r\<in>set own_rules. r \<notin> set (rp_rules p)) \<and> (\<forall>t\<in>set own_tables. rp_tables p t = [])"

text \<open>Apart from Hashshashin's rules, each present at most once, and its tables, \<open>p\<close> is \<open>p0\<close>.\<close>

definition policy_frame :: "policy \<Rightarrow> policy \<Rightarrow> bool" where
  "policy_frame p0 p \<longleftrightarrow>
     filter (\<lambda>r. r \<notin> set own_rules) (rp_rules p) = rp_rules p0 \<and> (\<forall>r\<in>set own_rules. count_list (rp_rules p) r \<le> 1) \<and>
     (\<forall>t. t \<notin> set own_tables \<longrightarrow> rp_tables p t = rp_tables p0 t)"

lemma no_policy_frame: "no_policy p \<Longrightarrow> policy_frame p p"
  by (auto simp: no_policy_def policy_frame_def filter_id_conv count_list_0_iff intro: le_SucI)

lemma not_table: "a @ ''/32'' \<noteq> ''table''"
  by (rule notI) (drule arg_cong [of _ _ last], simp)

lemma take_four: "take 4 args = [a, b, d, e] \<Longrightarrow> args = a # b # d # e # drop 4 args"
  by (metis append_Cons append_Nil append_take_drop_id)

lemma own_ip_cases:
  assumes "own_ip c args"
  obtains (rule) op r where "args = ''rule'' # op # r" "r \<in> set own_rules" "op \<in> {''add'', ''del''}"
    | (table) op t r where "args = ''route'' # op # ''table'' # t # r" "t \<in> set own_tables"
    | (other) "\<And>p. ip_effect args p = Some p"
  using assms unfolding own_ip_def
proof (elim disjE bexE)
  fix op assume "op \<in> {''add'', ''del''}"
    "args \<in> {[''rule'', op, ''priority'', ''66'', ''fwmark'', hex_mark dataMark, ''lookup'', itoa dataTable],
        [''rule'', op, ''priority'', ''77'', ''fwmark'', hex_mark (nat transportMark), ''lookup'', itoa transportTable],
        [''rule'', op, ''priority'', ''68'', ''fwmark'', hex_mark returnMark, ''lookup'', itoa returnTable]}"
  then have "\<exists>r\<in>set own_rules. args = ''rule'' # op # r" unfolding own_rules_def rule_defs by auto
  with \<open>op \<in> _\<close> show thesis using rule by blast
next
  fix op t assume "t \<in> {dataTable, transportTable, returnTable}" and a: "take 4 args = [''route'', op, ''table'', itoa t]"
  then have "itoa t \<in> set own_tables" unfolding own_tables_def by auto
  with take_four [OF a] show thesis using table by blast
next
  fix op assume "args = [''route'', op, IranPublicIP (Network c) @ ''/32'', ''dev'', Name (Tun c)]"
  then show thesis by (intro other) (simp add: ip_effect_def not_table)
next
  assume "take 4 args = [''link'', ''set'', ''dev'', Name (Tun c)]"
  from take_four [OF this] obtain r where "args = ''link'' # ''set'' # ''dev'' # Name (Tun c) # r" ..
  then show thesis by (intro other) (simp add: ip_effect_def)
next
  assume "args = [''addr'', ''replace'', LocalCIDR (Tun c), ''dev'', Name (Tun c)]"
  then show thesis by (intro other) (simp add: ip_effect_def)
qed

lemma count_list_remove1_le: "count_list (remove1 x xs) y \<le> count_list xs y"
  by (induction xs) auto

lemma own_ip_frame:
  assumes "own_ip c args" "policy_frame p0 p" "ip_effect args p = Some p'"
  shows "policy_frame p0 p'"
  using assms(1)
proof (cases rule: own_ip_cases)
  case (rule op r)
  then obtain a b r' where r: "r = a # b # r'" by (auto simp: own_rules_def rule_defs)
  have e: "rule_effect op r p = Some p'" using assms(3) by (simp add: rule r ip_effect_def)
  show ?thesis
  proof (cases "op = ''add''")
    case True
    with e have "r \<notin> set (rp_rules p)" "p' = p\<lparr>rp_rules := rp_rules p @ [r]\<rparr>" by (auto simp: rule_effect_def split: if_splits)
    moreover have "count_list (rp_rules p @ [r]) x \<le> 1" if "r \<notin> set (rp_rules p)" "x \<in> set own_rules" for x
      using that assms(2) count_list_0_iff [of "rp_rules p" r] by (auto simp: policy_frame_def)
    ultimately show ?thesis using assms(2) rule(2) by (simp add: policy_frame_def)
  next
    case False
    with e have "p' = p\<lparr>rp_rules := remove1 r (rp_rules p)\<rparr>" by (auto simp: rule_effect_def split: if_splits)
    moreover have "count_list (remove1 r (rp_rules p)) x \<le> 1" if "x \<in> set own_rules" for x
      using that assms(2) count_list_remove1_le [of r "rp_rules p" x] by (fastforce simp: policy_frame_def)
    ultimately show ?thesis using assms(2) rule(2) by (simp add: policy_frame_def filter_remove1_out)
  qed
next
  case (table op t r)
  then have "table_effect op t r p = Some p'" using assms(3) by (simp add: ip_effect_def)
  then obtain rs where "p' = p\<lparr>rp_tables := (rp_tables p)(t := rs)\<rparr>"
    by (auto simp: table_effect_def Let_def split: if_splits)
  with assms(2) table(2) show ?thesis by (auto simp: policy_frame_def)
next
  case other
  with assms(2,3) show ?thesis by simp
qed

lemma policy_host_property: "policy_routing exec rp \<Longrightarrow> host_property exec c (\<lambda>s. policy_frame p0 (rp s))"
proof
  fix cmd :: command and s
  assume pr: "policy_routing exec rp" and own: "own_command c cmd" and fr: "policy_frame p0 (rp s)"
  obtain name args where cmd: "cmd = (name, args)" by (cases cmd)
  show "policy_frame p0 (rp (snd (exec cmd s)))"
  proof (cases "name = ''ip''")
    case True
    then have "own_ip c args" using own by (simp add: own_command_def cmd)
    with policy_cases [OF pr, of args s] own_ip_frame [OF _ fr] fr show ?thesis by (auto simp: cmd True)
  next
    case False
    with policy_other [OF pr False] fr show ?thesis by (simp add: cmd)
  qed
qed

subsection \<open>Cleaning up\<close>

lemma delete_chains_rp:
  assumes "policy_routing exec rp"
  shows "delete_chains exec xs s = Some s' \<Longrightarrow> rp s' = rp s"
proof (induction xs arbitrary: s)
  case (Cons x xs)
  obtain t h cu where x: "x = (t, h, cu)" by (cases x)
  have o: "rp (snd (exec (ipt_cmd t a) s)) = rp s" for t a s using policy_other [OF assms] by (simp add: ipt_cmd_def)
  obtain s1 s2 where s1: "unhook exec t h cu s = Some s1" and s2: "deleteChain exec x s = Some s2" "delete_chains exec xs s2 = Some s'"
    using Cons.prems by (auto simp: deleteChain_def x split: option.splits)
  from unhook_ends [OF s1, of "\<lambda>s'. rp s' = rp s"] o have "rp s1 = rp s" by auto
  then have "rp s2 = rp s" using s1 s2(1) o by (auto simp: deleteChain_def x runQuiet_def)
  with Cons.IH [OF s2(2)] show ?case by simp
qed simp

text \<open>Deleting a rule that is present at most once, and flushing a table.\<close>

definition without_rule :: "string list \<Rightarrow> policy \<Rightarrow> policy" where
  "without_rule r p = p\<lparr>rp_rules := filter (\<lambda>x. x \<noteq> r) (rp_rules p)\<rparr>"

definition with_table :: "string \<Rightarrow> (string \<times> string list) list \<Rightarrow> policy \<Rightarrow> policy" where
  "with_table t rs p = p\<lparr>rp_tables := (rp_tables p)(t := rs)\<rparr>"

lemma del_rule:
  assumes "policy_routing exec rp" "r = a # b # r'" "count_list (rp_rules (rp s)) r \<le> 1"
  shows "rp (runQuiet exec (''ip'', ''rule'' # ''del'' # r) s) = without_rule r (rp s)"
proof -
  have "filter (\<lambda>x. x \<noteq> r) xs = (if r \<in> set xs then remove1 r xs else xs)" if "count_list xs r \<le> 1" for xs
    using that by (induction xs) (auto simp: count_list_0_iff filter_id_conv)
  with assms(3) policy_sure [OF assms(1), of "''rule'' # ''del'' # r" s] show ?thesis
    by (simp add: runQuiet_def sure_def ip_effect_def rule_effect_def without_rule_def assms(2))
qed

lemma flush_table:
  assumes "policy_routing exec rp"
  shows "rp (runQuiet exec (''ip'', [''route'', ''flush'', ''table'', t]) s) = with_table t [] (rp s)"
  using policy_sure [OF assms, of "[''route'', ''flush'', ''table'', t]" s]
  by (simp add: runQuiet_def sure_def ip_effect_def table_effect_def with_table_def Let_def)

lemma main_route:
  assumes "policy_routing exec rp"
  shows "rp (snd (exec (''ip'', [''route'', op, a @ ''/32'', ''dev'', d]) s)) = rp s"
proof -
  have "ip_effect [''route'', op, a @ ''/32'', ''dev'', d] p = Some p" for p by (simp add: ip_effect_def not_table)
  with policy_cases [OF assms, of "[''route'', op, a @ ''/32'', ''dev'', d]" s] show ?thesis by auto
qed

lemma count_list_filter_le: "count_list (filter P xs) x \<le> count_list xs x"
  by (induction xs) auto

definition single :: "policy \<Rightarrow> bool" where
  "single p \<longleftrightarrow> (\<forall>r\<in>set own_rules. count_list (rp_rules p) r \<le> 1)"

lemma single_without: "single p \<Longrightarrow> single (without_rule r p)" "single p \<Longrightarrow> single (with_table t rs p)"
  using count_list_filter_le by (fastforce simp: single_def without_rule_def with_table_def intro: le_trans)+

lemma del_own:
  assumes "policy_routing exec rp" "single (rp s)"
  shows "rp (runQuiet exec (''ip'', ''rule'' # ''del'' # rule66) s) = without_rule rule66 (rp s)"
    "rp (runQuiet exec (''ip'', ''rule'' # ''del'' # rule77) s) = without_rule rule77 (rp s)"
    "rp (runQuiet exec (''ip'', ''rule'' # ''del'' # rule68) s) = without_rule rule68 (rp s)"
proof -
  have c: "count_list (rp_rules (rp s)) r \<le> 1" if "r \<in> {rule66, rule77, rule68}" for r
    using assms(2) that by (auto simp: single_def own_rules_def)
  have "\<exists>a b r'. r = a # b # r'" if "r \<in> {rule66, rule77, rule68}" for r using that by (auto simp: rule_defs)
  then have "rp (runQuiet exec (''ip'', ''rule'' # ''del'' # r) s) = without_rule r (rp s)" if "r \<in> {rule66, rule77, rule68}" for r
    using del_rule [OF assms(1) _ c] that by blast
  then show "rp (runQuiet exec (''ip'', ''rule'' # ''del'' # rule66) s) = without_rule rule66 (rp s)"
    "rp (runQuiet exec (''ip'', ''rule'' # ''del'' # rule77) s) = without_rule rule77 (rp s)"
    "rp (runQuiet exec (''ip'', ''rule'' # ''del'' # rule68) s) = without_rule rule68 (rp s)" by simp_all
qed

lemma cleanupSmartReturnPolicy_rp:
  assumes "policy_routing exec rp" "single (rp s)"
  shows "rp (cleanupSmartReturnPolicy exec c s) = with_table (itoa returnTable) [] (without_rule rule68 (rp s))"
proof -
  have "cleanupSmartReturnPolicy exec c s =
      runQuiet exec (''ip'', [''route'', ''flush'', ''table'', itoa returnTable]) (runQuiet exec (''ip'', ''rule'' # ''del'' # rule68) s)"
    by (simp add: cleanupSmartReturnPolicy_def quiet_all_def rule_defs)
  then show ?thesis using del_own(3) [OF assms] flush_table [OF assms(1)] by simp
qed

lemma cleanupRouting_rp:
  assumes "policy_routing exec rp" "single (rp s)" "cleanupRouting exec c s = Some s'"
  shows "rp s' = with_table (itoa transportTable) [] (without_rule rule77 (with_table (itoa dataTable) [] (without_rule rule66 (rp s))))"
proof -
  obtain s1 where s1: "delete_chains exec all_chains s = Some s1" "s' = quiet_all exec (cleanup_commands c) s1"
    using assms(3) by (auto simp: cleanupRouting_def)
  have "rp s1 = rp s" by (rule delete_chains_rp [OF assms(1) s1(1)])
  define s2 where "s2 = runQuiet exec (''ip'', [''route'', ''flush'', ''table'', itoa dataTable]) (runQuiet exec (''ip'', ''rule'' # ''del'' # rule66) s1)"
  define s3 where "s3 = runQuiet exec (''ip'', [''route'', ''flush'', ''table'', itoa transportTable]) (runQuiet exec (''ip'', ''rule'' # ''del'' # rule77) s2)"
  have "rp s2 = with_table (itoa dataTable) [] (without_rule rule66 (rp s))"
    using del_own(1) [OF assms(1), of s1] assms(2) \<open>rp s1 = rp s\<close> flush_table [OF assms(1)] by (simp add: s2_def)
  moreover have "rp s3 = with_table (itoa transportTable) [] (without_rule rule77 (rp s2))"
    using del_own(2) [OF assms(1), of s2] calculation assms(2) flush_table [OF assms(1)] by (simp add: s3_def single_without)
  moreover have "s' = s3 \<or> s' = runQuiet exec (''ip'', [''route'', ''del'', IranPublicIP (Network c) @ ''/32'', ''dev'', Name (Tun c)]) s3"
    by (auto simp: s1(2) s2_def s3_def quiet_all_def cleanup_commands_def rule_defs)
  then have "rp s' = rp s3" using main_route [OF assms(1)] by (auto simp: runQuiet_def)
  ultimately show ?thesis by simp
qed

text \<open>Nothing of Smart Return is installed.\<close>

definition no_return :: "policy \<Rightarrow> bool" where
  "no_return p \<longleftrightarrow> rule68 \<notin> set (rp_rules p) \<and> rp_tables p (itoa returnTable) = []"

lemma no_return_id:
  assumes "no_return p"
  shows "with_table (itoa returnTable) [] (without_rule rule68 p) = p"
proof -
  have "filter (\<lambda>x. x \<noteq> rule68) (rp_rules p) = rp_rules p" using assms by (auto simp: no_return_def filter_id_conv)
  moreover have "(rp_tables p)(itoa returnTable := []) = rp_tables p" using assms by (auto simp: no_return_def)
  ultimately show ?thesis by (simp add: without_rule_def with_table_def)
qed

lemma erased_policy:
  assumes "no_policy p0" "policy_frame p0 p"
  shows "with_table (itoa transportTable) [] (without_rule rule77 (with_table (itoa dataTable) [] (without_rule rule66
      (with_table (itoa returnTable) [] (without_rule rule68 p))))) = p0"
proof -
  have "filter (\<lambda>r. r \<noteq> rule77) (filter (\<lambda>r. r \<noteq> rule66) (filter (\<lambda>r. r \<noteq> rule68) rs)) = filter (\<lambda>r. r \<notin> set own_rules) rs" for rs
    by (simp add: own_rules_def filter_filter conj_commute conj_left_commute)
  then show ?thesis
    using assms by (intro policy.equality) (auto simp: with_table_def without_rule_def policy_frame_def no_policy_def own_tables_def)
qed

lemma frame_single: "policy_frame p0 p \<Longrightarrow> single p"
  by (simp add: policy_frame_def single_def)

lemma cleanup_policy:
  assumes "policy_routing exec rp" "no_policy p0" "policy_frame p0 (rp s)" "cleanup exec c s = Some s'"
  shows "rp s' = p0"
  using cleanupRouting_rp [OF assms(1), of "cleanupSmartReturnPolicy exec c s" c s'] assms(4) frame_single [OF assms(3)]
    cleanupSmartReturnPolicy_rp [OF assms(1), of s c] erased_policy [OF assms(2,3)] by (simp add: cleanup_def single_without)

text \<open>The other cleanup, of a start that failed before Smart Return was set up.\<close>

lemma cleanupRouting_policy:
  assumes "policy_routing exec rp" "no_policy p0" "policy_frame p0 (rp s)" "no_return (rp s)" "cleanupRouting exec c s = Some s'"
  shows "rp s' = p0"
  using cleanupRouting_rp [OF assms(1) frame_single [OF assms(3)] assms(5)] erased_policy [OF assms(2,3)] no_return_id [OF assms(4)] by simp

end
