(* ===== verification/Marked_Routes.thy ===== *)
theory Marked_Routes
  imports Policy_Routing
begin

text \<open>
  The policy routing after a successful start, and after the program has ended: which route a packet
  with one of Hashshashin's marks takes, and that \<open>run\<close> gives the administrator's rules and tables back
  whichever way it returns.
\<close>

subsection \<open>Steps that do not concern policy routing\<close>

definition neutral :: "('s \<Rightarrow> policy) \<Rightarrow> ('s \<Rightarrow> 'r \<times> 's) \<Rightarrow> bool" where
  "neutral rp f \<longleftrightarrow> (\<forall>s. rp (snd (f s)) = rp s)"

lemma neutral_keeps: "neutral rp f \<Longrightarrow> keeps (\<lambda>s. P (rp s)) f"
  by (simp add: neutral_def keeps_def)

lemma neutral_steps: "list_all (neutral rp) fs \<Longrightarrow> neutral rp (steps fs)"
  using steps_keeps [of "\<lambda>s. rp s = _" fs] by (auto simp: neutral_def keeps_def list_all_iff)

lemma neutral_exec: "policy_routing exec rp \<Longrightarrow> rp (snd (exec (ipt_cmd t a) s)) = rp s"
  by (simp add: ipt_cmd_def policy_other)

lemma neutral_ipt: "policy_routing exec rp \<Longrightarrow> neutral rp (ipt exec t a)"
  by (simp add: neutral_def ipt_def neutral_exec)

lemma neutral_runCmd: "policy_routing exec rp \<Longrightarrow> fst cmd \<noteq> ''ip'' \<Longrightarrow> neutral rp (runCmd exec cmd)"
  by (cases cmd) (simp add: neutral_def policy_other)

lemma neutral_main_route: "policy_routing exec rp \<Longrightarrow> neutral rp (runCmd exec (''ip'', [''route'', op, a @ ''/32'', ''dev'', d]))"
  by (simp add: neutral_def main_route)

lemma neutral_resetChain:
  assumes "policy_routing exec rp"
  shows "neutral rp (resetChain exec x)"
proof -
  obtain t h cu where x: "x = (t, h, cu)" by (cases x)
  have e: "rp s2 = rp s1" if "exec (ipt_cmd t a) s1 = (r, s2)" for a r s1 s2 using neutral_exec [OF assms, of t a s1] that by simp
  show ?thesis
    using neutral_exec [OF assms] neutral_ipt [OF assms, unfolded neutral_def]
    by (auto simp: neutral_def x resetChain_def Let_def runQuiet_def ipt_def runCmd_def split: prod.split option.split dest!: e)
qed

lemma neutral_hooks: "policy_routing exec rp \<Longrightarrow> list_all (neutral rp) (map (resetChain exec) hs)"
  by (simp add: list_all_iff neutral_resetChain)

lemma neutral_per_service: "(\<And>p t. list_all (neutral rp) (f p t)) \<Longrightarrow> list_all (neutral rp) (per_service c f)"
  by (auto simp: list_all_iff)

lemma neutral_kharej_rules:
  assumes "policy_routing exec rp"
  shows "list_all (neutral rp) (per_service c (kharej_port_rules exec c))"
  by (intro neutral_per_service) (simp add: kharej_port_rules_def Let_def neutral_ipt [OF assms])

lemma neutral_output: "policy_routing exec rp \<Longrightarrow> neutral rp (output_rule exec c i)"
  by (simp add: output_rule_def neutral_ipt)

lemma neutral_setupTun:
  assumes "policy_routing exec rp"
  shows "neutral rp (setupTun exec c)"
proof -
  have i: "ip_effect (''link'' # r) p = Some p" "ip_effect (''addr'' # r) p = Some p" for r p
    by (simp_all add: ip_effect_def split: list.split)
  have l: "neutral rp (runCmd exec (''ip'', ''link'' # r))" "neutral rp (runCmd exec (''ip'', ''addr'' # r))" for r
    using policy_cases [OF assms, of "''link'' # r"] policy_cases [OF assms, of "''addr'' # r"]
    unfolding neutral_def by (simp_all add: i) metis+
  have q: "neutral rp (\<lambda>s. (None :: cmd_error option, runQuiet exec (''tc'', a) s))" for a
    by (simp add: neutral_def runQuiet_def policy_other [OF assms])
  show ?thesis
    unfolding setupTun_def Let_def by (intro neutral_steps) (simp add: l q neutral_runCmd [OF assms])
qed

lemma neutral_checked:
  assumes "policy_routing exec rp" "neutral rp g"
  shows "neutral rp (\<lambda>s. case exec (ipt_cmd t a) s of (None, s) \<Rightarrow> (None, s) | (Some _, s) \<Rightarrow> g s)"
  unfolding neutral_def
proof
  fix s
  show "rp (snd (case exec (ipt_cmd t a) s of (None, s) \<Rightarrow> (None, s) | (Some _, s) \<Rightarrow> g s)) = rp s"
    using neutral_exec [OF assms(1), of t a s] assms(2)
    by (cases "exec (ipt_cmd t a) s"; cases "fst (exec (ipt_cmd t a) s)") (simp_all add: neutral_def)
qed

lemma neutral_tagged:
  assumes "neutral rp g"
  shows "neutral rp (\<lambda>s. case g s of (None, s) \<Rightarrow> (None, s) | (Some e, s) \<Rightarrow> (Some (h e), s))"
  unfolding neutral_def
proof
  fix s
  show "rp (snd (case g s of (None, s) \<Rightarrow> (None, s) | (Some e, s) \<Rightarrow> (Some (h e), s))) = rp s"
    using assms unfolding neutral_def by (cases "g s"; cases "fst (g s)") (simp_all, (metis snd_conv)+)
qed

lemma neutral_setupCarrierFirewall:
  assumes "policy_routing exec rp"
  shows "neutral rp (setupCarrierFirewall exec c)"
proof -
  have n: "neutral rp (\<lambda>s. (None, runQuiet exec (ipt_cmd t a) s))" for t a
    by (simp add: neutral_def runQuiet_def neutral_exec [OF assms])
  note k = neutral_checked [OF assms] neutral_tagged neutral_ipt [OF assms]
  have "neutral rp (steps [\<lambda>s. (None, runQuiet exec (ipt_cmd ''filter'' [''-N'', ''HSH_INPUT'']) s),
     \<lambda>s. case exec (ipt_cmd ''filter'' [''-C'', ''INPUT'', ''-j'', ''HSH_INPUT'']) s of
       (None, s) \<Rightarrow> (None, s) | (Some _, s) \<Rightarrow> ipt exec ''filter'' [''-I'', ''INPUT'', ''1'', ''-j'', ''HSH_INPUT''] s,
     \<lambda>s. case exec (ipt_cmd ''filter'' ([''-C'', ''HSH_INPUT''] @ args)) s of
       (None, s) \<Rightarrow> (None, s)
     | (Some _, s) \<Rightarrow>
         (case ipt exec ''filter'' ([''-I'', ''HSH_INPUT'', ''1''] @ args) s of
            (None, s) \<Rightarrow> (None, s) | (Some e, s) \<Rightarrow> (Some (CarrierRule (t_Type (c_Transport c)) e), s))])" for args
    unfolding list.pred_inject by (intro neutral_steps) (simp only: list.pred_inject n k simp_thms)
  then show ?thesis by (simp add: neutral_def setupCarrierFirewall_def Let_def split: sum.split)
qed

subsection \<open>Steps that succeed\<close>

definition effects :: "('s \<Rightarrow> policy) \<Rightarrow> ('s \<Rightarrow> cmd_error option \<times> 's) \<Rightarrow> (policy \<Rightarrow> policy) \<Rightarrow> bool" where
  "effects rp f g \<longleftrightarrow> (\<forall>s s'. f s = (None, s') \<longrightarrow> rp s' = g (rp s))"

lemma effectsD: "effects rp f g \<Longrightarrow> f s = (None, s') \<Longrightarrow> rp s' = g (rp s)"
  by (simp add: effects_def)

lemma neutral_effects: "neutral rp f \<Longrightarrow> effects rp f id"
  by (auto simp: neutral_def effects_def) (metis snd_conv)

lemma effects_append: "effects rp (steps fs) g \<Longrightarrow> effects rp (steps gs) h \<Longrightarrow> effects rp (steps (fs @ gs)) (h \<circ> g)"
  by (auto simp: effects_def steps_append split: prod.splits option.splits)

lemma effects_Cons: "effects rp f g \<Longrightarrow> effects rp (steps fs) h \<Longrightarrow> effects rp (steps (f # fs)) (h \<circ> g)"
  by (auto simp: effects_def split: prod.splits option.splits)

definition with_rule :: "string list \<Rightarrow> policy \<Rightarrow> policy" where
  "with_rule r p = p\<lparr>rp_rules := rp_rules p @ [r]\<rparr>"

definition with_route :: "string \<Rightarrow> string \<times> string list \<Rightarrow> policy \<Rightarrow> policy" where
  "with_route t r p = with_table t (rp_tables p t @ [r]) p"

lemma runCmd_ip:
  assumes "policy_routing exec rp" "runCmd exec (''ip'', args) s = (None, s')"
  shows "ip_effect args (rp s) = Some (rp s')"
  using policy_ok [OF assms(1), of args s] assms(2) by (auto simp: runCmd_def split: prod.splits option.splits)

lemma effects_rule: "policy_routing exec rp \<Longrightarrow> effects rp (runCmd exec (''ip'', ''rule'' # ''add'' # a # b # r)) (with_rule (a # b # r))"
  by (auto simp: effects_def with_rule_def ip_effect_def rule_effect_def dest!: runCmd_ip split: if_splits)

lemma effects_route: "policy_routing exec rp \<Longrightarrow> effects rp (runCmd exec (''ip'', ''route'' # ''add'' # ''table'' # t # d # r)) (with_route t (d, r))"
  by (auto simp: effects_def with_route_def with_table_def ip_effect_def table_effect_def Let_def dest!: runCmd_ip split: if_splits)

definition bypass_route :: "Config \<Rightarrow> string \<times> string list" where
  "bypass_route c =
     (''default'', (if PublicGateway (Network c) \<noteq> '''' then [''via'', PublicGateway (Network c)] else []) @
        [''dev'', PublicInterface (Network c), ''src'', PublicIP (Network c)])"

lemma effects_bypass:
  assumes "policy_routing exec rp"
  shows "effects rp (setupTransportBypass exec c) (with_route (itoa transportTable) (bypass_route c) \<circ> with_rule rule77)"
proof -
  have s: "setupTransportBypass exec c =
      steps [runCmd exec (''ip'', ''rule'' # ''add'' # ''priority'' # ''77'' # drop 2 rule77),
        runCmd exec (''ip'', ''route'' # ''add'' # ''table'' # itoa transportTable # ''default'' # snd (bypass_route c))]"
    by (simp add: setupTransportBypass_def rule_defs bypass_route_def Let_def)
  have "effects rp (setupTransportBypass exec c)
      ((id \<circ> with_route (itoa transportTable) (''default'', snd (bypass_route c))) \<circ> with_rule (''priority'' # ''77'' # drop 2 rule77))"
    unfolding s by (intro effects_Cons effects_rule [OF assms] effects_route [OF assms]) (simp add: effects_def)
  moreover have "''priority'' # ''77'' # drop 2 rule77 = rule77" "(''default'', snd (bypass_route c)) = bypass_route c"
    by (simp_all add: rule_defs bypass_route_def)
  ultimately show ?thesis by simp
qed

text \<open>What a successful start makes of the administrator's policy.\<close>

definition bypasses :: "Config \<Rightarrow> bool" where
  "bypasses c \<longleftrightarrow> Mode c = ''direct-return'' \<longrightarrow> Enabled (SmartReturn c)"

definition routed :: "Config \<Rightarrow> policy \<Rightarrow> policy" where
  "routed c =
     (if Ports c = [] then id
      else if Role c = ''iran''
      then with_route (itoa dataTable) (ForeignPublicIP (Network c) @ ''/32'', [''dev'', Name (Tun c)]) \<circ> with_rule rule66
      else if bypasses c then with_route (itoa transportTable) (bypass_route c) \<circ> with_rule rule77
      else id)"

definition smart_policy :: "Config \<Rightarrow> bool" where
  "smart_policy c \<longleftrightarrow> Enabled (SmartReturn c) \<and> Role c = ''kharej'' \<and> Mode c = ''direct-return'' \<and> Ports c \<noteq> []"

definition smart_routed :: "Config \<Rightarrow> policy \<Rightarrow> policy" where
  "smart_routed c p =
     (if smart_policy c then with_table (itoa returnTable) [] (with_rule rule68 (with_table (itoa returnTable) [] (without_rule rule68 p)))
      else p)"

lemma effects_iran:
  assumes "policy_routing exec rp"
  shows "effects rp (setupIranRouting exec c)
    (with_route (itoa dataTable) (ForeignPublicIP (Network c) @ ''/32'', [''dev'', Name (Tun c)]) \<circ> with_rule rule66)"
proof -
  let ?g = "with_route (itoa dataTable) (ForeignPublicIP (Network c) @ ''/32'', [''dev'', Name (Tun c)]) \<circ> with_rule rule66"
  have "effects rp (steps (map (runCmd exec) (iran_ip_commands c))) ((id \<circ> with_route (itoa dataTable) (ForeignPublicIP (Network c) @ ''/32'',
      [''dev'', Name (Tun c)])) \<circ> with_rule rule66)"
    unfolding iran_ip_commands_def rule66_def list.map
    by (intro effects_Cons effects_rule [OF assms] effects_route [OF assms]) (simp add: effects_def)
  then have i: "effects rp (steps (map (runCmd exec) (iran_ip_commands c))) ?g" by simp
  have "list_all (neutral rp) (map (resetChain exec) iran_hooks @ map (add_rule exec) (iran_rules c))"
    by (simp add: neutral_hooks [OF assms]) (simp add: list_all_iff add_rule_def neutral_ipt [OF assms] split: prod.split)
  from effects_append [OF i neutral_effects [OF neutral_steps [OF this]]] show ?thesis
    unfolding setupIranRouting_parts by simp
qed

lemma effects_kharej:
  assumes "policy_routing exec rp"
  shows "effects rp (setupKharejRouting exec c)
    (if bypasses c then with_route (itoa transportTable) (bypass_route c) \<circ> with_rule rule77 else id)"
proof -
  let ?g = "with_route (itoa transportTable) (bypass_route c) \<circ> with_rule rule77"
  have n: "list_all (neutral rp) (map (\<lambda>p. ipt exec ''mangle'' (a p)) ps)" for a and ps :: "Port list"
    by (simp add: list_all_iff neutral_ipt [OF assms])
  note e = neutral_effects [OF neutral_output [OF assms]] effects_bypass [OF assms] neutral_effects [OF neutral_main_route [OF assms]]
    neutral_effects [OF neutral_steps [OF n]]
  have nil: "effects rp (steps []) id" by (simp add: effects_def)
  have r: "effects rp (steps (kharej_rest exec c)) (if bypasses c then ?g else id)"
  proof (cases "Mode c = ''direct-return''")
    case False
    have "effects rp (steps (kharej_rest exec c)) (((id \<circ> id) \<circ> id) \<circ> ?g)"
      unfolding kharej_rest_def if_not_P [OF False] append_Cons append_Nil by (intro effects_Cons e)
    then show ?thesis using False by (simp add: bypasses_def)
  next
    case True
    have "effects rp (steps [output_rule exec c (PublicInterface (Network c)), setupTransportBypass exec c, output_rule exec c (Name (Tun c))])
        (((id \<circ> id) \<circ> ?g) \<circ> id)"
      by (intro effects_Cons e nil)
    moreover have "effects rp (steps [output_rule exec c (PublicInterface (Network c))]) (id \<circ> id)" by (intro effects_Cons e nil)
    ultimately show ?thesis using True by (simp add: kharej_rest_def bypasses_def)
  qed
  have "list_all (neutral rp) (map (resetChain exec) kharej_hooks @ per_service c (kharej_port_rules exec c))"
    using neutral_hooks [OF assms] neutral_kharej_rules [OF assms] by simp
  from effects_append [OF neutral_effects [OF neutral_steps [OF this]] r] show ?thesis
    unfolding setupKharejRouting_parts by simp
qed

lemma effects_routing: "policy_routing exec rp \<Longrightarrow> effects rp (setupRouting exec c) (routed c)"
  using effects_iran [of exec rp c] effects_kharej [of exec rp c] by (auto simp: effects_def setupRouting_def routed_def)

lemma effects_or_cleanup: "neutral rp f \<Longrightarrow> effects rp (or_cleanup exec c f) id"
  by (auto simp: effects_def or_cleanup_def neutral_def split: prod.splits option.splits) (metis snd_conv)

lemma effects_ids: "list_all (\<lambda>f. effects rp f id) fs \<Longrightarrow> effects rp (steps fs) id"
proof (induction fs)
  case (Cons f fs)
  then have "effects rp f id" "list_all (\<lambda>f. effects rp f id) fs" by (simp_all only: list.pred_inject)
  then have "effects rp (steps (f # fs)) (id \<circ> id)" by (intro effects_Cons Cons.IH)
  then show ?case by (simp only: id_comp)
qed (simp add: effects_def)

lemma smart_rules_ids:
  assumes "policy_routing exec rp"
  shows "list_all (\<lambda>f. effects rp f id) (per_service c (smart_port_rules exec c))"
proof -
  have "list_all (\<lambda>f. effects rp f id) (smart_port_rules exec c p t)" for p t
    by (simp add: smart_port_rules_def Let_def effects_or_cleanup [OF neutral_ipt [OF assms]])
  then show ?thesis by (auto simp: list_all_iff)
qed

lemma effects_direct:
  assumes "policy_routing exec rp" "smart_policy c"
  shows "effects rp (setKharejReturnPath exec c returnPathDirect) (with_table (itoa returnTable) [])"
  using assms(2) flush_table [OF assms(1)] by (simp add: effects_def setKharejReturnPath_def smart_policy_def)

lemma setupSmartReturnPolicy_rp:
  assumes "policy_routing exec rp" "single (rp s)" "setupSmartReturnPolicy exec c s = (None, s')"
  shows "rp s' = smart_routed c (rp s)"
proof (cases "smart_policy c")
  case False
  with assms(3) show ?thesis by (auto simp: setupSmartReturnPolicy_def smart_policy_def smart_routed_def split: if_splits)
next
  case True
  let ?add = "runCmd exec (''ip'', ''rule'' # ''add'' # rule68)"
  let ?rest = "per_service c (smart_port_rules exec c) @ [setKharejReturnPath exec c returnPathDirect]"
  have run: "steps (?add # ?rest) (cleanupSmartReturnPolicy exec c s) = (None, s')"
    using assms(3) True by (simp add: setupSmartReturnPolicy_def smart_policy_def rule68_def)
  have nil: "effects rp (steps []) id" by (simp add: effects_def)
  have "effects rp ?add (with_rule rule68)" unfolding rule68_def by (rule effects_rule [OF assms(1)])
  then have "effects rp (steps (?add # ?rest)) (((id \<circ> with_table (itoa returnTable) []) \<circ> id) \<circ> with_rule rule68)"
    by (intro effects_Cons effects_append effects_ids smart_rules_ids [OF assms(1)] effects_direct [OF assms(1) True] nil)
  from effectsD [OF this run] cleanupSmartReturnPolicy_rp [OF assms(1,2)] True show ?thesis
    by (simp add: smart_routed_def)
qed

lemma routed_single: "no_policy p \<Longrightarrow> single (routed c p)"
  by (auto simp: single_def routed_def with_route_def with_table_def with_rule_def no_policy_def own_rules_def count_list_0_iff)

lemma setup_host_policy:
  assumes "policy_routing exec rp" "no_policy (rp s)" "setup_host exec c s = Some (None, s')"
  shows "rp s' = smart_routed c (routed c (rp s))"
proof -
  obtain s0 where s0: "cleanup exec c s = Some s0" using assms(3) by (auto simp: setup_host_def split: option.splits)
  obtain s1 s2 s3 where s: "setupTun exec c s0 = (None, s1)" "setupRouting exec c s1 = (None, s2)"
    "setupSmartReturnPolicy exec c s2 = (None, s3)" "setupCarrierFirewall exec c s3 = (None, s')"
    using assms(3) s0 by (auto simp: setup_host_def split: prod.splits option.splits)
  have "rp s0 = rp s" using cleanup_policy [OF assms(1,2) no_policy_frame [OF assms(2)] s0] .
  moreover have "rp s1 = rp s0" using effectsD [OF neutral_effects [OF neutral_setupTun [OF assms(1)]] s(1)] by simp
  moreover have "rp s2 = routed c (rp s1)" using effectsD [OF effects_routing [OF assms(1)] s(2)] .
  moreover have "rp s3 = smart_routed c (rp s2)"
    using setupSmartReturnPolicy_rp [OF assms(1) _ s(3)] routed_single [OF assms(2), of c] calculation by simp
  moreover have "rp s' = rp s3" using effectsD [OF neutral_effects [OF neutral_setupCarrierFirewall [OF assms(1)]] s(4)] by simp
  ultimately show ?thesis by simp
qed

subsection \<open>Where a marked packet goes\<close>

text \<open>The routes found for a packet mark, in the order of the rules; without any the main table decides.
  The administrator's rules are assumed not to use Hashshashin's marks.\<close>

definition for_mark :: "nat \<Rightarrow> string list \<Rightarrow> bool" where
  "for_mark m r \<longleftrightarrow> take 2 (drop 2 r) = [''fwmark'', hex_mark m]"

definition marked_routes :: "policy \<Rightarrow> nat \<Rightarrow> (string \<times> string list) list" where
  "marked_routes p m = concat (map (\<lambda>r. rp_tables p (last r)) (filter (for_mark m) (rp_rules p)))"

definition own_marks :: "nat list" where
  "own_marks = [dataMark, nat transportMark, returnMark]"

definition marks_free :: "policy \<Rightarrow> bool" where
  "marks_free p \<longleftrightarrow> (\<forall>m\<in>set own_marks. \<forall>r\<in>set (rp_rules p). \<not> for_mark m r)"

lemma marks_distinct: "distinct (map hex_mark own_marks)" "distinct own_tables"
  by code_simp+

lemma rule_marks:
  "for_mark m rule66 \<longleftrightarrow> hex_mark m = hex_mark dataMark" "for_mark m rule77 \<longleftrightarrow> hex_mark m = hex_mark (nat transportMark)"
  "for_mark m rule68 \<longleftrightarrow> hex_mark m = hex_mark returnMark"
  "last rule66 = itoa dataTable" "last rule77 = itoa transportTable" "last rule68 = itoa returnTable"
  by (auto simp: for_mark_def rule_defs)

lemma marks_free_filter: "marks_free p \<Longrightarrow> m \<in> set own_marks \<Longrightarrow> filter (for_mark m) (rp_rules p) = []"
  by (auto simp: marks_free_def filter_empty_conv)

lemma hex_distinct:
  "hex_mark dataMark \<noteq> hex_mark (nat transportMark)" "hex_mark dataMark \<noteq> hex_mark returnMark" "hex_mark (nat transportMark) \<noteq> hex_mark returnMark"
  "dataTable \<noteq> transportTable" "dataTable \<noteq> returnTable" "transportTable \<noteq> returnTable"
  using marks_distinct by (auto simp: own_marks_def own_tables_def)

lemmas installed_simps = routed_def smart_routed_def with_route_def with_table_def with_rule_def without_rule_def

lemma rules_distinct: "rule66 \<noteq> rule68" "rule77 \<noteq> rule68"
  by (simp_all add: rule_defs)

definition own_installed :: "Config \<Rightarrow> string list list" where
  "own_installed c =
     (if Ports c = [] then [] else if Role c = ''iran'' then [rule66]
      else (if bypasses c then [rule77] else []) @ (if smart_policy c then [rule68] else []))"

lemma installed_rules:
  assumes "no_policy p"
  shows "rp_rules (smart_routed c (routed c p)) = rp_rules p @ own_installed c"
proof -
  have "filter (\<lambda>r. r \<noteq> rule68) (rp_rules p) = rp_rules p"
    using assms by (auto simp: no_policy_def own_rules_def filter_id_conv)
  then show ?thesis by (simp add: installed_simps own_installed_def smart_policy_def rules_distinct)
qed

lemma installed_tables:
  assumes "no_policy p"
  shows "rp_tables (smart_routed c (routed c p)) (itoa dataTable) =
      (if Ports c \<noteq> [] \<and> Role c = ''iran'' then [(ForeignPublicIP (Network c) @ ''/32'', [''dev'', Name (Tun c)])] else [])"
    and "rp_tables (smart_routed c (routed c p)) (itoa transportTable) =
      (if Ports c \<noteq> [] \<and> Role c \<noteq> ''iran'' \<and> bypasses c then [bypass_route c] else [])"
    and "rp_tables (smart_routed c (routed c p)) (itoa returnTable) = []"
  using assms by (simp_all add: no_policy_def own_tables_def installed_simps hex_distinct hex_distinct [symmetric])

text \<open>The routes of each mark in the installed policy.\<close>

lemma installed_routes:
  assumes "no_policy p" "marks_free p"
  shows "marked_routes (smart_routed c (routed c p)) dataMark =
      (if Ports c \<noteq> [] \<and> Role c = ''iran'' then [(ForeignPublicIP (Network c) @ ''/32'', [''dev'', Name (Tun c)])] else [])"
    and "marked_routes (smart_routed c (routed c p)) (nat transportMark) =
      (if Ports c \<noteq> [] \<and> Role c \<noteq> ''iran'' \<and> bypasses c then [bypass_route c] else [])"
    and "marked_routes (smart_routed c (routed c p)) returnMark = []"
proof -
  have f: "marked_routes (smart_routed c (routed c p)) m =
      concat (map (\<lambda>r. rp_tables (smart_routed c (routed c p)) (last r)) (filter (for_mark m) (own_installed c)))"
    if "m \<in> set own_marks" for m
    using marks_free_filter [OF assms(2) that] by (simp only: marked_routes_def installed_rules [OF assms(1)] filter_append append_Nil)
  have m: "dataMark \<in> set own_marks" "nat transportMark \<in> set own_marks" "returnMark \<in> set own_marks"
    by (simp_all add: own_marks_def)
  note s = rule_marks own_installed_def installed_tables [OF assms(1)] hex_distinct hex_distinct [symmetric]
  show "marked_routes (smart_routed c (routed c p)) dataMark =
      (if Ports c \<noteq> [] \<and> Role c = ''iran'' then [(ForeignPublicIP (Network c) @ ''/32'', [''dev'', Name (Tun c)])] else [])"
    unfolding f [OF m(1)] by (simp add: s del: concat_eq_Nil_conv)
  show "marked_routes (smart_routed c (routed c p)) (nat transportMark) =
      (if Ports c \<noteq> [] \<and> Role c \<noteq> ''iran'' \<and> bypasses c then [bypass_route c] else [])"
    unfolding f [OF m(2)] by (simp add: s del: concat_eq_Nil_conv)
  show "marked_routes (smart_routed c (routed c p)) returnMark = []"
    unfolding f [OF m(3)] by (simp add: s del: concat_eq_Nil_conv)
qed

text \<open>The direct return path leaves table 168 empty, the tunnel path puts the Iran address into it.\<close>

lemma return_path_routes:
  assumes "policy_routing exec rp" "smart_active c" "setKharejReturnPath exec c path s = (None, s')"
  shows "rp_tables (rp s') (itoa returnTable) =
      (if path = returnPathDirect then []
       else AList.update (IranPublicIP (Network c) @ ''/32'') [''dev'', Name (Tun c), ''mtu'', itoa (MTU (Tun c))]
              (rp_tables (rp s) (itoa returnTable)))"
    and "rp_rules (rp s') = rp_rules (rp s)"
    and "t \<noteq> itoa returnTable \<Longrightarrow> rp_tables (rp s') t = rp_tables (rp s) t"
proof -
  have "path = returnPathDirect \<and> rp s' = with_table (itoa returnTable) [] (rp s) \<or>
    path \<noteq> returnPathDirect \<and> ip_effect [''route'', ''replace'', ''table'', itoa returnTable, IranPublicIP (Network c) @ ''/32'',
          ''dev'', Name (Tun c), ''mtu'', itoa (MTU (Tun c))] (rp s) = Some (rp s')"
    using assms(2,3) flush_table [OF assms(1), of _ s] runCmd_ip [OF assms(1)]
    by (auto simp: setKharejReturnPath_def smart_active_def split: if_splits)
  then show "rp_tables (rp s') (itoa returnTable) =
      (if path = returnPathDirect then []
       else AList.update (IranPublicIP (Network c) @ ''/32'') [''dev'', Name (Tun c), ''mtu'', itoa (MTU (Tun c))]
              (rp_tables (rp s) (itoa returnTable)))"
    "rp_rules (rp s') = rp_rules (rp s)"
    "t \<noteq> itoa returnTable \<Longrightarrow> rp_tables (rp s') t = rp_tables (rp s) t"
    by (auto simp: with_table_def ip_effect_def table_effect_def Let_def dest!: sym [of _ "rp s'"])
qed

subsection \<open>A start that fails\<close>

lemma keeps_ip:
  assumes "policy_routing exec rp" "\<And>p p'. ip_effect args p = Some p' \<Longrightarrow> P p \<Longrightarrow> P p'"
  shows "keeps (\<lambda>s. P (rp s)) (runCmd exec (''ip'', args))"
  using policy_cases [OF assms(1), of args] assms(2) unfolding keeps_def by simp metis

lemma no_return_rule: "r \<noteq> rule68 \<Longrightarrow> rule_effect ''add'' r p = Some p' \<Longrightarrow> no_return p \<Longrightarrow> no_return p'"
  by (auto simp: rule_effect_def no_return_def split: if_splits)

lemma no_return_route: "t \<noteq> itoa returnTable \<Longrightarrow> table_effect ''add'' t r p = Some p' \<Longrightarrow> no_return p \<Longrightarrow> no_return p'"
  by (auto simp: table_effect_def no_return_def Let_def split: if_splits)

lemma no_return_add:
  assumes "policy_routing exec rp"
  shows "a # b # r \<noteq> rule68 \<Longrightarrow> keeps (\<lambda>s. no_return (rp s)) (runCmd exec (''ip'', ''rule'' # ''add'' # a # b # r))"
    and "t \<noteq> itoa returnTable \<Longrightarrow> keeps (\<lambda>s. no_return (rp s)) (runCmd exec (''ip'', ''route'' # ''add'' # ''table'' # t # r))"
  by (rule keeps_ip [OF assms]; simp add: ip_effect_def no_return_rule no_return_route)+

lemma no_return_bypass:
  assumes "policy_routing exec rp"
  shows "keeps (\<lambda>s. no_return (rp s)) (setupTransportBypass exec c)"
  unfolding setupTransportBypass_def Let_def
  by (intro steps_keeps) (use hex_distinct in \<open>simp add: no_return_add [OF assms] rule_defs\<close>)

lemma no_return_routing:
  assumes "policy_routing exec rp"
  shows "keeps (\<lambda>s. no_return (rp s)) (setupRouting exec c)"
proof -
  let ?K = "\<lambda>f. keeps (\<lambda>s. no_return (rp s)) f"
  have n: "list_all ?K fs" if "list_all (neutral rp) fs" for fs
    using that neutral_keeps [of rp _ no_return] by (auto simp: list_all_iff)
  have "list_all ?K (map (runCmd exec) (iran_ip_commands c))"
    using hex_distinct by (simp add: iran_ip_commands_def no_return_add [OF assms] rule_defs)
  moreover have "list_all (neutral rp) (map (add_rule exec) (iran_rules c))"
    by (simp add: list_all_iff add_rule_def neutral_ipt [OF assms] split: prod.split)
  ultimately have "?K (setupIranRouting exec c)"
    unfolding setupIranRouting_parts using n n [OF neutral_hooks [OF assms]] by (intro steps_keeps) simp
  moreover have "list_all ?K (kharej_rest exec c)"
    using no_return_bypass [OF assms] neutral_keeps [OF neutral_output [OF assms]] neutral_keeps [OF neutral_main_route [OF assms]]
      neutral_keeps [OF neutral_ipt [OF assms]] by (auto simp: kharej_rest_def list_all_iff)
  then have "?K (setupKharejRouting exec c)"
    unfolding setupKharejRouting_parts using n [OF neutral_hooks [OF assms]] n [OF neutral_kharej_rules [OF assms]]
    by (intro steps_keeps) simp
  ultimately show ?thesis by (simp add: keeps_def setupRouting_def)
qed

lemma no_policy_no_return: "no_policy p \<Longrightarrow> no_return p"
  by (simp add: no_policy_def no_return_def own_rules_def own_tables_def)

text \<open>A start gives the policy back when it fails, and only adds Hashshashin's part when it succeeds.\<close>

lemma setup_host_restores:
  assumes "policy_routing exec rp" "no_policy (rp s)" "setup_host exec c s = Some (e, s')"
  shows "policy_frame (rp s) (rp s') \<and> (e \<noteq> None \<longrightarrow> rp s' = rp s)"
proof -
  let ?p0 = "rp s"
  note hp = policy_host_property [OF assms(1), of c ?p0]
  note frame0 = no_policy_frame [OF assms(2)]
  obtain s1 where s1: "cleanup exec c s = Some s1" using assms(3) by (auto simp: setup_host_def split: option.splits)
  obtain e2 s2 where s2: "setupTun exec c s1 = (e2, s2)" by fastforce
  have p2: "rp s2 = ?p0"
    using cleanup_policy [OF assms(1,2) frame0 s1] neutral_setupTun [OF assms(1), of c] s2 unfolding neutral_def by (metis snd_conv)
  obtain e3 s3 where s3: "setupRouting exec c s2 = (e3, s3)" by fastforce
  have f3: "policy_frame ?p0 (rp s3)" "no_return (rp s3)"
    using keepsD [OF host_property.setupRouting_keeps [OF hp], of s2] keepsD [OF no_return_routing [OF assms(1)], of s2 c]
      s3 p2 frame0 no_policy_no_return [OF assms(2)] by simp_all
  obtain e4 s4 where s4: "setupSmartReturnPolicy exec c s3 = (e4, s4)" by fastforce
  have f4: "policy_frame ?p0 (rp s4)" using keepsD [OF host_property.setupSmartReturnPolicy_keeps [OF hp] f3(1)] s4 by simp
  obtain e5 s5 where s5: "setupCarrierFirewall exec c s4 = (e5, s5)" by fastforce
  have f5: "policy_frame ?p0 (rp s5)" using keepsD [OF host_property.setupCarrierFirewall_keeps [OF hp] f4] s5 by simp
  note restores = cleanupRouting_policy [OF assms(1,2) f3] cleanup_policy [OF assms(1,2) f4] cleanup_policy [OF assms(1,2) f5]
  consider "e2 \<noteq> None" | "e2 = None" "e3 \<noteq> None" | "e2 = None" "e3 = None" "e4 \<noteq> None"
    | "e2 = None" "e3 = None" "e4 = None" "e5 \<noteq> None" | "e2 = None" "e3 = None" "e4 = None" "e5 = None"
    by blast
  then show ?thesis
    using assms(3) p2 f5 frame0 restores by cases (auto simp: setup_host_def s1 s2 s3 s4 s5)
qed

text \<open>The policy is given back unless a probe monitor is still running when the cleanup is done.\<close>

lemma served_policy:
  assumes "policy_routing exec rp" "no_policy (rp s)" and run: "run exec c env s = Some r"
    and quiet: "rr_complete r \<or> Role c = ''iran'' \<or> \<not> Enabled (SmartReturn c)"
    and o: "openTun (Name (Tun c)) (TunQueues (c_Performance c)) (rn_kernel env) = (Inr tun, k)"
    and up: "setup_host exec c s = Some (None, s')" "policy_frame (rp s) (rp s')"
    and car: "newCarrier (rn_resolver env) c (rn_net env) = Inr car"
  shows "rp (rr_host r) = rp s"
proof -
  obtain err complete d where sv: "serve exec c env (tun, k) car s' = (err, complete, d)" by (metis prod_cases3)
  have f: "policy_frame (rp s) (rp (d_host d))"
    by (rule serve_host [where I = "\<lambda>s1. policy_frame (rp s) (rp s1)", OF _ _ sv])
      (simp_all add: up(2) host_property.setKharejReturnPath_keeps [OF policy_host_property [OF assms(1)]])
  obtain s3 where s3: "cleanup exec c (d_host d) = Some s3"
    using run up car sv by (cases "cleanup exec c (d_host d)") (auto simp: run_def o Let_def)
  have "rr_complete r = complete" "rr_host r = d_host (leftover exec c env d s3)"
    using run_served [OF o up(1) car sv s3] run by auto
  then have "rr_host r = s3" using leftover_quiet serve_not_monitoring [OF sv] quiet by metis
  with cleanup_policy [OF assms(1,2) f s3] show ?thesis by simp
qed

lemma run_policy:
  assumes "policy_routing exec rp" "no_policy (rp s)" "run exec c env s = Some r"
    and "rr_complete r \<or> Role c = ''iran'' \<or> \<not> Enabled (SmartReturn c)"
  shows "rp (rr_host r) = rp s"
proof -
  obtain o1 k where o: "openTun (Name (Tun c)) (TunQueues (c_Performance c)) (rn_kernel env) = (o1, k)" by fastforce
  show ?thesis
  proof (cases o1)
    case (Inl e)
    with assms(3) o show ?thesis by (auto simp: run_def Let_def)
  next
    case (Inr tun)
    obtain e s' where up: "setup_host exec c s = Some (e, s')"
      using assms(3) by (auto simp: run_def o Inr Let_def split: option.splits)
    note h = setup_host_restores [OF assms(1,2) up]
    consider (fail) "e \<noteq> None" | (no_carrier) e' sock where "e = None" "newCarrier (rn_resolver env) c (rn_net env) = Inl (e', sock)"
      | (served) car where "e = None" "newCarrier (rn_resolver env) c (rn_net env) = Inr car"
      by (metis sum.exhaust prod.exhaust)
    then show ?thesis
    proof cases
      case fail
      with assms(3) up h show ?thesis by (auto simp: run_def o Inr Let_def)
    next
      case no_carrier
      with up h have "policy_frame (rp s) (rp s')" by simp
      moreover have "cleanup exec c s' = Some (rr_host r)"
        using assms(3) up no_carrier by (auto simp: run_def o Inr Let_def)
      ultimately show ?thesis by (rule cleanup_policy [OF assms(1,2)])
    next
      case served
      show ?thesis by (rule served_policy [OF assms o [unfolded Inr] up [unfolded served(1)] _ served(2)]) (use h in blast)
    qed
  qed
qed

text \<open>Such a monitor can leave a route behind: cancelled in its wait when one more failure is enough to
  leave the direct path, it installs the route of the tunnel path although the tables were cleaned up.\<close>

lemma late_monitor_leaves_route:
  assumes "policy_routing (g_exec g) rp" "smart_active (g_config g)" "d_cancelled d" "wk_case w = OnDone"
    and "i < length (d_threads d)" "d_threads d ! i = MonitorAwait ctl pc nonce"
    and "rpath ctl = returnPathDirect" "failThreshold ctl \<le> failures ctl + 1"
    and "g_exec g (replace_cmd (g_config g)) (d_host d) = (None, host')"
  shows "d_host (perform g [Wake i w] d) = host' \<and> rp_tables (rp host') (itoa returnTable) \<noteq> []"
proof -
  have set_path: "setKharejReturnPath (g_exec g) (g_config g) returnPathTunnel (d_host d) = (None, host')"
    using assms(2,9)
    by (simp add: setKharejReturnPath_def smart_active_def replace_cmd_def runCmd_def returnPathDirect_def returnPathTunnel_def)
  have "fst (observe False ctl) = (returnPathTunnel, True)"
    using assms(7,8) by (simp add: observe_def Let_def)
  then have "m_host (follow (g_exec g) (g_config g) False
      \<lparr>m_controller = ctl, m_sock = pc, m_st = st, m_host = d_host d\<rparr>) = host'" for st
    using set_path by (simp add: follow_def Let_def case_prod_beta)
  then have "d_host (perform g [Wake i w] d) = host'"
    using assms(3-6)
    by (simp add: happens_def wake_thread_def monitor_wake_def on_monitor_def probe_wait_def Let_def case_prod_beta)
  moreover have "AList.update k v al \<noteq> []" for k :: string and v :: "string list" and al by (induction al) auto
  then have "rp_tables (rp host') (itoa returnTable) \<noteq> []"
    using return_path_routes(1) [OF assms(1,2) set_path] by (simp add: returnPathDirect_def returnPathTunnel_def)
  ultimately show ?thesis by blast
qed

end
