(* ===== verification/Host_Policy.thy ===== *)
theory Host_Policy
  imports Marked_Routes
begin

text \<open>
  The properties of the program on a host whose packet filter and policy routing behave as documented,
  with concrete hosts on which the hypotheses hold.
\<close>

subsection \<open>Concrete hosts\<close>

text \<open>A host on which \<open>ip\<close> does what it is asked whenever it can, and no chain has a jump yet.\<close>

definition sim_ip :: "policy exec" where
  "sim_ip cmd p =
     (case cmd of (name, args) \<Rightarrow>
        if name = ''ip'' then (case ip_effect args p of None \<Rightarrow> (Some ''File exists'', p) | Some p' \<Rightarrow> (None, p'))
        else if take 1 (drop 2 args) = [''-C''] then (Some ''Bad rule'', p)
        else (None, p))"

lemma sim_ip_policy: "policy_routing sim_ip (\<lambda>p. p)"
  by (auto simp: policy_routing_def sim_ip_def split: option.splits)

definition idle_step :: "(policy \<Rightarrow> cmd_error option \<times> policy) \<Rightarrow> bool" where
  "idle_step f \<longleftrightarrow> (\<forall>p. f p = (None, p))"

lemma idle_steps: "list_all idle_step fs \<Longrightarrow> idle_step (steps fs)"
  by (induction fs) (simp_all add: idle_step_def)

lemma sim_ip_ipt: "op \<noteq> ''-C'' \<Longrightarrow> sim_ip (ipt_cmd t (op # r)) p = (None, p)" "sim_ip (ipt_cmd t (''-C'' # r)) p = (Some ''Bad rule'', p)"
  by (simp_all add: sim_ip_def ipt_cmd_def)

lemma idle_ipt: "op \<noteq> ''-C'' \<Longrightarrow> idle_step (ipt sim_ip t (op # r))"
  by (simp add: idle_step_def ipt_def runCmd_def sim_ip_ipt)

lemma idle_resetChain: "idle_step (resetChain sim_ip x)"
  by (cases x) (use idle_ipt in \<open>simp add: idle_step_def resetChain_def runQuiet_def sim_ip_ipt\<close>)

lemma idle_main_route: "idle_step (runCmd sim_ip (''ip'', [''route'', op, a @ ''/32'', ''dev'', d]))"
  by (simp add: idle_step_def runCmd_def sim_ip_def ip_effect_def not_table)

lemma idle_setupTun: "idle_step (setupTun sim_ip c)"
proof -
  have "sim_ip (''ip'', ''link'' # r) p = (None, p)" "sim_ip (''ip'', ''addr'' # r) p = (None, p)"
    "name \<noteq> ''ip'' \<Longrightarrow> take 1 (drop 2 args) \<noteq> [''-C''] \<Longrightarrow> sim_ip (name, args) p = (None, p)" for r p name args
    by (simp_all add: sim_ip_def ip_effect_def split: list.split)
  then show ?thesis
    unfolding setupTun_def Let_def by (intro idle_steps) (simp add: idle_step_def runCmd_def runQuiet_def)
qed

lemma idle_setupCarrierFirewall:
  assumes "listenPort (Listen (c_Transport c)) = Inr port"
  shows "idle_step (setupCarrierFirewall sim_ip c)"
  using assms idle_ipt [of "''-I''" "''filter''"]
  by (simp add: idle_step_def setupCarrierFirewall_def Let_def runQuiet_def sim_ip_ipt)

lemma sim_add:
  "r = a # b # r' \<Longrightarrow> r \<notin> set (rp_rules p) \<Longrightarrow> runCmd sim_ip (''ip'', ''rule'' # ''add'' # r) p = (None, with_rule r p)"
  "rp_tables p t = [] \<Longrightarrow> runCmd sim_ip (''ip'', ''route'' # ''add'' # ''table'' # t # d # r') p = (None, with_route t (d, r') p)"
  by (simp_all add: runCmd_def sim_ip_def ip_effect_def rule_effect_def table_effect_def with_rule_def with_route_def with_table_def)

lemma sim_bypass:
  assumes "no_policy p"
  shows "fst (setupTransportBypass sim_ip c p) = None"
proof -
  have s: "setupTransportBypass sim_ip c =
      steps [runCmd sim_ip (''ip'', ''rule'' # ''add'' # rule77),
        runCmd sim_ip (''ip'', ''route'' # ''add'' # ''table'' # itoa transportTable # ''default'' # snd (bypass_route c))]"
    by (simp add: setupTransportBypass_def rule_defs bypass_route_def Let_def)
  have "runCmd sim_ip (''ip'', ''rule'' # ''add'' # rule77) p = (None, with_rule rule77 p)"
    using assms by (intro sim_add(1) [of _ "''priority''" "''77''" "drop 2 rule77"]) (simp_all add: no_policy_def own_rules_def, simp add: rule_defs)
  moreover have "rp_tables (with_rule rule77 p) (itoa transportTable) = []"
    using assms by (simp add: with_rule_def no_policy_def own_tables_def)
  ultimately show ?thesis unfolding s by (simp add: sim_add(2))
qed

lemma steps_idle: "list_all idle_step fs \<Longrightarrow> steps (fs @ gs) p = steps gs p"
  using idle_steps [of fs] by (simp add: steps_append idle_step_def)

lemma sim_setupRouting:
  assumes "no_policy p"
  shows "fst (setupRouting sim_ip c p) = None"
proof -
  have hooks: "list_all idle_step (map (resetChain sim_ip) hs)" for hs by (simp add: list_all_iff idle_resetChain)
  have adds: "idle_step (add_rule sim_ip x)" for x by (cases x) (simp add: add_rule_def idle_ipt)
  have out: "idle_step (output_rule sim_ip c i)" for i by (simp add: output_rule_def idle_ipt)
  have "runCmd sim_ip (''ip'', ''rule'' # ''add'' # rule66) p = (None, with_rule rule66 p)"
    using assms by (intro sim_add(1) [of _ "''priority''" "''66''" "drop 2 rule66"]) (simp_all add: no_policy_def own_rules_def, simp add: rule_defs)
  moreover have "rp_tables (with_rule rule66 p) (itoa dataTable) = []"
    using assms by (simp add: with_rule_def no_policy_def own_tables_def)
  moreover have "map (runCmd sim_ip) (iran_ip_commands c) = [runCmd sim_ip (''ip'', ''rule'' # ''add'' # rule66),
      runCmd sim_ip (''ip'', ''route'' # ''add'' # ''table'' # itoa dataTable # (ForeignPublicIP (Network c) @ ''/32'') # [''dev'', Name (Tun c)])]"
    by (simp add: iran_ip_commands_def rule_defs)
  moreover have "idle_step (steps (map (resetChain sim_ip) iran_hooks @ map (add_rule sim_ip) (iran_rules c)))"
    by (intro idle_steps) (auto simp: list_all_iff idle_resetChain adds)
  ultimately have iran: "fst (setupIranRouting sim_ip c p) = None"
    unfolding setupIranRouting_parts by (simp add: sim_add(2) idle_step_def)
  have "list_all idle_step (kharej_port_rules sim_ip c p t)" for p t by (simp add: kharej_port_rules_def Let_def idle_ipt)
  then have "list_all idle_step (map (resetChain sim_ip) kharej_hooks @ per_service c (kharej_port_rules sim_ip c))"
    using hooks by (auto simp: list_all_iff)
  from steps_idle [OF this] have k: "setupKharejRouting sim_ip c p = steps (kharej_rest sim_ip c) p"
    unfolding setupKharejRouting_parts by simp
  have "idle_step (steps (map (\<lambda>p. ipt sim_ip ''mangle'' (''-A'' # a p)) ps))" for a and ps :: "Port list"
    by (intro idle_steps) (simp add: list_all_iff idle_ipt)
  then have "fst (steps (kharej_rest sim_ip c) p) = None"
    using sim_bypass [OF assms, of c] out idle_main_route
    by (cases "setupTransportBypass sim_ip c p") (auto simp: kharej_rest_def idle_step_def)
  with iran k show ?thesis by (simp add: setupRouting_def)
qed

lemma sim_setupSmartReturnPolicy:
  assumes "single p"
  shows "fst (setupSmartReturnPolicy sim_ip c p) = None"
proof (cases "smart_policy c")
  case False
  then show ?thesis by (auto simp: setupSmartReturnPolicy_def smart_policy_def)
next
  case True
  let ?p = "cleanupSmartReturnPolicy sim_ip c p"
  have "rule68 \<notin> set (rp_rules ?p)"
    using cleanupSmartReturnPolicy_rp [OF sim_ip_policy assms, of c] by (simp add: with_table_def without_rule_def)
  then have a: "runCmd sim_ip (''ip'', ''rule'' # ''add'' # rule68) ?p = (None, with_rule rule68 ?p)"
    by (intro sim_add(1) [of _ "''priority''" "''68''" "drop 2 rule68"]) (simp_all add: rule_defs)
  have "idle_step (or_cleanup sim_ip c f)" if "idle_step f" for f using that by (simp add: idle_step_def or_cleanup_def)
  then have "list_all idle_step (smart_port_rules sim_ip c p t)" for p t by (simp add: smart_port_rules_def Let_def idle_ipt)
  then have "list_all idle_step (per_service c (smart_port_rules sim_ip c))" by (auto simp: list_all_iff)
  note rest = steps_idle [OF this, of "[setKharejReturnPath sim_ip c returnPathDirect]"]
  have "fst (steps [setKharejReturnPath sim_ip c returnPathDirect] p) = None" for p by (simp add: setKharejReturnPath_def)
  moreover have "setupSmartReturnPolicy sim_ip c p =
      steps (runCmd sim_ip (''ip'', ''rule'' # ''add'' # rule68) # per_service c (smart_port_rules sim_ip c) @
        [setKharejReturnPath sim_ip c returnPathDirect]) ?p"
    using True by (simp add: setupSmartReturnPolicy_def smart_policy_def rule68_def)
  ultimately show ?thesis by (simp only: steps.simps(2) [of "runCmd _ _"] a rest option.case prod.case)
qed

lemma sim_ip_unhook: "unhook sim_ip t h cu p = Some p"
  by (subst unhook.simps) (simp add: sim_ip_ipt)

lemma sim_ip_up:
  assumes "no_policy p" "listenPort (Listen (c_Transport c)) = Inr port"
  shows "\<exists>p'. setup_host sim_ip c p = Some (None, p')"
proof -
  have "\<exists>p'. delete_chains sim_ip xs p = Some p'" for xs p
    by (induction xs arbitrary: p) (auto simp: deleteChain_def sim_ip_unhook split: prod.split)
  then obtain p0 where "delete_chains sim_ip all_chains (cleanupSmartReturnPolicy sim_ip c p) = Some p0" by blast
  then obtain p1 where p1: "cleanup sim_ip c p = Some p1" by (simp add: cleanup_def cleanupRouting_def)
  have "p1 = p" using cleanup_policy [OF sim_ip_policy assms(1) no_policy_frame [OF assms(1)] p1] .
  obtain p2 where p2: "setupRouting sim_ip c p = (None, p2)" using sim_setupRouting [OF assms(1)] by (metis prod.collapse)
  have "single p2" using effectsD [OF effects_routing [OF sim_ip_policy] p2] routed_single [OF assms(1)] by simp
  then obtain p3 where p3: "setupSmartReturnPolicy sim_ip c p2 = (None, p3)"
    using sim_setupSmartReturnPolicy by (metis prod.collapse)
  show ?thesis
    using idle_setupTun [of c] idle_setupCarrierFirewall [OF assms(2)] p1 p2 p3
    by (simp add: \<open>p1 = p\<close> idle_step_def setup_host_def)
qed

text \<open>A host with a packet filter and with policy routing.\<close>

definition sim_both :: "(firewall \<times> policy) exec" where
  "sim_both cmd s =
     (case s of (f, p) \<Rightarrow>
        if fst cmd = ''ip'' then (let (r, p) = sim_ip cmd p in (r, f, p)) else (let (r, f) = sim_host cmd f in (r, f, p)))"

lemma sim_both_laws: "netfilter sim_both fst" "policy_routing sim_both snd"
  by (auto simp: netfilter_def policy_routing_def sim_both_def sim_host_def sim_ip_def split: option.splits prod.splits)

definition demo_policy :: policy where
  "demo_policy = \<lparr>rp_rules = [[''priority'', ''32766'', ''lookup'', ''main'']], rp_tables = (\<lambda>_. [])\<rparr>"

lemma demo_policy_free: "no_policy demo_policy" "marks_free demo_policy"
  by (simp_all add: no_policy_def marks_free_def own_rules_def rule_defs demo_policy_def for_mark_def)

subsection \<open>Properties\<close>

text \<open>C11: marked packets are routed as intended. After a successful start with at least one service, the only
  route for the data mark on Iran is the one through the tunnel to the Kharej address; the only route
  for the transport mark, which the carrier's sockets carry, on a Kharej that may send service traffic
  through the tunnel is the default route of the public interface, so the carrier never runs through
  its own tunnel; and the return mark has no route, so that responses start on the direct path.\<close>

theorem marked_traffic_routed:
  assumes "policy_routing exec rp" "no_policy (rp s)" "marks_free (rp s)" "setup_host exec c s = Some (None, s')"
  shows "marked_routes (rp s') dataMark =
      (if Ports c \<noteq> [] \<and> Role c = ''iran'' then [(ForeignPublicIP (Network c) @ ''/32'', [''dev'', Name (Tun c)])] else []) \<and>
    marked_routes (rp s') (nat transportMark) =
      (if Ports c \<noteq> [] \<and> Role c \<noteq> ''iran'' \<and> (Mode c \<noteq> ''direct-return'' \<or> Enabled (SmartReturn c)) then [bypass_route c] else []) \<and>
    marked_routes (rp s') returnMark = []"
  using installed_routes [OF assms(2,3), of c] unfolding setup_host_policy [OF assms(1,2,4)] by (simp add: bypasses_def)

theorem marked_traffic_routed_witness:
  "\<exists>p. setup_host sim_ip (demo_config ''udp'' 25) demo_policy = Some (None, p) \<and>
    marked_routes p (nat transportMark) = [(''default'', [''dev'', ''eth0'', ''src'', ''192.0.2.7''])]"
proof -
  obtain p where p: "setup_host sim_ip (demo_config ''udp'' 25) demo_policy = Some (None, p)"
    using sim_ip_up [OF demo_policy_free(1), of "demo_config ''udp'' 25" 9000] by (auto simp: demo_config_def demo_addresses)
  from marked_traffic_routed [OF sim_ip_policy demo_policy_free p] have
    "marked_routes p (nat transportMark) = [bypass_route (demo_config ''udp'' 25)]"
    using demo_smart_active [of "''udp''" 25] by (simp add: smart_active_def) (simp add: demo_config_def)
  with p show ?thesis by (simp add: bypass_route_def demo_config_def)
qed



end
