(* ===== verification/Spec2Isabelle.thy ===== *)
theory Spec2Isabelle
  imports Services Host_Policy
begin

text \<open>
  \<^bold>\<open>Hashshashin: a verification of the tunnel daemon\<close>

  Hashshashin is a layer-3 tunnel between two Linux hosts, called Iran and Kharej after their roles.
  Each node reads IP packets from a TUN device, seals them with AES-256-GCM under session keys agreed
  in an authenticated handshake, and hands them to a carrier (UDP, TCP or KCP); what arrives is
  authenticated, checked against a replay window and written to the TUN device. Routing and firewall
  rules send the marked service traffic into the tunnel; on the way back, Smart Return probes the
  direct path and switches the download between the direct path and the tunnel.

  The development is a shallow embedding of the Go program (all files are under \<open>src/\<close>). A Go struct
  is a record, an interface a record of functions, a fallible function returns a sum or an option,
  mutable state is passed explicitly, fixed-width integers are words, and a goroutine is a function of
  its wake-ups. Everything is executable except the specifications.

  \<^bold>\<open>Foundations.\<close>
  \<^item> \<open>Prelude\<close>: slices, big-endian codecs, 64-bit wrap-around and saturation, decimal printing, and the
    lemma collection \<open>codec_simps\<close>.
  \<^item> \<open>Go_Time\<close>, \<open>Go_Text\<close>, \<open>Go_Net\<close>, \<open>Go_Crypto\<close>: what the program uses of \<open>time\<close>, \<open>strconv\<close>,
    \<open>strings\<close>, \<open>net\<close>, \<open>encoding/base64\<close>, SHA-256, HMAC and AES-GCM, after the Go sources and the
    standards. DNS, service names and Unicode tables are parameters.

  \<^bold>\<open>Transport.\<close>
  \<^item> \<open>Replay\<close> (\<open>crypto.go\<close>): the bitmap replay window refines the set of accepted counters; the locale
    \<open>replay_filter\<close> is the interface its clients use.
  \<^item> \<open>Session\<close> (\<open>crypto.go\<close>): key derivation and session objects; the locale \<open>aead_scheme\<close> is
    interpreted on the AES-GCM definitions.
  \<^item> \<open>Tunnel_State\<close> (\<open>transport.go\<close>, \<open>smart_return.go\<close>): the shared state with a heap of sessions, its
    well-formedness invariant, the acknowledgement channel.
  \<^item> \<open>Transport\<close>, \<open>Data_Plane\<close>, \<open>Handshake\<close> (\<open>transport.go\<close>): packets and handlers; what is sent is
    delivered, only authentic fresh packets have an effect, a handshake yields matching keys, when a
    hello can be replayed.
  \<^item> \<open>Supervisor\<close>, \<open>Supervision\<close> (\<open>transport.go\<close>, \<open>main.go\<close>): the receive loop, the client and server
    supervisors, the TUN send loop and the statistics.
  \<^item> \<open>Interleaving\<close>: a step relation whose steps are the atomic operations of the goroutines on the
    shared state. For every interleaving, nonces are unique and counters are accepted once.

  \<^bold>\<open>Carriers and devices.\<close>
  \<^item> \<open>Carrier\<close> (\<open>carrier.go\<close>): the interface, with the contract \<open>packet_carrier\<close> as a locale.
  \<^item> \<open>UDP_Carrier\<close>, \<open>Stream_Carrier\<close>, \<open>Framing\<close>, \<open>Carriers\<close> (\<open>carrier_udp.go\<close>, \<open>carrier.go\<close>,
    \<open>carrier_tcp.go\<close>, \<open>carrier_kcp.go\<close>): the three carriers; each, and the configured one, is an
    interpretation of the contract. The kernel's side of a socket is a list of outcomes to come and a
    log of what was sent; the KCP library is represented by the connections it returns.
  \<^item> \<open>Tun_Device\<close> (\<open>tun_linux.go\<close>): the multi-queue device and which files are open; \<open>Close\<close> races with
    a concurrent read or write.

  \<^bold>\<open>Configuration and host.\<close>
  \<^item> \<open>Performance\<close>, \<open>Config\<close>, \<open>Config_Sound\<close> (\<open>performance.go\<close>, \<open>config.go\<close>): defaults and validation;
    the locale \<open>defaulted_section\<close> is the contract of a section. Accepted configurations are fixed
    points and satisfy what the daemon relies on. The decoded JSON file is the input.
  \<^item> \<open>Routing\<close> (\<open>routing.go\<close>, \<open>smart_policy.go\<close>, \<open>carrier_firewall.go\<close>): every command that setup and
    cleanup run, with their early returns. The programs \<open>ip\<close>, \<open>iptables\<close>, \<open>tc\<close> and \<open>sysctl\<close> are the
    parameter \<open>exec\<close>.
  \<^item> \<open>Host_Commands\<close>: the locale \<open>host_property\<close>, of which every setup and cleanup function keeps the
    property; only Hashshashin's own objects are ever named in a command.
  \<^item> \<open>Firewall\<close>, \<open>Firewall_Setup\<close>: the documented behaviour of \<open>iptables\<close> as the hypothesis \<open>netfilter\<close>,
    satisfied by a concrete filter; cleaning up terminates and restores the administrator's filter
    after any sequence of operations, failed ones included.
  \<^item> \<open>Packet_Filter\<close>, \<open>Installed_Rules\<close>, \<open>Services\<close>: what the installed rules do to a packet. A chain is
    walked rule by rule (\<open>walk\<close>); which rules match a packet is a parameter with the documented meaning
    of the match options as hypothesis \<open>match_laws\<close>. Kharej's services are locked, Iran's go into the
    tunnel. \<open>Sim_Host\<close> is a concrete host on which every start succeeds.
  \<^item> \<open>Policy_Routing\<close>, \<open>Marked_Routes\<close>, \<open>Host_Policy\<close>: the documented behaviour of \<open>ip rule\<close> and \<open>ip route\<close>
    as the hypothesis \<open>policy_routing\<close>; the rules and tables after a start, by which route a packet with
    each of the marks leaves, and that cleaning up gives the administrator's rules and tables back.
  \<^item> \<open>Return_Path\<close>, \<open>Direct_Probe\<close>, \<open>Probe_Health\<close> (\<open>smart_return.go\<close>, \<open>direct_probe.go\<close>): the hysteresis
    controller refines its specification without counters; probes, responder and monitor.

  \<^bold>\<open>The whole program.\<close>
  \<^item> \<open>Workers\<close>: a node with its configured carrier and device, driven by turns of its goroutines;
    reachable states are well formed, and the turns refine the atomic operations of \<open>Interleaving\<close>.
  \<^item> \<open>Scheduler\<close>, \<open>Schedules\<close> (\<open>main.go\<close>): the goroutines that \<open>run\<close> starts, each with the point at
    which it blocks, under every schedule of signals and wake-ups; every schedule is a sequence of the
    turns of \<open>Workers\<close>, and control states are well typed.
  \<^item> \<open>Shutdown\<close> (\<open>main.go\<close>): closing the carrier and the device ends every goroutine but the probe
    responder, which is shown to hold the shutdown up.
  \<^item> \<open>Daemon\<close>, \<open>Daemon_Safe\<close> (\<open>main.go\<close>): the command line and \<open>run\<close>; whichever way it ends, the packet
    filter, the files and the sockets are given back (and, in \<open>Host_Policy\<close>, the policy routing), also
    when a goroutine keeps running beside the deferred calls.
  \<^item> This theory: two nodes end to end, and the size of packets.

  \<^bold>\<open>Loops and bounds.\<close> Loops over data are structural recursions. The only loop that the program cannot
  bound, removing the jumps to a chain, is a partial function whose value \<open>None\<close> means that it does not
  end, and it is proved to end. Loops that wait for events are recursions over the events; \<open>None\<close> then
  means that the goroutine is still waiting. The depth of \<open>walk\<close> bounds nested jumps; two levels are
  enough for a hook and the chain behind it, and the theorems hold for every greater depth. The reading loop of the stream carrier has a termination
  proof by the connections still to come. No other fuel is used. Uniqueness of nonces holds below \<open>2\<^sup>64\<close>
  packets per session, the width of the counter.

  \<^bold>\<open>Granularity.\<close> In \<open>Scheduler\<close> a goroutine runs from one blocking point to the next as one turn; the
  interleaving of the atomic operations inside a turn with those of other goroutines is the subject of
  \<open>Interleaving\<close>, which over-approximates what other goroutines can do to the fields that its theorems
  do not concern. The unsynchronised uses of the device's queues are treated separately in
  \<open>Tun_Device\<close>.

  \<^bold>\<open>Not modelled.\<close> Log output; the JSON decoder and flag parsing, which are represented by their results;
  real time (the five seconds of the shutdown are an arbitrary further schedule); the interior of the
  KCP library;
  computational security of the cryptography (authenticity is stated as: an accepted packet is a
  sealed packet under the session key); the main routing table, connection tracking and the rest of
  the kernel behind the hypotheses named above; the installer, the management panel and the benchmark,
  which are shell scripts.
\<close>

subsection \<open>Packets fit\<close>

text \<open>C40: what the tunnel sends always fits. With an accepted configuration, the encrypted form of a
  packet no longer than the TUN's MTU is a valid frame of the stream carriers, and as a UDP datagram
  with its 28 bytes of headers it fits an Ethernet MTU of 1500 bytes.\<close>

theorem accepted_mtu_fits:
  assumes "loadConfig env file = Inr c" "good_aead a" "int (length pl) \<le> MTU (Tun c)"
  shows "valid_frame (packet_of a typ n pl) \<and> length (packet_of a typ n pl) + 28 \<le> 1500"
proof -
  have "MTU (Tun c) \<le> 1400" using loadConfig_ok [OF assms(1)] by (simp add: config_ok_def basics_ok_def)
  then have "length pl \<le> 1400" using assms(3) by simp
  then show ?thesis using assms(2) by (auto simp: valid_frame_def maxCarrierFrame_def simp flip: length_0_conv)
qed

theorem accepted_mtu_fits_witness:
  "valid_frame (packet_of (txAEAD (demo_session True)) msgData 1 [0x45])"
  using accepted_mtu_fits [OF demo_config_loaded [of 25 "''udp''"], of "txAEAD (demo_session True)" "[0x45]" msgData 1]
    demo_session_simps(5) [of True]
  by (simp add: good_session_def demo_config_def)

subsection \<open>End to end\<close>

lemma dispatch_hello:
  assumes "length cn = 32"
  shows "recv_dispatch ops tw key ''kharej'' peer (makeHello key cn t0) now rnd n
    = handleHello ops peer (makeHello key cn t0) key now rnd n"
  using assms by (simp add: recv_dispatch_def)

lemma dispatch_ack:
  assumes "length cn = 32" "length sn = 32"
  shows "recv_dispatch ops tw key ''iran'' peer (makeHelloAck key cn sn) now rnd n
    = on_state (handleHelloAck peer (makeHelloAck key cn sn) key now) n"
  using assms by (simp add: recv_dispatch_def msg_defs)

lemma dispatch_data:
  assumes "good_aead a"
  shows "recv_dispatch ops tw key role peer (packet_of a msgData c pl) now rnd n
    = handleEncrypted tw peer (packet_of a msgData c pl) now n"
  using assms by (simp add: recv_dispatch_def msg_defs)

lemma tun_delivery:
  assumes "st_session (n_st a) = Some i" "heap (n_st a) i = Some s"
    and "st_session (n_st b) = Some j" "heap (n_st b) j = Some r" "wf_state (n_st b)"
    and "rxAEAD r = txAEAD s" "fst (accept (s_tx s + 1) (s_replay r))" "pl \<noteq> []"
  shows "\<exists>p. n_carrier (tun_send_step ops pl a) = snd (WritePacket ops p (s_peer s) (n_carrier a)) \<and>
    n_tun (recv_dispatch ops' tw key role (s_peer r) p now rnd b) = tw pl (n_tun b)"
proof (intro exI conjI)
  let ?p = "packet_of (txAEAD s) msgData (s_tx s + 1) pl"
  show "n_carrier (tun_send_step ops pl a) = snd (WritePacket ops ?p (s_peer s) (n_carrier a))"
    using assms(1,2) by (simp add: tun_send_step_def loadSession_def sendEncrypted_eq Let_def case_prod_beta)
  have g: "good_session r" using wf_state_heap [OF assms(5,4)] .
  have "receives b (s_peer r) ?p = Some (j, s_tx s + 1, pl)"
    using receives_packet_of [OF assms(3,4) g assms(7)] assms(6) by simp
  then show "n_tun (recv_dispatch ops' tw key role (s_peer r) ?p now rnd b) = tw pl (n_tun b)"
    using g assms(6,8) by (simp add: dispatch_data good_session_def handleEncrypted_tun)
qed

text \<open>C1: the tunnel works end to end. A client that has armed its nonce and a server without a live
  record of it exchange the hello and the acknowledgement through their receive loops; afterwards a
  packet read from the client's TUN device becomes one packet on the carrier to the server, whose
  receive loop writes exactly that packet to the server's TUN device, and the same holds in the other
  direction.\<close>

theorem tunnel_end_to_end:
  assumes "length cn = 32" "length sn = 32" "clock_ok t0"
    and "unix_sec t0 * second - 90 * second \<le> wall t1" "wall t1 \<le> unix_sec t0 * second + 90 * second"
    and "expire_hellos t1 (hellos (n_st b)) cn = None" "pendingSet (n_st a)" "pending (n_st a) = cn"
    and "wf_state (n_st a)" "wf_state (n_st b)" "pl \<noteq> []"
    and b1: "b1 = recv_dispatch ops tw key ''kharej'' pa (makeHello key cn t0) t1 (Some sn) b"
    and a1: "a1 = recv_dispatch ops tw key ''iran'' pb (makeHelloAck key cn sn) t2 rnd a"
  shows "n_carrier b1 = snd (WritePacket ops (makeHelloAck key cn sn) pa (n_carrier b)) \<and>
    (\<exists>p. n_carrier (tun_send_step ops pl a1) = snd (WritePacket ops p pb (n_carrier a1)) \<and>
       n_tun (recv_dispatch ops tw key ''kharej'' pa p t3 rnd3 b1) = tw pl (n_tun b1)) \<and>
    (\<exists>p. n_carrier (tun_send_step ops pl b1) = snd (WritePacket ops p pa (n_carrier b1)) \<and>
       n_tun (recv_dispatch ops tw key ''iran'' pb p t3 rnd3 a1) = tw pl (n_tun a1))"
proof -
  have b1': "b1 = handleHello ops pa (makeHello key cn t0) key t1 (Some sn) b"
    and a1': "n_st a1 = handleHelloAck pb (makeHelloAck key cn sn) key t2 (n_st a)"
    using assms(1,2) by (simp_all add: b1 a1 dispatch_hello dispatch_ack)
  obtain i j r s where s: "st_session (n_st b1) = Some j" "heap (n_st b1) j = Some r"
    "st_session (n_st a1) = Some i" "heap (n_st a1) i = Some s" "rxAEAD r = txAEAD s" "rxAEAD s = txAEAD r"
    "s_peer r = pa" "s_peer s = pb" "s_tx r = 0" "s_tx s = 0" "s_replay r = zero_window" "s_replay s = zero_window"
    and car: "n_carrier b1 = snd (WritePacket ops (makeHelloAck key cn sn) pa (n_carrier b))"
    using handshake_sessions [OF assms(1-8) b1' refl a1'] by blast
  have wf: "wf_state (n_st a1)" "wf_state (n_st b1)" using assms(9,10) by (simp_all add: a1 b1 recv_dispatch_wf)
  have "\<exists>p. n_carrier (tun_send_step ops pl a1) = snd (WritePacket ops p pb (n_carrier a1)) \<and>
       n_tun (recv_dispatch ops tw key ''kharej'' pa p t3 rnd3 b1) = tw pl (n_tun b1)"
    using tun_delivery [OF s(3,4,1,2) wf(2) s(5) _ assms(11)] s(7-11) by simp
  moreover have "\<exists>p. n_carrier (tun_send_step ops pl b1) = snd (WritePacket ops p pa (n_carrier b1)) \<and>
       n_tun (recv_dispatch ops tw key ''iran'' pb p t3 rnd3 a1) = tw pl (n_tun a1)"
    using tun_delivery [OF s(1,2,3,4) wf(1) s(6) _ assms(11)] s(7-12) by simp
  ultimately show ?thesis using car by blast
qed

theorem tunnel_end_to_end_witness:
  "\<exists>p. n_tun (recv_dispatch capture_ops tun_log [1] ''kharej'' ''a'' p demo_now None
     (recv_dispatch capture_ops tun_log [1] ''kharej'' ''a'' (makeHello [1] demo_cn demo_now) demo_now (Some demo_sn) demo_server))
     = [[0x45]]"
proof -
  let ?a = "demo_server\<lparr>n_st := init_state\<lparr>pendingSet := True, pending := demo_cn\<rparr>\<rparr>"
  have h: "expire_hellos demo_now (hellos (n_st demo_server)) demo_cn = None" by simp
  have w: "wf_state (n_st demo_server)" by (simp add: demo_server_def)
  have t: "n_tun (recv_dispatch capture_ops tun_log [1] ''kharej'' ''a'' (makeHello [1] demo_cn demo_now) demo_now (Some demo_sn) demo_server) = []"
    by (simp add: dispatch_hello) (simp add: demo_server_def)
  from tunnel_end_to_end [OF demo_handshake_simps(1,2) demo_clock h _ _ _ w _ refl refl,
      of ?a "[0x45]" capture_ops tun_log "[1]" "''a''" "''b''" demo_now None demo_now None]
  show ?thesis by (auto simp: t tun_log_def)
qed

end
